theory Spec2Isabelle
  imports Main "HOL-Library.Word" "HOL-Library.Monad_Syntax" "HOL-Library.Code_Target_Numeral"
begin

unbundle bit_operations_syntax

section \<open>The ipset netlink encoder of src/util.c\<close>

text \<open>
  This theory embeds the ipset part of \<^verbatim>\<open>src/util.c\<close>: the attribute encoder
  \<^verbatim>\<open>_ipset_add_attr\<close>, the lazy socket \<^verbatim>\<open>_ipset_socket_init\<close>, the capability
  check \<^verbatim>\<open>_ipset_support_timeout\<close>, the builder and sender \<^verbatim>\<open>_ipset_operate\<close>
  and the two entry points \<^verbatim>\<open>ipset_add\<close> and \<^verbatim>\<open>ipset_del\<close>. Identifiers keep the
  names of the source; a leading underscore is dropped, since an Isabelle name starts
  with a letter.

  The scratch buffer is a list of bytes. C integers are natural numbers, and every
  conversion to a narrower C type is written out as \<open>mod 2 ^ w\<close>. A store outside
  the buffer, or a read beyond the end of a source object, is undefined behaviour in C
  and is the value \<open>None\<close> here.
\<close>

subsection \<open>The platform\<close>

text \<open>
  Two properties of the target decide what bytes the code writes: the byte order in
  which the host keeps multi-byte integers, and the width of \<^verbatim>\<open>unsigned long\<close>, the
  declared type of the parameter \<^verbatim>\<open>timeout\<close> (4 bytes on the 32-bit Linux ABIs, 8
  bytes on the 64-bit ones).
\<close>

type_synonym byte = "8 word"

datatype endian = Little | Big

datatype abi = ILP32 | LP64

record platform =
  byte_order :: endian
  data_model :: abi

fun sizeof_ulong :: "abi \<Rightarrow> nat" where
  "sizeof_ulong ILP32 = 4"
| "sizeof_ulong LP64 = 8"

subsection \<open>Constants of the source\<close>

definition NFNL_SUBSYS_IPSET :: nat where "NFNL_SUBSYS_IPSET = 6"
definition IPSET_ATTR_DATA :: nat where "IPSET_ATTR_DATA = 7"
definition IPSET_ATTR_IP :: nat where "IPSET_ATTR_IP = 1"
definition IPSET_ATTR_IPADDR_IPV4 :: nat where "IPSET_ATTR_IPADDR_IPV4 = 1"
definition IPSET_ATTR_IPADDR_IPV6 :: nat where "IPSET_ATTR_IPADDR_IPV6 = 2"
definition IPSET_ATTR_PROTOCOL :: nat where "IPSET_ATTR_PROTOCOL = 1"
definition IPSET_ATTR_SETNAME :: nat where "IPSET_ATTR_SETNAME = 2"
definition IPSET_ATTR_TIMEOUT :: nat where "IPSET_ATTR_TIMEOUT = 6"
definition IPSET_ADD :: nat where "IPSET_ADD = 9"
definition IPSET_DEL :: nat where "IPSET_DEL = 10"
definition IPSET_MAXNAMELEN :: nat where "IPSET_MAXNAMELEN = 32"
definition IPSET_PROTOCOL :: nat where "IPSET_PROTOCOL = 6"
definition IPV6_ADDR_LEN :: int where "IPV6_ADDR_LEN = 16"
definition IPV4_ADDR_LEN :: int where "IPV4_ADDR_LEN = 4"
definition NFNETLINK_V0 :: nat where "NFNETLINK_V0 = 0"
definition NLA_F_NESTED :: nat where "NLA_F_NESTED = push_bit 15 1"
definition NLA_F_NET_BYTEORDER :: nat where "NLA_F_NET_BYTEORDER = push_bit 14 1"
definition BUFF_SZ :: nat where "BUFF_SZ = 256"

text \<open>
  Constants and layouts of the Linux headers the file includes
  (\<^verbatim>\<open>linux/netlink.h\<close>, \<^verbatim>\<open>sys/socket.h\<close>, \<^verbatim>\<open>errno.h\<close>). \<^verbatim>\<open>struct nlmsghdr\<close> is
  \<^verbatim>\<open>{ __u32 nlmsg_len; __u16 nlmsg_type; __u16 nlmsg_flags; __u32 nlmsg_seq; __u32 nlmsg_pid; }\<close>.
\<close>

definition AF_INET :: nat where "AF_INET = 2"
definition AF_INET6 :: nat where "AF_INET6 = 10"
definition NLM_F_REQUEST :: nat where "NLM_F_REQUEST = 1"
definition NLM_F_REPLACE :: nat where "NLM_F_REPLACE = 256"
definition EINTR :: int where "EINTR = 4"
definition EAGAIN :: int where "EAGAIN = 11"
definition EWOULDBLOCK :: int where "EWOULDBLOCK = EAGAIN"

definition sizeof_nlmsghdr :: nat where "sizeof_nlmsghdr = 16"
definition off_nlmsg_len :: nat where "off_nlmsg_len = 0"
definition off_nlmsg_type :: nat where "off_nlmsg_type = 4"
definition off_nlmsg_flags :: nat where "off_nlmsg_flags = 6"

text \<open>
  The two structs the file declares itself:
  \<^verbatim>\<open>struct ipset_netlink_attr { unsigned short len; unsigned short type; }\<close> and
  \<^verbatim>\<open>struct ipset_netlink_msg { unsigned char family; unsigned char version; __be16 res_id; }\<close>.
\<close>

definition sizeof_ipset_netlink_attr :: nat where "sizeof_ipset_netlink_attr = 4"
definition off_attr_len :: nat where "off_attr_len = 0"
definition off_attr_type :: nat where "off_attr_type = 2"

definition sizeof_ipset_netlink_msg :: nat where "sizeof_ipset_netlink_msg = 4"
definition off_msg_family :: nat where "off_msg_family = 0"
definition off_msg_version :: nat where "off_msg_version = 1"
definition off_msg_res_id :: nat where "off_msg_res_id = 2"

text \<open>
  \<^verbatim>\<open>#define NETLINK_ALIGN(len) (((len) + 3) & ~(3))\<close>: clearing the two low bits of
  \<open>len + 3\<close> rounds \<open>len\<close> up to the next multiple of 4.
\<close>

definition NETLINK_ALIGN :: "nat \<Rightarrow> nat" where
  "NETLINK_ALIGN len = push_bit 2 (drop_bit 2 (len + 3))"

subsection \<open>Integers in memory\<close>

fun le_bytes :: "nat \<Rightarrow> nat \<Rightarrow> byte list" where
  "le_bytes 0 v = []"
| "le_bytes (Suc n) v = of_nat (v mod 256) # le_bytes n (v div 256)"

fun le_val :: "byte list \<Rightarrow> nat" where
  "le_val [] = 0"
| "le_val (b # bs) = unat b + 256 * le_val bs"

definition be_bytes :: "nat \<Rightarrow> nat \<Rightarrow> byte list" where
  "be_bytes n v = rev (le_bytes n v)"

definition be_val :: "byte list \<Rightarrow> nat" where
  "be_val bs = le_val (rev bs)"

text \<open>The \<open>n\<close> bytes that hold the value \<open>v\<close> of an \<open>n\<close>-byte integer object on the host.\<close>

definition host_bytes :: "platform \<Rightarrow> nat \<Rightarrow> nat \<Rightarrow> byte list" where
  "host_bytes plat n v = (case byte_order plat of Little \<Rightarrow> le_bytes n v | Big \<Rightarrow> be_bytes n v)"

definition host_val :: "platform \<Rightarrow> byte list \<Rightarrow> nat" where
  "host_val plat bs = (case byte_order plat of Little \<Rightarrow> le_val bs | Big \<Rightarrow> be_val bs)"

text \<open>
  \<^verbatim>\<open>htonl\<close> takes and returns a \<^verbatim>\<open>uint32_t\<close>: the argument is reduced modulo \<open>2 ^ 32\<close>,
  and on a little-endian host its four bytes are reversed.
\<close>

definition htonl :: "platform \<Rightarrow> nat \<Rightarrow> nat" where
  "htonl plat x = (case byte_order plat of
       Big \<Rightarrow> x mod 2 ^ 32
     | Little \<Rightarrow> le_val (rev (le_bytes 4 (x mod 2 ^ 32))))"

definition htons :: "platform \<Rightarrow> nat \<Rightarrow> nat" where
  "htons plat x = (case byte_order plat of
       Big \<Rightarrow> x mod 2 ^ 16
     | Little \<Rightarrow> le_val (rev (le_bytes 2 (x mod 2 ^ 16))))"

subsection \<open>The buffer\<close>

text \<open>\<^verbatim>\<open>memcpy(buf + off, src, len)\<close>.\<close>

definition memcpy :: "byte list \<Rightarrow> nat \<Rightarrow> byte list \<Rightarrow> nat \<Rightarrow> byte list option" where
  "memcpy buf off src len =
     (if len \<le> length src \<and> off + len \<le> length buf
      then Some (take off buf @ take len src @ drop (off + len) buf)
      else None)"

text \<open>Stores to and loads from an integer field of \<open>n\<close> bytes at offset \<open>off\<close>.\<close>

definition store :: "platform \<Rightarrow> nat \<Rightarrow> byte list \<Rightarrow> nat \<Rightarrow> nat \<Rightarrow> byte list option" where
  "store plat n buf off v = memcpy buf off (host_bytes plat n (v mod 256 ^ n)) n"

definition load :: "platform \<Rightarrow> nat \<Rightarrow> byte list \<Rightarrow> nat \<Rightarrow> nat" where
  "load plat n buf off = host_val plat (take n (drop off buf))"

definition nlmsg_len :: "platform \<Rightarrow> byte list \<Rightarrow> nat" where
  "nlmsg_len plat buf = load plat 4 buf off_nlmsg_len"

definition nlmsg_type :: "platform \<Rightarrow> byte list \<Rightarrow> nat" where
  "nlmsg_type plat buf = load plat 2 buf off_nlmsg_type"

definition nlmsg_flags :: "platform \<Rightarrow> byte list \<Rightarrow> nat" where
  "nlmsg_flags plat buf = load plat 2 buf off_nlmsg_flags"

subsection \<open>The attribute encoder\<close>

text \<open>
  \<^verbatim>\<open>_ipset_add_attr(netlink_head, type, len, data)\<close>. \<^verbatim>\<open>netlink_head\<close> is the start
  of the buffer; \<open>data\<close> is the object \<^verbatim>\<open>data\<close> points to. \<^verbatim>\<open>payload_len\<close> is a
  \<^verbatim>\<open>uint16_t\<close>, \<^verbatim>\<open>nlmsg_len\<close> a \<^verbatim>\<open>__u32\<close>.
\<close>

definition ipset_add_attr :: "platform \<Rightarrow> byte list \<Rightarrow> nat \<Rightarrow> nat \<Rightarrow> byte list \<Rightarrow> byte list option" where
  "ipset_add_attr plat netlink_head type len data = do {
     let attr = NETLINK_ALIGN (nlmsg_len plat netlink_head);
     let payload_len = (NETLINK_ALIGN sizeof_ipset_netlink_attr + len) mod 2 ^ 16;
     b1 \<leftarrow> store plat 2 netlink_head (attr + off_attr_type) type;
     b2 \<leftarrow> store plat 2 b1 (attr + off_attr_len) payload_len;
     b3 \<leftarrow> memcpy b2 (attr + NETLINK_ALIGN sizeof_ipset_netlink_attr) data len;
     store plat 4 b3 off_nlmsg_len (nlmsg_len plat b3 + NETLINK_ALIGN payload_len)
   }"

subsection \<open>The capability check\<close>

text \<open>
  \<^verbatim>\<open>_ipset_support_timeout(ipsetname)\<close> reads the global
  \<^verbatim>\<open>dns_conf_ipset_timeout_enable\<close> of \<^verbatim>\<open>dns_conf.h\<close>, here its first argument.
\<close>

definition ipset_support_timeout :: "int \<Rightarrow> byte list \<Rightarrow> int" where
  "ipset_support_timeout dns_conf_ipset_timeout_enable ipsetname =
     (if dns_conf_ipset_timeout_enable \<noteq> 0 then 0 else -1)"

subsection \<open>Building the message\<close>

text \<open>
  A C string is the bytes before the first NUL of the object the pointer refers to; a
  list without a NUL stands for the string it spells, followed by its terminator.
\<close>

definition strlen :: "byte list \<Rightarrow> nat" where
  "strlen s = length (takeWhile (\<lambda>b. b \<noteq> 0) s)"

definition c_str :: "byte list \<Rightarrow> byte list" where
  "c_str s = takeWhile (\<lambda>b. b \<noteq> 0) s @ [0]"

text \<open>
  Lines 294 to 326 of \<^verbatim>\<open>_ipset_operate\<close>: from \<^verbatim>\<open>memset\<close> to the backpatch of
  \<^verbatim>\<open>nested[0]->len\<close>. \<open>af\<close> is the family chosen from \<^verbatim>\<open>addr_len\<close> before;
  \<open>enable\<close> is the global \<^verbatim>\<open>dns_conf_ipset_timeout_enable\<close>. The result is the whole
  buffer of \<^verbatim>\<open>BUFF_SZ\<close> bytes.
\<close>

definition ipset_build ::
  "platform \<Rightarrow> int \<Rightarrow> byte list \<Rightarrow> byte list \<Rightarrow> nat \<Rightarrow> nat \<Rightarrow> nat \<Rightarrow> nat \<Rightarrow> byte list option" where
  "ipset_build plat enable ipsetname addr addr_len timeout operate af = do {
     let buffer = replicate BUFF_SZ (0 :: byte);
     b \<leftarrow> store plat 4 buffer off_nlmsg_len (NETLINK_ALIGN sizeof_nlmsghdr);
     b \<leftarrow> store plat 2 b off_nlmsg_type (operate OR push_bit 8 NFNL_SUBSYS_IPSET);
     b \<leftarrow> store plat 2 b off_nlmsg_flags (NLM_F_REQUEST OR NLM_F_REPLACE);
     let netlink_msg = nlmsg_len plat b;
     b \<leftarrow> store plat 4 b off_nlmsg_len (nlmsg_len plat b + NETLINK_ALIGN sizeof_ipset_netlink_msg);
     b \<leftarrow> store plat 1 b (netlink_msg + off_msg_family) af;
     b \<leftarrow> store plat 1 b (netlink_msg + off_msg_version) NFNETLINK_V0;
     b \<leftarrow> store plat 2 b (netlink_msg + off_msg_res_id) (htons plat 0);
     let proto = IPSET_PROTOCOL;
     b \<leftarrow> ipset_add_attr plat b IPSET_ATTR_PROTOCOL 1 (host_bytes plat 1 proto);
     b \<leftarrow> ipset_add_attr plat b IPSET_ATTR_SETNAME (strlen ipsetname + 1) (c_str ipsetname);
     let nested0 = NETLINK_ALIGN (nlmsg_len plat b);
     b \<leftarrow> store plat 4 b off_nlmsg_len (nlmsg_len plat b + NETLINK_ALIGN sizeof_ipset_netlink_attr);
     b \<leftarrow> store plat 2 b (nested0 + off_attr_type) (NLA_F_NESTED OR IPSET_ATTR_DATA);
     let nested1 = NETLINK_ALIGN (nlmsg_len plat b);
     b \<leftarrow> store plat 4 b off_nlmsg_len (nlmsg_len plat b + NETLINK_ALIGN sizeof_ipset_netlink_attr);
     b \<leftarrow> store plat 2 b (nested1 + off_attr_type) (NLA_F_NESTED OR IPSET_ATTR_IP);
     b \<leftarrow> ipset_add_attr plat b
           ((if af = AF_INET then IPSET_ATTR_IPADDR_IPV4 else IPSET_ATTR_IPADDR_IPV6) OR NLA_F_NET_BYTEORDER)
           addr_len addr;
     b \<leftarrow> store plat 2 b (nested1 + off_attr_len) (NETLINK_ALIGN (nlmsg_len plat b) - nested1);
     b \<leftarrow> (if timeout > 0 \<and> ipset_support_timeout enable ipsetname = 0
           then ipset_add_attr plat b (IPSET_ATTR_TIMEOUT OR NLA_F_NET_BYTEORDER)
                  (sizeof_ulong (data_model plat))
                  (host_bytes plat (sizeof_ulong (data_model plat)) (htonl plat timeout))
           else Some b);
     store plat 2 b (nested0 + off_attr_len) (NETLINK_ALIGN (nlmsg_len plat b) - nested0)
   }"

subsection \<open>The socket, the kernel and the send loop\<close>

text \<open>
  The process state the functions touch: the static \<^verbatim>\<open>ipset_fd\<close>, the configuration
  flag \<^verbatim>\<open>dns_conf_ipset_timeout_enable\<close>, and the system calls made so far, oldest
  first. \<open>Sendto_call fd msg\<close> is a call of \<^verbatim>\<open>sendto\<close> on \<open>fd\<close> with the bytes
  \<open>msg\<close>; \<open>Nanosleep_call s ns\<close> is a call of \<^verbatim>\<open>nanosleep\<close> for \<open>s\<close> seconds and
  \<open>ns\<close> nanoseconds.
\<close>

datatype event = Socket_call | Sendto_call int "byte list" | Nanosleep_call nat nat

record world =
  ipset_fd :: int
  dns_conf_ipset_timeout_enable :: int
  events :: "event list"

text \<open>
  What the kernel answers: the value of \<^verbatim>\<open>socket\<close>, and for the \<open>i\<close>-th call of
  \<^verbatim>\<open>sendto\<close> its return value and the \<^verbatim>\<open>errno\<close> it leaves.
\<close>

record kernel =
  socket_ret :: int
  sendto_ret :: "nat \<Rightarrow> int"
  sendto_errno :: "nat \<Rightarrow> int"

text \<open>
  The three early returns of \<^verbatim>\<open>_ipset_operate\<close> all return \<open>-1\<close>; they differ in
  \<^verbatim>\<open>errno\<close>: \<^verbatim>\<open>EINVAL\<close> for \<open>InvalidAddress\<close>, the value \<^verbatim>\<open>socket\<close> left for
  \<open>SocketCreationFailed\<close>, \<^verbatim>\<open>ENAMETOOLONG\<close> for \<open>NameTooLong\<close>. \<open>BufferOverrun\<close> is
  no return of the C function: it stands for a run that leaves the buffer or reads beyond
  the address object, which is undefined behaviour.
\<close>

datatype error = InvalidAddress | SocketCreationFailed | NameTooLong | BufferOverrun

definition ipset_socket_init :: "kernel \<Rightarrow> world \<Rightarrow> int \<times> world" where
  "ipset_socket_init k w =
     (if ipset_fd w > 0 then (0, w)
      else let w' = w\<lparr>ipset_fd := socket_ret k, events := events w @ [Socket_call]\<rparr>
           in if ipset_fd w' < 0 then (-1, w') else (0, w'))"

text \<open>
  The \<^verbatim>\<open>for (;;)\<close> loop of \<^verbatim>\<open>_ipset_operate\<close>; \<open>i\<close> counts the calls of
  \<^verbatim>\<open>sendto\<close> made before. The loop has no exit but a non-negative \<^verbatim>\<open>rc\<close>, so the
  function is partial: \<open>None\<close> is a loop that never returns.
\<close>

partial_function (option) sendto_loop :: "kernel \<Rightarrow> byte list \<Rightarrow> nat \<Rightarrow> world \<Rightarrow> (int \<times> world) option" where
  "sendto_loop k msg i w =
     (let rc = sendto_ret k i;
          w1 = w\<lparr>events := events w @ [Sendto_call (ipset_fd w) msg]\<rparr>
      in if rc \<ge> 0 then Some (rc, w1)
         else if sendto_errno k i = EAGAIN \<or> sendto_errno k i = EWOULDBLOCK \<or> sendto_errno k i = EINTR
         then sendto_loop k msg (Suc i) (w1\<lparr>events := events w1 @ [Nanosleep_call 0 10000]\<rparr>)
         else sendto_loop k msg (Suc i) w1)"

declare sendto_loop.simps [code]

text \<open>
  Lines 276 to 283 of \<^verbatim>\<open>_ipset_operate\<close>: the family is chosen from \<^verbatim>\<open>addr_len\<close>;
  \<open>None\<close> is the branch that sets \<^verbatim>\<open>EINVAL\<close> and returns \<open>-1\<close>.
\<close>

definition addr_family :: "int \<Rightarrow> nat option" where
  "addr_family addr_len =
     (if addr_len = IPV4_ADDR_LEN then Some AF_INET
      else if addr_len = IPV6_ADDR_LEN then Some AF_INET6
      else None)"

text \<open>\<^verbatim>\<open>_ipset_operate(ipsetname, addr, addr_len, timeout, operate)\<close>.\<close>

definition ipset_operate ::
  "platform \<Rightarrow> kernel \<Rightarrow> byte list \<Rightarrow> byte list \<Rightarrow> int \<Rightarrow> nat \<Rightarrow> nat \<Rightarrow> world
     \<Rightarrow> ((error + int) \<times> world) option" where
  "ipset_operate plat k ipsetname addr addr_len timeout operate w =
     (if addr_len \<noteq> IPV4_ADDR_LEN \<and> addr_len \<noteq> IPV6_ADDR_LEN then Some (Inl InvalidAddress, w)
      else case addr_family addr_len of
        None \<Rightarrow> Some (Inl InvalidAddress, w)
      | Some af \<Rightarrow>
          (case ipset_socket_init k w of (r, w1) \<Rightarrow>
             if r \<noteq> 0 then Some (Inl SocketCreationFailed, w1)
             else if strlen ipsetname \<ge> IPSET_MAXNAMELEN then Some (Inl NameTooLong, w1)
             else (case ipset_build plat (dns_conf_ipset_timeout_enable w1) ipsetname addr
                          (nat addr_len) timeout operate af of
                None \<Rightarrow> Some (Inl BufferOverrun, w1)
              | Some buffer \<Rightarrow>
                  map_option (\<lambda>(rc, w2). (Inr rc, w2))
                    (sendto_loop k (take (nlmsg_len plat buffer) buffer) 0 w1))))"

definition ipset_add ::
  "platform \<Rightarrow> kernel \<Rightarrow> byte list \<Rightarrow> byte list \<Rightarrow> int \<Rightarrow> nat \<Rightarrow> world \<Rightarrow> ((error + int) \<times> world) option" where
  "ipset_add plat k ipsetname addr addr_len timeout w =
     ipset_operate plat k ipsetname addr addr_len timeout IPSET_ADD w"

definition ipset_del ::
  "platform \<Rightarrow> kernel \<Rightarrow> byte list \<Rightarrow> byte list \<Rightarrow> int \<Rightarrow> world \<Rightarrow> ((error + int) \<times> world) option" where
  "ipset_del plat k ipsetname addr addr_len w =
     ipset_operate plat k ipsetname addr addr_len 0 IPSET_DEL w"

subsection \<open>Reading a message back\<close>

text \<open>
  The repository holds no decoder: the kernel is the reader. The walk below follows the
  layout the encoder writes and the specification describes: an attribute is a header of
  two 16-bit host-order fields, the declared length and the type, followed by the payload;
  the declared length counts header and payload and not the padding; the next attribute
  starts at the declared length rounded up to a multiple of 4; an attribute whose type
  carries the nested bit holds a sequence of attributes as its payload. \<open>off\<close> is the
  offset in the buffer of the first byte of \<open>bs\<close>.
\<close>

datatype nlattr =
  NLAttr (nla_off: nat) (nla_type: nat) (nla_payload: "byte list") (nla_nested: "nlattr list")

function parse_attrs :: "platform \<Rightarrow> nat \<Rightarrow> byte list \<Rightarrow> nlattr list option" where
  "parse_attrs plat off bs =
     (if bs = [] then Some []
      else if length bs < 4 then None
      else if load plat 2 bs 0 < 4 \<or> length bs < load plat 2 bs 0 then None
      else (case (if load plat 2 bs 2 AND NLA_F_NESTED \<noteq> 0
                  then parse_attrs plat (off + 4) (take (load plat 2 bs 0 - 4) (drop 4 bs))
                  else Some []) of
              None \<Rightarrow> None
            | Some kids \<Rightarrow>
               (case parse_attrs plat (off + NETLINK_ALIGN (load plat 2 bs 0))
                       (drop (NETLINK_ALIGN (load plat 2 bs 0)) bs) of
                  None \<Rightarrow> None
                | Some rest \<Rightarrow>
                    Some (NLAttr off (load plat 2 bs 2)
                            (take (load plat 2 bs 0 - 4) (drop 4 bs)) kids # rest))))"
  by pat_completeness auto
termination
proof (relation "measure (\<lambda>(plat, off, bs). length bs)")
  show "wf (measure (\<lambda>(plat, off, bs). length bs))" by simp
next
  fix plat :: platform and off :: nat and bs :: "byte list"
  assume "bs \<noteq> []" "\<not> length bs < 4" "\<not> (load plat 2 bs 0 < 4 \<or> length bs < load plat 2 bs 0)"
  then have "load plat 2 bs 0 - 4 < length bs" by arith
  then show "((plat, off + 4, take (load plat 2 bs 0 - 4) (drop 4 bs)), plat, off, bs)
               \<in> measure (\<lambda>(plat, off, bs). length bs)"
    by (simp add: min_def)
next
  fix plat :: platform and off :: nat and bs :: "byte list"
  assume "bs \<noteq> []" "\<not> length bs < 4" "\<not> (load plat 2 bs 0 < 4 \<or> length bs < load plat 2 bs 0)"
  moreover have "0 < NETLINK_ALIGN (load plat 2 bs 0)" if "\<not> load plat 2 bs 0 < 4"
    using that by (simp add: NETLINK_ALIGN_def push_bit_eq_mult drop_bit_eq_div)
  ultimately show "((plat, off + NETLINK_ALIGN (load plat 2 bs 0), drop (NETLINK_ALIGN (load plat 2 bs 0)) bs), plat, off, bs)
               \<in> measure (\<lambda>(plat, off, bs). length bs)"
    by simp
qed

definition find_attr :: "nat \<Rightarrow> nlattr list \<Rightarrow> nlattr option" where
  "find_attr ty as = find (\<lambda>a. nla_type a = ty) as"

text \<open>The attributes of a message: those between the two headers and \<^verbatim>\<open>nlmsg_len\<close>.\<close>

definition msg_attrs :: "platform \<Rightarrow> byte list \<Rightarrow> nlattr list option" where
  "msg_attrs plat buf =
     (let hdrs = NETLINK_ALIGN sizeof_nlmsghdr + NETLINK_ALIGN sizeof_ipset_netlink_msg
      in if nlmsg_len plat buf < hdrs \<or> length buf < nlmsg_len plat buf then None
         else parse_attrs plat hdrs (drop hdrs (take (nlmsg_len plat buf) buf)))"

text \<open>
  What a reader recovers from a request: the set name (the SETNAME payload up to its
  terminator), the address (the payload of the address attribute inside IP inside DATA)
  and, where DATA holds a TIMEOUT attribute, the timeout (the 32-bit network-order value
  at the start of its payload).
\<close>

record request =
  req_setname :: "byte list"
  req_addr :: "byte list"
  req_timeout :: "nat option"

definition find_ipaddr :: "nlattr list \<Rightarrow> nlattr option" where
  "find_ipaddr as =
     (case find_attr (IPSET_ATTR_IPADDR_IPV4 OR NLA_F_NET_BYTEORDER) as of
        Some a \<Rightarrow> Some a
      | None \<Rightarrow> find_attr (IPSET_ATTR_IPADDR_IPV6 OR NLA_F_NET_BYTEORDER) as)"

definition decode_timeout :: "nlattr \<Rightarrow> nat option" where
  "decode_timeout a =
     (if length (nla_payload a) < 4 then None else Some (be_val (take 4 (nla_payload a))))"

text \<open>The attributes inside DATA, the TIMEOUT attribute among them, and the address attribute inside IP.\<close>

definition data_attrs :: "platform \<Rightarrow> byte list \<Rightarrow> nlattr list option" where
  "data_attrs plat buf = do {
     attrs \<leftarrow> msg_attrs plat buf;
     data \<leftarrow> find_attr (NLA_F_NESTED OR IPSET_ATTR_DATA) attrs;
     Some (nla_nested data)
   }"

definition timeout_attr :: "platform \<Rightarrow> byte list \<Rightarrow> nlattr option" where
  "timeout_attr plat buf = do {
     kids \<leftarrow> data_attrs plat buf;
     find_attr (IPSET_ATTR_TIMEOUT OR NLA_F_NET_BYTEORDER) kids
   }"

definition ipaddr_attr :: "platform \<Rightarrow> byte list \<Rightarrow> nlattr option" where
  "ipaddr_attr plat buf = do {
     kids \<leftarrow> data_attrs plat buf;
     ip \<leftarrow> find_attr (NLA_F_NESTED OR IPSET_ATTR_IP) kids;
     find_ipaddr (nla_nested ip)
   }"

definition decode_request :: "platform \<Rightarrow> byte list \<Rightarrow> request option" where
  "decode_request plat buf = do {
     attrs \<leftarrow> msg_attrs plat buf;
     setname \<leftarrow> find_attr IPSET_ATTR_SETNAME attrs;
     ipaddr \<leftarrow> ipaddr_attr plat buf;
     tmo \<leftarrow> (case timeout_attr plat buf of
               None \<Rightarrow> Some None
             | Some a \<Rightarrow> map_option Some (decode_timeout a));
     Some \<lparr>req_setname = takeWhile (\<lambda>b. b \<noteq> 0) (nla_payload setname),
           req_addr = nla_payload ipaddr,
           req_timeout = tmo\<rparr>
   }"

text \<open>The family byte of the protocol header, which follows the netlink header.\<close>

definition msg_family :: "platform \<Rightarrow> byte list \<Rightarrow> nat" where
  "msg_family plat buf = load plat 1 buf (NETLINK_ALIGN sizeof_nlmsghdr + off_msg_family)"

text \<open>
  All attributes of a tree, parents before children, and the number of bytes an
  attribute takes in the buffer: header, payload and padding.
\<close>

fun flatten :: "nlattr \<Rightarrow> nlattr list" where
  "flatten (NLAttr off ty payload kids) = NLAttr off ty payload kids # concat (map flatten kids)"

definition all_attrs :: "nlattr list \<Rightarrow> nlattr list" where
  "all_attrs as = concat (map flatten as)"

definition nla_len :: "nlattr \<Rightarrow> nat" where
  "nla_len a = sizeof_ipset_netlink_attr + length (nla_payload a)"

definition attr_span :: "nlattr \<Rightarrow> nat" where
  "attr_span a = NETLINK_ALIGN (nla_len a)"

subsection \<open>The layout of a message, written out\<close>

text \<open>
  The bytes the builder is meant to produce, as a plain concatenation: the form in which
  the builder's sequence of stores is compared with the wire format. \<open>wire_frame\<close> is a
  buffer whose first \<open>L\<close> bytes are the length field and \<open>body\<close> and whose rest is
  still zero.
\<close>

definition wire_attr :: "platform \<Rightarrow> nat \<Rightarrow> byte list \<Rightarrow> byte list" where
  "wire_attr plat ty payload =
     host_bytes plat 2 (4 + length payload) @ host_bytes plat 2 ty @ payload
       @ replicate (NETLINK_ALIGN (4 + length payload) - (4 + length payload)) 0"

definition wire_nested :: "platform \<Rightarrow> nat \<Rightarrow> byte list \<Rightarrow> byte list" where
  "wire_nested plat ty kids =
     host_bytes plat 2 (4 + length kids) @ host_bytes plat 2 (NLA_F_NESTED OR ty) @ kids"

definition wire_timeout :: "platform \<Rightarrow> int \<Rightarrow> nat \<Rightarrow> byte list" where
  "wire_timeout plat enable timeout =
     (if timeout > 0 \<and> enable \<noteq> 0
      then wire_attr plat (IPSET_ATTR_TIMEOUT OR NLA_F_NET_BYTEORDER)
             (host_bytes plat (sizeof_ulong (data_model plat)) (htonl plat timeout))
      else [])"

definition wire_ip :: "platform \<Rightarrow> byte list \<Rightarrow> nat \<Rightarrow> byte list" where
  "wire_ip plat addr af =
     wire_nested plat IPSET_ATTR_IP
       (wire_attr plat
          ((if af = AF_INET then IPSET_ATTR_IPADDR_IPV4 else IPSET_ATTR_IPADDR_IPV6) OR NLA_F_NET_BYTEORDER)
          addr)"

definition wire_attrs :: "platform \<Rightarrow> int \<Rightarrow> byte list \<Rightarrow> byte list \<Rightarrow> nat \<Rightarrow> nat \<Rightarrow> byte list" where
  "wire_attrs plat enable ipsetname addr timeout af =
     wire_attr plat IPSET_ATTR_PROTOCOL (host_bytes plat 1 IPSET_PROTOCOL)
       @ wire_attr plat IPSET_ATTR_SETNAME (c_str ipsetname)
       @ wire_nested plat IPSET_ATTR_DATA (wire_ip plat addr af @ wire_timeout plat enable timeout)"

definition wire_headers :: "platform \<Rightarrow> nat \<Rightarrow> nat \<Rightarrow> byte list" where
  "wire_headers plat operate af =
     host_bytes plat 2 (operate OR push_bit 8 NFNL_SUBSYS_IPSET)
       @ host_bytes plat 2 (NLM_F_REQUEST OR NLM_F_REPLACE)
       @ replicate 8 0
       @ host_bytes plat 1 af @ host_bytes plat 1 NFNETLINK_V0 @ host_bytes plat 2 (htons plat 0)"

definition wire_frame :: "platform \<Rightarrow> nat \<Rightarrow> byte list \<Rightarrow> byte list" where
  "wire_frame plat L body = host_bytes plat 4 L @ body @ replicate (BUFF_SZ - L) 0"

definition wire_body :: "platform \<Rightarrow> int \<Rightarrow> byte list \<Rightarrow> byte list \<Rightarrow> nat \<Rightarrow> nat \<Rightarrow> nat \<Rightarrow> byte list" where
  "wire_body plat enable ipsetname addr timeout operate af =
     wire_headers plat operate af @ wire_attrs plat enable ipsetname addr timeout af"

definition wire_msg :: "platform \<Rightarrow> int \<Rightarrow> byte list \<Rightarrow> byte list \<Rightarrow> nat \<Rightarrow> nat \<Rightarrow> nat \<Rightarrow> byte list" where
  "wire_msg plat enable ipsetname addr timeout operate af =
     host_bytes plat 4 (4 + length (wire_body plat enable ipsetname addr timeout operate af))
       @ wire_body plat enable ipsetname addr timeout operate af"

text \<open>The whole buffer after the build: the message, then zeros up to \<^verbatim>\<open>BUFF_SZ\<close>.\<close>

definition wire_buffer :: "platform \<Rightarrow> int \<Rightarrow> byte list \<Rightarrow> byte list \<Rightarrow> nat \<Rightarrow> nat \<Rightarrow> nat \<Rightarrow> byte list" where
  "wire_buffer plat enable ipsetname addr timeout operate af =
     wire_frame plat (4 + length (wire_body plat enable ipsetname addr timeout operate af))
       (wire_body plat enable ipsetname addr timeout operate af)"

text \<open>The attribute tree of that layout; \<open>base\<close> is the offset of the DATA attribute.\<close>

definition wire_timeout_tree :: "platform \<Rightarrow> int \<Rightarrow> nat \<Rightarrow> nat \<Rightarrow> nlattr list" where
  "wire_timeout_tree plat enable timeout off =
     (if timeout > 0 \<and> enable \<noteq> 0
      then [NLAttr off (IPSET_ATTR_TIMEOUT OR NLA_F_NET_BYTEORDER)
              (host_bytes plat (sizeof_ulong (data_model plat)) (htonl plat timeout)) []]
      else [])"

definition wire_tree :: "platform \<Rightarrow> int \<Rightarrow> byte list \<Rightarrow> byte list \<Rightarrow> nat \<Rightarrow> nat \<Rightarrow> nlattr list" where
  "wire_tree plat enable ipsetname addr timeout af =
     (let base = 28 + NETLINK_ALIGN (4 + (strlen ipsetname + 1));
          ipaddr = NLAttr (base + 8)
                     ((if af = AF_INET then IPSET_ATTR_IPADDR_IPV4 else IPSET_ATTR_IPADDR_IPV6) OR NLA_F_NET_BYTEORDER)
                     addr [];
          ip = NLAttr (base + 4) (NLA_F_NESTED OR IPSET_ATTR_IP)
                 (drop 4 (wire_ip plat addr af)) [ipaddr]
      in [NLAttr 20 IPSET_ATTR_PROTOCOL (host_bytes plat 1 IPSET_PROTOCOL) [],
          NLAttr 28 IPSET_ATTR_SETNAME (c_str ipsetname) [],
          NLAttr base (NLA_F_NESTED OR IPSET_ATTR_DATA)
            (wire_ip plat addr af @ wire_timeout plat enable timeout)
            (ip # wire_timeout_tree plat enable timeout (base + 8 + NETLINK_ALIGN (4 + length addr)))])"

subsection \<open>What one failed attempt of the send loop does\<close>

definition transient :: "int \<Rightarrow> bool" where
  "transient e = (e = EAGAIN \<or> e = EWOULDBLOCK \<or> e = EINTR)"

definition failed_attempt :: "kernel \<Rightarrow> int \<Rightarrow> byte list \<Rightarrow> nat \<Rightarrow> event list" where
  "failed_attempt k fd msg i =
     Sendto_call fd msg # (if transient (sendto_errno k i) then [Nanosleep_call 0 10000] else [])"

subsection \<open>Sample inputs\<close>

definition c_bytes :: "string \<Rightarrow> byte list" where
  "c_bytes s = map (\<lambda>c. of_nat (of_char c)) s"

definition x86_64 :: platform where
  "x86_64 = \<lparr>byte_order = Little, data_model = LP64\<rparr>"

definition mips32 :: platform where
  "mips32 = \<lparr>byte_order = Big, data_model = ILP32\<rparr>"

definition addr_v4 :: "byte list" where
  "addr_v4 = [192, 168, 1, 1]"

definition addr_v6 :: "byte list" where
  "addr_v6 = [32, 1, 13, 184, 0, 0, 0, 0, 0, 0, 0, 0, 0, 0, 0, 1]"

text \<open>A process that has not opened the socket yet, and one that has, as descriptor 3.\<close>

definition fresh_world :: "int \<Rightarrow> world" where
  "fresh_world enable = \<lparr>ipset_fd = 0, dns_conf_ipset_timeout_enable = enable, events = []\<rparr>"

text \<open>
  Kernels: one that opens the socket as descriptor 3 and accepts every send, one that
  refuses to open the socket, one that opens it and answers every send with
  \<^verbatim>\<open>EAGAIN\<close>.
\<close>

definition open_world :: "int \<Rightarrow> world" where
  "open_world enable = \<lparr>ipset_fd = 3, dns_conf_ipset_timeout_enable = enable, events = [Socket_call]\<rparr>"

definition kernel_ok :: kernel where
  "kernel_ok = \<lparr>socket_ret = 3, sendto_ret = (\<lambda>i. 60), sendto_errno = (\<lambda>i. 0)\<rparr>"

definition kernel_nosocket :: kernel where
  "kernel_nosocket = \<lparr>socket_ret = -1, sendto_ret = (\<lambda>i. 60), sendto_errno = (\<lambda>i. 0)\<rparr>"

definition kernel_busy :: kernel where
  "kernel_busy = \<lparr>socket_ret = 3, sendto_ret = (\<lambda>i. -1), sendto_errno = (\<lambda>i. EAGAIN)\<rparr>"

text \<open>A kernel whose first two sends fail, with \<^verbatim>\<open>EAGAIN\<close> and with \<^verbatim>\<open>EINTR\<close>.\<close>

definition kernel_flaky :: kernel where
  "kernel_flaky = \<lparr>socket_ret = 3, sendto_ret = (\<lambda>i. if i < 2 then -1 else 60),
                    sendto_errno = (\<lambda>i. if i = 0 then EAGAIN else EINTR)\<rparr>"

section \<open>Properties\<close>

subsection \<open>Alignment, integers in memory, stores and loads\<close>

lemma NETLINK_ALIGN_eq: "NETLINK_ALIGN n = (n + 3) div 4 * 4"
  by (simp add: NETLINK_ALIGN_def push_bit_eq_mult drop_bit_eq_div)

lemma NETLINK_ALIGN_mod4: "NETLINK_ALIGN n mod 4 = 0"
  by (simp add: NETLINK_ALIGN_eq)

lemma NETLINK_ALIGN_aligned: "n mod 4 = 0 \<Longrightarrow> NETLINK_ALIGN n = n"
  unfolding NETLINK_ALIGN_eq by presburger

lemma NETLINK_ALIGN_bounds: "n \<le> NETLINK_ALIGN n \<and> NETLINK_ALIGN n < n + 4"
  unfolding NETLINK_ALIGN_eq by presburger

lemma NETLINK_ALIGN_add: "a mod 4 = 0 \<Longrightarrow> NETLINK_ALIGN (a + b) = a + NETLINK_ALIGN b"
  unfolding NETLINK_ALIGN_eq by presburger

lemma and_not_mask_word: "(x AND NOT (mask n)) = push_bit n (drop_bit n x)" for x :: "'a::len word"
  by (rule bit_eqI) (auto simp: bit_simps)

lemma NETLINK_ALIGN_word:
  fixes w :: "32 word"
  assumes "unat w + 3 < 2 ^ 32"
  shows "unat ((w + 3) AND NOT 3) = NETLINK_ALIGN (unat w)"
proof -
  have m: "(3 :: 32 word) = mask 2" by (simp add: mask_eq_exp_minus_1)
  have a: "unat (w + 3) = unat w + 3"
    using assms by (simp add: unat_word_ariths)
  have "unat ((w + 3) AND NOT 3) = unat (push_bit 2 (drop_bit 2 (w + 3)))"
    unfolding m and_not_mask_word ..
  also have "\<dots> = take_bit 32 (push_bit 2 (drop_bit 2 (unat w + 3)))"
    by (simp add: unsigned_push_bit_eq unat_drop_bit_eq a)
  also have "\<dots> = push_bit 2 (drop_bit 2 (unat w + 3))"
  proof -
    have "push_bit 2 (drop_bit 2 (unat w + 3)) \<le> unat w + 3"
      by (simp add: push_bit_eq_mult drop_bit_eq_div)
    then show ?thesis using assms by (simp add: take_bit_nat_eq_self)
  qed
  finally show ?thesis by (simp add: NETLINK_ALIGN_def)
qed

lemma length_le_bytes [simp]: "length (le_bytes n v) = n"
  by (induction n arbitrary: v) auto

lemma le_val_le_bytes: "le_val (le_bytes n v) = v mod 256 ^ n"
proof (induction n arbitrary: v)
  case 0
  show ?case by simp
next
  case (Suc n)
  have "unat (of_nat (v mod 256) :: byte) = v mod 256"
    by (simp add: unat_of_nat)
  then show ?case
    using Suc by (simp add: mod_mult2_eq)
qed

lemma le_bytes_mod: "le_bytes n (v mod 256 ^ n) = le_bytes n v"
proof (induction n arbitrary: v)
  case 0
  show ?case by simp
next
  case (Suc n)
  have a: "v mod (256 * 256 ^ n) mod 256 = v mod 256"
    by (simp add: mod_mod_cancel)
  have b: "v mod (256 * 256 ^ n) div 256 = (v div 256) mod 256 ^ n"
    by (simp add: mod_mult2_eq)
  show ?case using Suc [of "v div 256"] by (simp add: a b)
qed

lemma le_val_append: "le_val (xs @ ys) = le_val xs + 256 ^ length xs * le_val ys"
  by (induction xs) (auto simp: algebra_simps)

lemma le_val_bound: "le_val bs < 256 ^ length bs"
proof (induction bs)
  case Nil
  show ?case by simp
next
  case (Cons b bs)
  have "unat b < 256" using unsigned_less [of b] by simp
  with Cons show ?case by simp
qed

lemma le_bytes_le_val: "le_bytes (length bs) (le_val bs) = bs"
proof (induction bs)
  case Nil
  show ?case by simp
next
  case (Cons b bs)
  have "unat b < 256" using unsigned_less [of b] by simp
  then show ?case using Cons by simp
qed

lemma length_host_bytes [simp]: "length (host_bytes plat n v) = n"
  by (simp add: host_bytes_def be_bytes_def split: endian.split)

lemma host_bytes_mod: "host_bytes plat n (v mod 256 ^ n) = host_bytes plat n v"
  by (simp add: host_bytes_def be_bytes_def le_bytes_mod split: endian.split)

lemma host_val_host_bytes: "host_val plat (host_bytes plat n v) = v mod 256 ^ n"
  by (simp add: host_val_def host_bytes_def be_bytes_def be_val_def le_val_le_bytes split: endian.split)

lemma host_val_host_bytes_small: "v < 256 ^ n \<Longrightarrow> host_val plat (host_bytes plat n v) = v"
  by (simp add: host_val_host_bytes)

lemma memcpy_at:
  "length pre = off \<Longrightarrow> length old = len \<Longrightarrow> len \<le> length src \<Longrightarrow>
   memcpy (pre @ old @ post) off src len = Some (pre @ take len src @ post)"
  by (simp add: memcpy_def)

lemma store_at:
  "length pre = off \<Longrightarrow> length old = n \<Longrightarrow>
   store plat n (pre @ old @ post) off v = Some (pre @ host_bytes plat n v @ post)"
  by (simp add: store_def memcpy_at host_bytes_mod)

lemma load_at:
  "length pre = off \<Longrightarrow> load plat n (pre @ host_bytes plat n v @ post) off = v mod 256 ^ n"
  by (simp add: load_def host_val_host_bytes)

lemma nlmsg_len_frame: "L < 2 ^ 32 \<Longrightarrow> nlmsg_len plat (wire_frame plat L body) = L"
  using load_at [of "[]" 0 plat 4 L] by (simp add: nlmsg_len_def wire_frame_def off_nlmsg_len_def)

lemma length_wire_frame: "length body + 4 = L \<Longrightarrow> L \<le> BUFF_SZ \<Longrightarrow> length (wire_frame plat L body) = BUFF_SZ"
  by (auto simp: wire_frame_def)

lemma bump_frame:
  assumes "L + d \<le> BUFF_SZ"
  shows "store plat 4 (wire_frame plat L body) off_nlmsg_len (L + d)
           = Some (wire_frame plat (L + d) (body @ replicate d 0))"
proof -
  have r: "replicate (BUFF_SZ - L) (0::byte) = replicate d 0 @ replicate (BUFF_SZ - (L + d)) 0"
    using assms by (simp add: replicate_add [symmetric])
  show ?thesis
    using store_at [of "[]" 0 "host_bytes plat 4 L" 4 plat "body @ replicate (BUFF_SZ - L) 0" "L + d"]
    by (simp add: wire_frame_def off_nlmsg_len_def r)
qed

lemma store_frame:
  assumes "length old = n" "off = 4 + length pre"
  shows "store plat n (wire_frame plat L (pre @ old @ post)) off v
           = Some (wire_frame plat L (pre @ host_bytes plat n v @ post))"
  using store_at [of "host_bytes plat 4 L @ pre" off old n plat "post @ replicate (BUFF_SZ - L) 0" v] assms
  by (simp add: wire_frame_def)

lemma length_wire_attr: "length (wire_attr plat ty payload) = NETLINK_ALIGN (4 + length payload)"
proof -
  have "4 + length payload \<le> NETLINK_ALIGN (4 + length payload)"
    using NETLINK_ALIGN_bounds [of "4 + length payload"] by simp
  then show ?thesis by (simp add: wire_attr_def)
qed

lemma add_attr_frame:
  assumes len: "length body + 4 = L" and al: "L mod 4 = 0"
    and fit: "L + NETLINK_ALIGN (4 + len) \<le> BUFF_SZ" and src: "len \<le> length data"
  shows "ipset_add_attr plat (wire_frame plat L body) ty len data
           = Some (wire_frame plat (L + NETLINK_ALIGN (4 + len)) (body @ wire_attr plat ty (take len data)))"
proof -
  let ?A = "NETLINK_ALIGN (4 + len)"
  let ?z = "\<lambda>k. replicate k (0::byte)"
  let ?pre = "host_bytes plat 4 L @ body"
  let ?rest = "?z (?A - (4 + len)) @ ?z (BUFF_SZ - (L + ?A))"
  have bnd: "4 + len \<le> ?A" using NETLINK_ALIGN_bounds [of "4 + len"] by simp
  have L32: "L < 2 ^ 32" and small: "4 + len < 2 ^ 16"
    using fit bnd by (simp_all add: BUFF_SZ_def)
  have lpre: "length ?pre = L" using len by simp
  have e: "BUFF_SZ - L = 2 + (2 + (len + ((?A - (4 + len)) + (BUFF_SZ - (L + ?A)))))"
    using fit bnd by arith
  have zs: "?z (BUFF_SZ - L) = ?z 2 @ ?z 2 @ ?z len @ ?rest"
    unfolding e by (simp only: replicate_add)
  have b0: "wire_frame plat L body = (?pre @ ?z 2) @ ?z 2 @ (?z len @ ?rest)"
    by (simp add: wire_frame_def zs)
  have attr: "NETLINK_ALIGN (nlmsg_len plat (wire_frame plat L body)) = L"
    using L32 al by (simp add: nlmsg_len_frame NETLINK_ALIGN_aligned)
  have pl: "(NETLINK_ALIGN sizeof_ipset_netlink_attr + len) mod 2 ^ 16 = 4 + len"
    using small by (simp add: sizeof_ipset_netlink_attr_def NETLINK_ALIGN_def)
  define b1 where "b1 = (?pre @ ?z 2) @ host_bytes plat 2 ty @ (?z len @ ?rest)"
  define b2 where "b2 = ?pre @ host_bytes plat 2 (4 + len) @ (host_bytes plat 2 ty @ ?z len @ ?rest)"
  define b3 where "b3 = host_bytes plat 4 L @ (body @ host_bytes plat 2 (4 + len) @ host_bytes plat 2 ty @ take len data @ ?rest)"
  have s1: "store plat 2 (wire_frame plat L body) (L + off_attr_type) ty = Some b1"
    unfolding b0 b1_def by (rule store_at) (use len in \<open>simp_all add: off_attr_type_def\<close>)
  have s2: "store plat 2 b1 (L + off_attr_len) (4 + len) = Some b2"
    using store_at [of ?pre "L + off_attr_len" "?z 2" 2 plat "host_bytes plat 2 ty @ ?z len @ ?rest" "4 + len"] len
    by (simp add: off_attr_len_def b1_def b2_def)
  have s3: "memcpy b2 (L + NETLINK_ALIGN sizeof_ipset_netlink_attr) data len = Some b3"
    using memcpy_at [of "?pre @ host_bytes plat 2 (4 + len) @ host_bytes plat 2 ty"
                        "L + NETLINK_ALIGN sizeof_ipset_netlink_attr" "?z len" len data ?rest] src len
    by (simp add: sizeof_ipset_netlink_attr_def NETLINK_ALIGN_def b2_def b3_def)
  have n3: "nlmsg_len plat b3 = L"
    using load_at [of "[]" 0 plat 4 L] L32 by (simp add: nlmsg_len_def off_nlmsg_len_def b3_def)
  have s4: "store plat 4 b3 off_nlmsg_len (L + ?A)
              = Some (wire_frame plat (L + ?A) (body @ wire_attr plat ty (take len data)))"
    using store_at [of "[]" 0 "host_bytes plat 4 L" 4 plat _ "L + ?A"] src
    by (simp add: off_nlmsg_len_def b3_def wire_frame_def wire_attr_def min_absorb2)
  show ?thesis
    unfolding ipset_add_attr_def Let_def attr pl
    by (simp only: s1 s2 s3 n3 s4 bind.bind_lunit)
qed

subsection \<open>The builder writes the layout\<close>

lemma replicate_split: "k \<le> m \<Longrightarrow> replicate m x = replicate k x @ replicate (m - k) x"
  by (simp add: replicate_add [symmetric])

lemma strlen_c_str: "length (c_str s) = strlen s + 1"
  by (simp add: c_str_def strlen_def)

lemma wire_timeout_length:
  "length (wire_timeout plat enable timeout) mod 4 = 0 \<and> length (wire_timeout plat enable timeout) \<le> 12"
  by (cases "data_model plat") (simp_all add: wire_timeout_def length_wire_attr NETLINK_ALIGN_eq)

lemma ipset_build_wire:
  assumes nm: "strlen ipsetname < IPSET_MAXNAMELEN" and a16: "addr_len \<le> 16" and src: "addr_len \<le> length addr"
  shows "ipset_build plat enable ipsetname addr addr_len timeout operate af
           = Some (wire_frame plat (4 + length (wire_body plat enable ipsetname (take addr_len addr) timeout operate af))
                     (wire_body plat enable ipsetname (take addr_len addr) timeout operate af))"
proof -
  let ?z = "\<lambda>k. replicate k (0::byte)"
  let ?ty = "operate OR push_bit 8 NFNL_SUBSYS_IPSET" and ?fl = "NLM_F_REQUEST OR NLM_F_REPLACE"
  let ?T = "host_bytes plat 2 ?ty" and ?F = "host_bytes plat 2 ?fl"
  let ?res = "htons plat 0"
  let ?tya = "(if af = AF_INET then IPSET_ATTR_IPADDR_IPV4 else IPSET_ATTR_IPADDR_IPV6) OR NLA_F_NET_BYTEORDER"
  let ?su = "sizeof_ulong (data_model plat)"
  \<comment> \<open>the two headers\<close>
  have z256: "?z BUFF_SZ = [] @ ?z 4 @ (?z 2 @ ?z 2 @ ?z 8) @ ?z (BUFF_SZ - 16)"
    by (simp add: BUFF_SZ_def replicate_add [symmetric])
  have s1: "store plat 4 (?z BUFF_SZ) off_nlmsg_len (NETLINK_ALIGN sizeof_nlmsghdr)
              = Some (wire_frame plat 16 ([] @ ?z 2 @ ?z 2 @ ?z 8))"
    unfolding z256 wire_frame_def
    using store_at [of "[]" off_nlmsg_len "?z 4" 4 plat "(?z 2 @ ?z 2 @ ?z 8) @ ?z (BUFF_SZ - 16)" 16]
    by (simp add: off_nlmsg_len_def sizeof_nlmsghdr_def NETLINK_ALIGN_def)
  have s2: "store plat 2 (wire_frame plat 16 ([] @ ?z 2 @ ?z 2 @ ?z 8)) off_nlmsg_type ?ty
              = Some (wire_frame plat 16 ([] @ ?T @ ?z 2 @ ?z 8))"
    by (rule store_frame) (simp_all add: off_nlmsg_type_def)
  have s3: "store plat 2 (wire_frame plat 16 ([] @ ?T @ ?z 2 @ ?z 8)) off_nlmsg_flags ?fl
              = Some (wire_frame plat 16 (?T @ ?F @ ?z 8))"
    using store_frame [of "?z 2" 2 off_nlmsg_flags ?T plat 16 "?z 8" ?fl]
    by (simp add: off_nlmsg_flags_def)
  have n3: "nlmsg_len plat (wire_frame plat 16 (?T @ ?F @ ?z 8)) = 16"
    by (rule nlmsg_len_frame) simp
  have z4: "?z 4 = ?z 1 @ ?z 1 @ ?z 2"
    by (simp add: numeral_eq_Suc)
  have s4: "store plat 4 (wire_frame plat 16 (?T @ ?F @ ?z 8)) off_nlmsg_len (16 + NETLINK_ALIGN sizeof_ipset_netlink_msg)
              = Some (wire_frame plat 20 ((?T @ ?F @ ?z 8) @ ?z 1 @ ?z 1 @ ?z 2))"
    using bump_frame [of 16 4 plat "?T @ ?F @ ?z 8"]
    by (simp add: sizeof_ipset_netlink_msg_def NETLINK_ALIGN_def BUFF_SZ_def z4)
  have s5: "store plat 1 (wire_frame plat 20 ((?T @ ?F @ ?z 8) @ ?z 1 @ ?z 1 @ ?z 2)) (16 + off_msg_family) af
              = Some (wire_frame plat 20 ((?T @ ?F @ ?z 8) @ host_bytes plat 1 af @ ?z 1 @ ?z 2))"
    by (rule store_frame) (simp_all add: off_msg_family_def)
  have s6: "store plat 1 (wire_frame plat 20 ((?T @ ?F @ ?z 8) @ host_bytes plat 1 af @ ?z 1 @ ?z 2)) (16 + off_msg_version) NFNETLINK_V0
              = Some (wire_frame plat 20 ((?T @ ?F @ ?z 8 @ host_bytes plat 1 af) @ host_bytes plat 1 NFNETLINK_V0 @ ?z 2))"
    using store_frame [of "?z 1" 1 "16 + off_msg_version" "?T @ ?F @ ?z 8 @ host_bytes plat 1 af" plat 20 "?z 2" NFNETLINK_V0]
    by (simp add: off_msg_version_def)
  define H where "H = wire_headers plat operate af"
  have lH: "length H = 16" by (simp add: H_def wire_headers_def)
  have s7: "store plat 2 (wire_frame plat 20 ((?T @ ?F @ ?z 8 @ host_bytes plat 1 af) @ host_bytes plat 1 NFNETLINK_V0 @ ?z 2)) (16 + off_msg_res_id) ?res
              = Some (wire_frame plat 20 H)"
    using store_frame [of "?z 2" 2 "16 + off_msg_res_id" "?T @ ?F @ ?z 8 @ host_bytes plat 1 af @ host_bytes plat 1 NFNETLINK_V0" plat 20 "[]" ?res]
    by (simp add: off_msg_res_id_def H_def wire_headers_def)
  \<comment> \<open>PROTOCOL and SETNAME\<close>
  define B8 where "B8 = H @ wire_attr plat IPSET_ATTR_PROTOCOL (host_bytes plat 1 IPSET_PROTOCOL)"
  have lB8: "length B8 + 4 = 28" by (simp add: B8_def lH length_wire_attr NETLINK_ALIGN_def)
  have a8: "ipset_add_attr plat (wire_frame plat 20 H) IPSET_ATTR_PROTOCOL 1 (host_bytes plat 1 IPSET_PROTOCOL)
              = Some (wire_frame plat 28 B8)"
    using add_attr_frame [of H 20 1 "host_bytes plat 1 IPSET_PROTOCOL" plat IPSET_ATTR_PROTOCOL]
    by (simp add: lH B8_def NETLINK_ALIGN_def BUFF_SZ_def)
  define n where "n = strlen ipsetname"
  define S where "S = NETLINK_ALIGN (4 + (n + 1))"
  have n32: "n < 32" using nm by (simp add: n_def IPSET_MAXNAMELEN_def)
  have S4: "S mod 4 = 0" and S36: "S \<le> 36" and S8: "8 \<le> S"
    using n32 unfolding S_def NETLINK_ALIGN_eq by presburger+
  define L9 where "L9 = 28 + S"
  define B9 where "B9 = B8 @ wire_attr plat IPSET_ATTR_SETNAME (c_str ipsetname)"
  have lB9: "length B9 + 4 = L9"
    using lB8 by (simp add: B9_def L9_def S_def n_def length_wire_attr strlen_c_str)
  have L9_4: "L9 mod 4 = 0" and L9_64: "L9 \<le> 64"
    using S4 S36 unfolding L9_def by presburger+
  have a9: "ipset_add_attr plat (wire_frame plat 28 B8) IPSET_ATTR_SETNAME (strlen ipsetname + 1) (c_str ipsetname)
              = Some (wire_frame plat L9 B9)"
    using add_attr_frame [of B8 28 "strlen ipsetname + 1" "c_str ipsetname" plat IPSET_ATTR_SETNAME] lB8 S36
    by (simp add: B9_def L9_def S_def n_def BUFF_SZ_def strlen_c_str)
  have n9: "nlmsg_len plat (wire_frame plat L9 B9) = L9"
    using L9_64 by (intro nlmsg_len_frame) simp
  have al9: "NETLINK_ALIGN L9 = L9" by (rule NETLINK_ALIGN_aligned [OF L9_4])
  \<comment> \<open>the two nested headers\<close>
  define T0 where "T0 = host_bytes plat 2 (NLA_F_NESTED OR IPSET_ATTR_DATA)"
  define T1 where "T1 = host_bytes plat 2 (NLA_F_NESTED OR IPSET_ATTR_IP)"
  define L10 where "L10 = L9 + 4"
  have s10: "store plat 4 (wire_frame plat L9 B9) off_nlmsg_len (L9 + NETLINK_ALIGN sizeof_ipset_netlink_attr)
               = Some (wire_frame plat L10 (B9 @ ?z 2 @ ?z 2))"
    using bump_frame [of L9 4 plat B9] L9_64
    by (simp add: sizeof_ipset_netlink_attr_def NETLINK_ALIGN_def BUFF_SZ_def L10_def replicate_add [symmetric])
  have s11: "store plat 2 (wire_frame plat L10 (B9 @ ?z 2 @ ?z 2)) (L9 + off_attr_type) (NLA_F_NESTED OR IPSET_ATTR_DATA)
               = Some (wire_frame plat L10 (B9 @ ?z 2 @ T0))"
    using store_frame [of "?z 2" 2 "L9 + off_attr_type" "B9 @ ?z 2" plat L10 "[]" "NLA_F_NESTED OR IPSET_ATTR_DATA"] lB9
    by (simp add: off_attr_type_def T0_def)
  have L10_4: "L10 mod 4 = 0" and L10_68: "L10 \<le> 68"
    using L9_4 L9_64 unfolding L10_def by presburger+
  have n11: "nlmsg_len plat (wire_frame plat L10 (B9 @ ?z 2 @ T0)) = L10"
    using L10_68 by (intro nlmsg_len_frame) simp
  have al10: "NETLINK_ALIGN L10 = L10" by (rule NETLINK_ALIGN_aligned [OF L10_4])
  define L12 where "L12 = L10 + 4"
  have s12: "store plat 4 (wire_frame plat L10 (B9 @ ?z 2 @ T0)) off_nlmsg_len (L10 + NETLINK_ALIGN sizeof_ipset_netlink_attr)
               = Some (wire_frame plat L12 ((B9 @ ?z 2 @ T0) @ ?z 2 @ ?z 2))"
    using bump_frame [of L10 4 plat "B9 @ ?z 2 @ T0"] L10_68
    by (simp add: sizeof_ipset_netlink_attr_def NETLINK_ALIGN_def BUFF_SZ_def L12_def replicate_add [symmetric])
  define B13 where "B13 = B9 @ ?z 2 @ T0 @ ?z 2 @ T1"
  have lB13: "length B13 + 4 = L12"
    using lB9 by (simp add: B13_def L12_def L10_def T0_def T1_def)
  have s13: "store plat 2 (wire_frame plat L12 ((B9 @ ?z 2 @ T0) @ ?z 2 @ ?z 2)) (L10 + off_attr_type) (NLA_F_NESTED OR IPSET_ATTR_IP)
               = Some (wire_frame plat L12 B13)"
    using store_frame [of "?z 2" 2 "L10 + off_attr_type" "(B9 @ ?z 2 @ T0) @ ?z 2" plat L12 "[]" "NLA_F_NESTED OR IPSET_ATTR_IP"] lB9
    by (simp add: off_attr_type_def T0_def T1_def B13_def L10_def)
  \<comment> \<open>the address\<close>
  define WA where "WA = wire_attr plat ?tya (take addr_len addr)"
  define A where "A = NETLINK_ALIGN (4 + addr_len)"
  have lWA: "length WA = A" using src by (simp add: WA_def A_def length_wire_attr min_absorb2)
  have A4: "A mod 4 = 0" and A20: "A \<le> 20"
    using a16 unfolding A_def NETLINK_ALIGN_eq by presburger+
  define L14 where "L14 = L12 + A"
  have L12_4: "L12 mod 4 = 0" and L12_72: "L12 \<le> 72"
    using L10_4 L10_68 unfolding L12_def by presburger+
  have L14_4: "L14 mod 4 = 0" and L14_92: "L14 \<le> 92"
    using L12_4 L12_72 A4 A20 unfolding L14_def by presburger+
  have a14: "ipset_add_attr plat (wire_frame plat L12 B13) ?tya addr_len addr
               = Some (wire_frame plat L14 (B13 @ WA))"
    using add_attr_frame [of B13 L12 addr_len addr plat ?tya] lB13 L12_4 L12_72 A20 src
    by (simp add: WA_def A_def L14_def BUFF_SZ_def)
  have n14: "nlmsg_len plat (wire_frame plat L14 (B13 @ WA)) = L14"
    using L14_92 by (intro nlmsg_len_frame) simp
  have al14: "NETLINK_ALIGN L14 = L14" by (rule NETLINK_ALIGN_aligned [OF L14_4])
  define B15 where "B15 = B9 @ ?z 2 @ T0 @ host_bytes plat 2 (L14 - L10) @ T1 @ WA"
  have lB15: "length B15 + 4 = L14"
    using lB9 by (simp add: B15_def L14_def L12_def L10_def T0_def T1_def lWA)
  have s15: "store plat 2 (wire_frame plat L14 (B13 @ WA)) (L10 + off_attr_len) (L14 - L10)
               = Some (wire_frame plat L14 B15)"
    using store_frame [of "?z 2" 2 "L10 + off_attr_len" "B9 @ ?z 2 @ T0" plat L14 "T1 @ WA" "L14 - L10"] lB9
    by (simp add: off_attr_len_def T0_def B13_def B15_def L10_def)
  \<comment> \<open>the timeout\<close>
  define WT where "WT = wire_timeout plat enable timeout"
  define L16 where "L16 = L14 + length WT"
  have WT4: "length WT mod 4 = 0" and WT12: "length WT \<le> 12"
    using wire_timeout_length [of plat enable timeout] by (simp_all add: WT_def)
  have L16_4: "L16 mod 4 = 0" and L16_104: "L16 \<le> 104"
    using L14_4 L14_92 WT4 WT12 unfolding L16_def by presburger+
  have s16: "(if 0 < timeout \<and> ipset_support_timeout enable ipsetname = 0
              then ipset_add_attr plat (wire_frame plat L14 B15) (IPSET_ATTR_TIMEOUT OR NLA_F_NET_BYTEORDER) ?su
                     (host_bytes plat ?su (htonl plat timeout))
              else Some (wire_frame plat L14 B15))
               = Some (wire_frame plat L16 (B15 @ WT))"
  proof (cases "0 < timeout \<and> enable \<noteq> 0")
    case True
    have su: "?su \<le> 8" by (cases "data_model plat") simp_all
    have "NETLINK_ALIGN (4 + ?su) \<le> 12"
      using su unfolding NETLINK_ALIGN_eq by presburger
    then show ?thesis
      using True add_attr_frame [of B15 L14 ?su "host_bytes plat ?su (htonl plat timeout)" plat
                                    "IPSET_ATTR_TIMEOUT OR NLA_F_NET_BYTEORDER"] lB15 L14_4 L14_92
      by (simp add: ipset_support_timeout_def WT_def wire_timeout_def L16_def length_wire_attr BUFF_SZ_def)
  next
    case False
    then show ?thesis
      by (auto simp: ipset_support_timeout_def WT_def wire_timeout_def L16_def)
  qed
  have n16: "nlmsg_len plat (wire_frame plat L16 (B15 @ WT)) = L16"
    using L16_104 by (intro nlmsg_len_frame) simp
  have al16: "NETLINK_ALIGN L16 = L16" by (rule NETLINK_ALIGN_aligned [OF L16_4])
  define B17 where "B17 = B9 @ host_bytes plat 2 (L16 - L9) @ T0 @ host_bytes plat 2 (L14 - L10) @ T1 @ WA @ WT"
  have s17: "store plat 2 (wire_frame plat L16 (B15 @ WT)) (L9 + off_attr_len) (L16 - L9)
               = Some (wire_frame plat L16 B17)"
    using store_frame [of "?z 2" 2 "L9 + off_attr_len" B9 plat L16 "T0 @ host_bytes plat 2 (L14 - L10) @ T1 @ WA @ WT" "L16 - L9"] lB9
    by (simp add: off_attr_len_def B15_def B17_def)
  \<comment> \<open>the result is the wire form\<close>
  have ip: "host_bytes plat 2 (L14 - L10) @ T1 @ WA = wire_ip plat (take addr_len addr) af"
    by (simp add: wire_ip_def wire_nested_def T1_def WA_def [symmetric] lWA L14_def L12_def)
  have data: "host_bytes plat 2 (L16 - L9) @ T0 @ host_bytes plat 2 (L14 - L10) @ T1 @ WA @ WT
                = wire_nested plat IPSET_ATTR_DATA (wire_ip plat (take addr_len addr) af @ wire_timeout plat enable timeout)"
    using ip [symmetric]
    by (simp add: wire_nested_def T0_def T1_def WT_def lWA L16_def L14_def L12_def L10_def)
  have body: "B17 = wire_body plat enable ipsetname (take addr_len addr) timeout operate af"
    unfolding B17_def data by (simp add: wire_body_def wire_attrs_def B9_def B8_def H_def)
  have lB17: "4 + length B17 = L16"
    using lB9 by (simp add: B17_def L16_def L14_def L12_def L10_def T0_def T1_def lWA)
  have fin: "wire_frame plat L16 B17
               = wire_frame plat (4 + length (wire_body plat enable ipsetname (take addr_len addr) timeout operate af))
                   (wire_body plat enable ipsetname (take addr_len addr) timeout operate af)"
    using lB17 by (simp add: body)
  show ?thesis
    unfolding ipset_build_def Let_def
    by (simp only: s1 s2 s3 n3 s4 s5 s6 s7 a8 a9 n9 al9 s10 s11 n11 al10 s12 s13 a14 n14 al14 s15 s16 n16 al16 s17 fin
          bind.bind_lunit)
qed

subsection \<open>Walking the layout\<close>

declare parse_attrs.simps [simp del]

lemma parse_attrs_Nil: "parse_attrs plat off [] = Some []"
  by (subst parse_attrs.simps) simp

lemma load_wire_attr_len:
  "length payload + 4 < 2 ^ 16 \<Longrightarrow> load plat 2 (wire_attr plat ty payload @ rest) 0 = 4 + length payload"
  using load_at [of "[]" 0 plat 2 "4 + length payload"] by (simp add: wire_attr_def)

lemma load_wire_attr_type:
  "ty < 2 ^ 16 \<Longrightarrow> load plat 2 (wire_attr plat ty payload @ rest) 2 = ty"
  using load_at [of "host_bytes plat 2 (4 + length payload)" 2 plat 2 ty] by (simp add: wire_attr_def)

lemma parse_flat:
  assumes flat: "ty AND NLA_F_NESTED = 0" and ty: "ty < 2 ^ 16" and len: "length payload + 4 < 2 ^ 16"
  shows "parse_attrs plat off (wire_attr plat ty payload @ rest)
           = map_option ((#) (NLAttr off ty payload []))
               (parse_attrs plat (off + NETLINK_ALIGN (4 + length payload)) rest)"
proof -
  define bs where "bs = wire_attr plat ty payload @ rest"
  have l: "load plat 2 bs 0 = 4 + length payload"
    unfolding bs_def by (rule load_wire_attr_len [OF len])
  have t: "load plat 2 bs 2 = ty"
    unfolding bs_def by (rule load_wire_attr_type [OF ty])
  have lw: "length (wire_attr plat ty payload) = NETLINK_ALIGN (4 + length payload)"
    by (rule length_wire_attr)
  have ge: "4 + length payload \<le> NETLINK_ALIGN (4 + length payload)"
    using NETLINK_ALIGN_bounds [of "4 + length payload"] by simp
  have big: "\<not> length bs < 4" "\<not> length bs < 4 + length payload"
    using lw ge by (simp_all add: bs_def)
  have ne: "bs \<noteq> []" using big by auto
  have pay: "take (length payload) (drop 4 bs) = payload"
    by (simp add: bs_def wire_attr_def)
  have dr: "drop (NETLINK_ALIGN (4 + length payload)) bs = rest"
    using lw by (simp add: bs_def)
  show ?thesis
    unfolding bs_def [symmetric]
    by (subst parse_attrs.simps) (simp add: l t flat ne big pay dr split: option.split)
qed

lemma parse_nested:
  assumes ty: "NLA_F_NESTED OR ty < 2 ^ 16" and nst: "(NLA_F_NESTED OR ty) AND NLA_F_NESTED \<noteq> 0"
    and len: "length kids + 4 < 2 ^ 16" and al: "length kids mod 4 = 0"
  shows "parse_attrs plat off (wire_nested plat ty kids @ rest)
           = (case parse_attrs plat (off + 4) kids of
                None \<Rightarrow> None
              | Some ks \<Rightarrow> map_option ((#) (NLAttr off (NLA_F_NESTED OR ty) kids ks))
                            (parse_attrs plat (off + (4 + length kids)) rest))"
proof -
  define bs where "bs = wire_nested plat ty kids @ rest"
  have l: "load plat 2 bs 0 = 4 + length kids"
    using load_at [of "[]" 0 plat 2 "4 + length kids"] len by (simp add: bs_def wire_nested_def)
  have t: "load plat 2 bs 2 = NLA_F_NESTED OR ty"
    using load_at [of "host_bytes plat 2 (4 + length kids)" 2 plat 2 "NLA_F_NESTED OR ty"] ty
    by (simp add: bs_def wire_nested_def)
  have lw: "length (wire_nested plat ty kids) = 4 + length kids" by (simp add: wire_nested_def)
  have na: "NETLINK_ALIGN (4 + length kids) = 4 + length kids"
    using al by (intro NETLINK_ALIGN_aligned) presburger
  have big: "\<not> length bs < 4" "\<not> length bs < 4 + length kids" using lw by (simp_all add: bs_def)
  have ne: "bs \<noteq> []" using big by auto
  have pay: "take (length kids) (drop 4 bs) = kids" by (simp add: bs_def wire_nested_def)
  have dr: "drop (4 + length kids) bs = rest" using lw by (simp add: bs_def)
  show ?thesis
    unfolding bs_def [symmetric]
    by (subst parse_attrs.simps) (simp add: l t nst ne big pay dr na split: option.split)
qed

subsection \<open>The attribute tree of a built message\<close>

lemma flag_facts:
  "IPSET_ATTR_PROTOCOL AND NLA_F_NESTED = 0"
  "IPSET_ATTR_SETNAME AND NLA_F_NESTED = 0"
  "(IPSET_ATTR_TIMEOUT OR NLA_F_NET_BYTEORDER) AND NLA_F_NESTED = 0"
  "((if af = AF_INET then IPSET_ATTR_IPADDR_IPV4 else IPSET_ATTR_IPADDR_IPV6) OR NLA_F_NET_BYTEORDER) AND NLA_F_NESTED = 0"
  "(NLA_F_NESTED OR IPSET_ATTR_DATA) AND NLA_F_NESTED \<noteq> 0"
  "(NLA_F_NESTED OR IPSET_ATTR_IP) AND NLA_F_NESTED \<noteq> 0"
  by (simp_all add: IPSET_ATTR_PROTOCOL_def IPSET_ATTR_SETNAME_def IPSET_ATTR_TIMEOUT_def IPSET_ATTR_DATA_def
        IPSET_ATTR_IP_def IPSET_ATTR_IPADDR_IPV4_def IPSET_ATTR_IPADDR_IPV6_def NLA_F_NESTED_def NLA_F_NET_BYTEORDER_def)

lemma type_values:
  "IPSET_ATTR_PROTOCOL = 1" "IPSET_ATTR_SETNAME = 2"
  "IPSET_ATTR_TIMEOUT OR NLA_F_NET_BYTEORDER = 16390"
  "IPSET_ATTR_IPADDR_IPV4 OR NLA_F_NET_BYTEORDER = 16385"
  "IPSET_ATTR_IPADDR_IPV6 OR NLA_F_NET_BYTEORDER = 16386"
  "NLA_F_NESTED OR IPSET_ATTR_DATA = 32775"
  "NLA_F_NESTED OR IPSET_ATTR_IP = 32769"
  by (simp_all add: IPSET_ATTR_PROTOCOL_def IPSET_ATTR_SETNAME_def IPSET_ATTR_TIMEOUT_def IPSET_ATTR_DATA_def
        IPSET_ATTR_IP_def IPSET_ATTR_IPADDR_IPV4_def IPSET_ATTR_IPADDR_IPV6_def NLA_F_NESTED_def NLA_F_NET_BYTEORDER_def)

lemma type_bounds:
  "IPSET_ATTR_PROTOCOL < 65536" "IPSET_ATTR_SETNAME < 65536"
  "IPSET_ATTR_TIMEOUT OR NLA_F_NET_BYTEORDER < 65536"
  "(if af = AF_INET then IPSET_ATTR_IPADDR_IPV4 else IPSET_ATTR_IPADDR_IPV6) OR NLA_F_NET_BYTEORDER < 65536"
  "NLA_F_NESTED OR IPSET_ATTR_DATA < 65536"
  "NLA_F_NESTED OR IPSET_ATTR_IP < 65536"
  by (simp_all add: type_values)

lemma parse_wire_timeout:
  "parse_attrs plat off (wire_timeout plat enable timeout) = Some (wire_timeout_tree plat enable timeout off)"
proof (cases "timeout > 0 \<and> enable \<noteq> 0")
  case True
  have su: "sizeof_ulong (data_model plat) \<le> 8" by (cases "data_model plat") simp_all
  show ?thesis
    using True su
      parse_flat [of "IPSET_ATTR_TIMEOUT OR NLA_F_NET_BYTEORDER"
                     "host_bytes plat (sizeof_ulong (data_model plat)) (htonl plat timeout)" plat off "[]"]
    by (simp add: wire_timeout_def wire_timeout_tree_def flag_facts parse_attrs_Nil type_bounds)
next
  case False
  then show ?thesis by (auto simp: wire_timeout_def wire_timeout_tree_def parse_attrs_Nil)
qed

lemma parse_wire_attrs:
  assumes nm: "strlen ipsetname < IPSET_MAXNAMELEN" and a16: "length addr \<le> 16"
  shows "parse_attrs plat 20 (wire_attrs plat enable ipsetname addr timeout af)
           = Some (wire_tree plat enable ipsetname addr timeout af)"
proof -
  let ?tya = "(if af = AF_INET then IPSET_ATTR_IPADDR_IPV4 else IPSET_ATTR_IPADDR_IPV6) OR NLA_F_NET_BYTEORDER"
  define base where "base = 28 + NETLINK_ALIGN (4 + (strlen ipsetname + 1))"
  define WA where "WA = wire_attr plat ?tya addr"
  define WT where "WT = wire_timeout plat enable timeout"
  define kids where "kids = wire_ip plat addr af @ WT"
  have n32: "strlen ipsetname < 32" using nm by (simp add: IPSET_MAXNAMELEN_def)
  have tya16: "?tya < 65536" by (rule type_bounds)
  have lWA: "length WA = NETLINK_ALIGN (4 + length addr)" by (simp add: WA_def length_wire_attr)
  have WA4: "length WA mod 4 = 0" and WA20: "length WA \<le> 20"
    using a16 unfolding lWA NETLINK_ALIGN_eq by presburger+
  have WT4: "length WT mod 4 = 0" and WT12: "length WT \<le> 12"
    using wire_timeout_length [of plat enable timeout] by (simp_all add: WT_def)
  have wip: "wire_ip plat addr af = wire_nested plat IPSET_ATTR_IP WA"
    by (simp add: wire_ip_def WA_def)
  have lip: "length (wire_ip plat addr af) = 4 + length WA"
    by (simp add: wip wire_nested_def)
  have lk4: "length kids mod 4 = 0" and lk: "length kids \<le> 36"
    using WA4 WA20 WT4 WT12 unfolding kids_def length_append lip by presburger+
  have p_addr: "parse_attrs plat (base + 8) WA = Some [NLAttr (base + 8) ?tya addr []]"
    using parse_flat [of ?tya addr plat "base + 8" "[]"] a16 tya16
    by (simp add: WA_def flag_facts parse_attrs_Nil)
  have p_tmo: "parse_attrs plat (base + (8 + length WA)) WT
                 = Some (wire_timeout_tree plat enable timeout (base + 8 + NETLINK_ALIGN (4 + length addr)))"
    by (simp add: WT_def parse_wire_timeout lWA add.assoc)
  have p_ip: "parse_attrs plat (base + 4) kids
                = Some (NLAttr (base + 4) (NLA_F_NESTED OR IPSET_ATTR_IP) WA [NLAttr (base + 8) ?tya addr []]
                        # wire_timeout_tree plat enable timeout (base + 8 + NETLINK_ALIGN (4 + length addr)))"
    using parse_nested [of IPSET_ATTR_IP WA plat "base + 4" WT] WA4 WA20 p_addr p_tmo
    by (simp add: kids_def wip flag_facts type_bounds add.assoc)
  have p_data: "parse_attrs plat base (wire_nested plat IPSET_ATTR_DATA kids)
                  = Some [NLAttr base (NLA_F_NESTED OR IPSET_ATTR_DATA) kids
                            (NLAttr (base + 4) (NLA_F_NESTED OR IPSET_ATTR_IP) WA [NLAttr (base + 8) ?tya addr []]
                             # wire_timeout_tree plat enable timeout (base + 8 + NETLINK_ALIGN (4 + length addr)))]"
    using parse_nested [of IPSET_ATTR_DATA kids plat base "[]"] lk4 lk p_ip
    by (simp add: flag_facts type_bounds parse_attrs_Nil)
  have p_name: "parse_attrs plat 28 (wire_attr plat IPSET_ATTR_SETNAME (c_str ipsetname) @ wire_nested plat IPSET_ATTR_DATA kids)
                  = map_option ((#) (NLAttr 28 IPSET_ATTR_SETNAME (c_str ipsetname) []))
                      (parse_attrs plat base (wire_nested plat IPSET_ATTR_DATA kids))"
    using parse_flat [of IPSET_ATTR_SETNAME "c_str ipsetname" plat 28 "wire_nested plat IPSET_ATTR_DATA kids"] n32
    by (simp add: flag_facts type_bounds strlen_c_str base_def add.commute)
  have p_proto: "parse_attrs plat 20 (wire_attrs plat enable ipsetname addr timeout af)
                   = map_option ((#) (NLAttr 20 IPSET_ATTR_PROTOCOL (host_bytes plat 1 IPSET_PROTOCOL) []))
                       (parse_attrs plat 28 (wire_attr plat IPSET_ATTR_SETNAME (c_str ipsetname) @ wire_nested plat IPSET_ATTR_DATA kids))"
    using parse_flat [of IPSET_ATTR_PROTOCOL "host_bytes plat 1 IPSET_PROTOCOL" plat 20
                         "wire_attr plat IPSET_ATTR_SETNAME (c_str ipsetname) @ wire_nested plat IPSET_ATTR_DATA kids"]
    by (simp add: wire_attrs_def kids_def WT_def flag_facts type_bounds NETLINK_ALIGN_def)
  have dr: "drop 4 (wire_ip plat addr af) = WA" by (simp add: wip wire_nested_def)
  show ?thesis
    unfolding p_proto p_name p_data
    by (simp add: wire_tree_def Let_def base_def kids_def WA_def [symmetric] WT_def dr)
qed

subsection \<open>The message as a whole; the send loop\<close>

lemma length_wire_body:
  "length (wire_body plat enable ipsetname addr timeout operate af)
     = 16 + (8 + (NETLINK_ALIGN (4 + (strlen ipsetname + 1))
          + (8 + (NETLINK_ALIGN (4 + length addr) + length (wire_timeout plat enable timeout)))))"
  by (simp add: wire_body_def wire_headers_def wire_attrs_def wire_nested_def wire_ip_def
        length_wire_attr strlen_c_str NETLINK_ALIGN_def [of 5])

lemma wire_body_bounds:
  assumes nm: "strlen ipsetname < IPSET_MAXNAMELEN" and a16: "length addr \<le> 16"
  shows "length (wire_body plat enable ipsetname addr timeout operate af) mod 4 = 0"
    and "length (wire_body plat enable ipsetname addr timeout operate af) \<le> 100"
    and "40 \<le> length (wire_body plat enable ipsetname addr timeout operate af)"
proof -
  have n32: "strlen ipsetname < 32" using nm by (simp add: IPSET_MAXNAMELEN_def)
  have T: "length (wire_timeout plat enable timeout) mod 4 = 0" "length (wire_timeout plat enable timeout) \<le> 12"
    using wire_timeout_length [of plat enable timeout] by simp_all
  show "length (wire_body plat enable ipsetname addr timeout operate af) mod 4 = 0"
    and "length (wire_body plat enable ipsetname addr timeout operate af) \<le> 100"
    and "40 \<le> length (wire_body plat enable ipsetname addr timeout operate af)"
    using n32 a16 T unfolding length_wire_body NETLINK_ALIGN_eq by presburger+
qed

lemma take_wire_frame:
  "length body + 4 = L \<Longrightarrow> take L (wire_frame plat L body) = host_bytes plat 4 L @ body"
  by (auto simp: wire_frame_def)

lemma msg_attrs_frame:
  assumes nm: "strlen ipsetname < IPSET_MAXNAMELEN" and a16: "length addr \<le> 16"
  shows "msg_attrs plat (wire_frame plat (4 + length (wire_body plat enable ipsetname addr timeout operate af))
                           (wire_body plat enable ipsetname addr timeout operate af))
           = Some (wire_tree plat enable ipsetname addr timeout af)"
proof -
  define body where "body = wire_body plat enable ipsetname addr timeout operate af"
  define L where "L = 4 + length body"
  have b: "length body \<le> 100" "40 \<le> length body"
    using wire_body_bounds [OF nm a16] by (simp_all add: body_def)
  have L32: "L < 2 ^ 32" using b by (simp add: L_def)
  have nl: "nlmsg_len plat (wire_frame plat L body) = L" by (rule nlmsg_len_frame [OF L32])
  have len: "length (wire_frame plat L body) = BUFF_SZ"
    using b by (intro length_wire_frame) (simp_all add: L_def BUFF_SZ_def)
  have tk: "take L (wire_frame plat L body) = host_bytes plat 4 L @ body"
    by (rule take_wire_frame) (simp add: L_def)
  have dr: "drop 16 body = wire_attrs plat enable ipsetname addr timeout af"
    by (simp add: body_def wire_body_def wire_headers_def)
  have hd: "NETLINK_ALIGN sizeof_nlmsghdr + NETLINK_ALIGN sizeof_ipset_netlink_msg = 20"
    by (simp add: NETLINK_ALIGN_def sizeof_nlmsghdr_def sizeof_ipset_netlink_msg_def)
  have L20: "\<not> L < 20" "\<not> BUFF_SZ < L" using b by (simp_all add: L_def BUFF_SZ_def)
  show ?thesis
    unfolding body_def [symmetric] L_def [symmetric]
    by (simp add: msg_attrs_def hd nl len tk dr parse_wire_attrs [OF nm a16] L20)
qed

lemma sendto_loop_success:
  "sendto_ret k i \<ge> 0 \<Longrightarrow>
   sendto_loop k msg i w = Some (sendto_ret k i, w\<lparr>events := events w @ [Sendto_call (ipset_fd w) msg]\<rparr>)"
  by (subst sendto_loop.simps) (simp add: Let_def)

lemma sendto_loop_retry:
  "sendto_ret k i < 0 \<Longrightarrow>
   sendto_loop k msg i w
     = sendto_loop k msg (Suc i) (w\<lparr>events := events w @ failed_attempt k (ipset_fd w) msg i\<rparr>)"
  by (subst sendto_loop.simps) (simp add: Let_def failed_attempt_def transient_def)

lemma sendto_loop_first_success:
  assumes "\<forall>j<n. sendto_ret k (i + j) < 0" and "sendto_ret k (i + n) \<ge> 0"
  shows "sendto_loop k msg i w
           = Some (sendto_ret k (i + n),
                   w\<lparr>events := events w
                        @ concat (map (\<lambda>j. failed_attempt k (ipset_fd w) msg (i + j)) [0..<n])
                        @ [Sendto_call (ipset_fd w) msg]\<rparr>)"
  using assms
proof (induction n arbitrary: i w)
  case 0
  then show ?case by (simp add: sendto_loop_success)
next
  case (Suc n)
  have f0: "sendto_ret k i < 0" using Suc.prems(1) [rule_format, of 0] by simp
  have rest: "\<forall>j<n. sendto_ret k (Suc i + j) < 0"
    using Suc.prems(1) by (metis Suc_less_eq add_Suc_shift)
  have last: "sendto_ret k (Suc i + n) \<ge> 0" using Suc.prems(2) by simp
  have m: "map (\<lambda>j. failed_attempt k fd msg (i + j)) [0..<Suc n]
             = failed_attempt k fd msg i # map (\<lambda>j. failed_attempt k fd msg (Suc i + j)) [0..<n]" for fd
    by (simp add: upt_conv_Cons map_Suc_upt [symmetric] del: upt_Suc)
  show ?case
    unfolding sendto_loop_retry [OF f0] Suc.IH [OF rest last] m
    by simp
qed

lemma sendto_loop_returns:
  assumes "sendto_loop k msg i w = Some y"
  shows "\<exists>j. sendto_ret k (i + j) \<ge> 0"
proof (rule sendto_loop.raw_induct [where P = "\<lambda>k msg i w y. \<exists>j. sendto_ret k (i + j) \<ge> 0", OF _ assms])
  fix f :: "kernel \<Rightarrow> byte list \<Rightarrow> nat \<Rightarrow> world \<Rightarrow> (int \<times> world) option"
    and k msg i w y
  assume IH: "\<And>k msg i w y. f k msg i w = Some y \<Longrightarrow> \<exists>j. sendto_ret k (i + j) \<ge> 0"
    and body: "(let rc = sendto_ret k i;
                    w1 = w\<lparr>events := events w @ [Sendto_call (ipset_fd w) msg]\<rparr>
                in if 0 \<le> rc then Some (rc, w1)
                   else if sendto_errno k i = EAGAIN \<or> sendto_errno k i = EWOULDBLOCK \<or> sendto_errno k i = EINTR
                   then f k msg (Suc i) (w1\<lparr>events := events w1 @ [Nanosleep_call 0 10000]\<rparr>)
                   else f k msg (Suc i) w1) = Some y"
  show "\<exists>j. sendto_ret k (i + j) \<ge> 0"
  proof (cases "sendto_ret k i \<ge> 0")
    case True
    then show ?thesis by (intro exI [of _ 0]) simp
  next
    case False
    with body obtain w' where "f k msg (Suc i) w' = Some y"
      by (auto simp: Let_def split: if_splits)
    from IH [OF this] obtain j where "sendto_ret k (Suc i + j) \<ge> 0" by blast
    then show ?thesis by (intro exI [of _ "Suc j"]) simp
  qed
qed

lemma sendto_loop_never:
  "\<forall>j. sendto_ret k (i + j) < 0 \<Longrightarrow> sendto_loop k msg i w = None"
  using sendto_loop_returns [of k msg i w] by (cases "sendto_loop k msg i w") (auto simp: not_le [symmetric])

subsection \<open>What a reader finds in a built buffer\<close>

lemma ipset_build_buffer:
  assumes "strlen ipsetname < IPSET_MAXNAMELEN" "addr_len \<le> 16" "addr_len \<le> length addr"
  shows "ipset_build plat enable ipsetname addr addr_len timeout operate af
           = Some (wire_buffer plat enable ipsetname (take addr_len addr) timeout operate af)"
  unfolding wire_buffer_def by (rule ipset_build_wire [OF assms])

lemma length_wire_buffer:
  assumes "strlen ipsetname < IPSET_MAXNAMELEN" "length addr \<le> 16"
  shows "length (wire_buffer plat enable ipsetname addr timeout operate af) = BUFF_SZ"
  unfolding wire_buffer_def
  using wire_body_bounds(2) [OF assms, of plat enable timeout operate af]
  by (intro length_wire_frame) (simp_all add: BUFF_SZ_def)

lemma nlmsg_len_buffer:
  assumes "strlen ipsetname < IPSET_MAXNAMELEN" "length addr \<le> 16"
  shows "nlmsg_len plat (wire_buffer plat enable ipsetname addr timeout operate af)
           = 4 + length (wire_body plat enable ipsetname addr timeout operate af)"
  unfolding wire_buffer_def
  using wire_body_bounds(2) [OF assms, of plat enable timeout operate af]
  by (intro nlmsg_len_frame) simp

lemma take_wire_buffer:
  assumes "strlen ipsetname < IPSET_MAXNAMELEN" "length addr \<le> 16"
  shows "take (nlmsg_len plat (wire_buffer plat enable ipsetname addr timeout operate af))
              (wire_buffer plat enable ipsetname addr timeout operate af)
           = wire_msg plat enable ipsetname addr timeout operate af"
  unfolding nlmsg_len_buffer [OF assms]
  by (simp add: wire_buffer_def take_wire_frame wire_msg_def)

lemma msg_attrs_buffer:
  assumes "strlen ipsetname < IPSET_MAXNAMELEN" "length addr \<le> 16"
  shows "msg_attrs plat (wire_buffer plat enable ipsetname addr timeout operate af)
           = Some (wire_tree plat enable ipsetname addr timeout af)"
  unfolding wire_buffer_def by (rule msg_attrs_frame [OF assms])

lemma find_timeout_tree:
  "find_attr (IPSET_ATTR_TIMEOUT OR NLA_F_NET_BYTEORDER) (wire_timeout_tree plat enable timeout off)
     = (if timeout > 0 \<and> enable \<noteq> 0
        then Some (NLAttr off (IPSET_ATTR_TIMEOUT OR NLA_F_NET_BYTEORDER)
                     (host_bytes plat (sizeof_ulong (data_model plat)) (htonl plat timeout)) [])
        else None)"
  by (simp add: find_attr_def wire_timeout_tree_def)

lemma data_attrs_buffer:
  assumes "strlen ipsetname < IPSET_MAXNAMELEN" "length addr \<le> 16"
  shows "data_attrs plat (wire_buffer plat enable ipsetname addr timeout operate af)
           = Some (nla_nested (wire_tree plat enable ipsetname addr timeout af ! 2))"
  by (simp add: data_attrs_def msg_attrs_buffer [OF assms] wire_tree_def Let_def find_attr_def type_values)

lemma timeout_attr_buffer:
  assumes "strlen ipsetname < IPSET_MAXNAMELEN" "length addr \<le> 16"
  shows "timeout_attr plat (wire_buffer plat enable ipsetname addr timeout operate af)
           = (if timeout > 0 \<and> enable \<noteq> 0
              then Some (NLAttr (36 + NETLINK_ALIGN (4 + (strlen ipsetname + 1)) + NETLINK_ALIGN (4 + length addr))
                           (IPSET_ATTR_TIMEOUT OR NLA_F_NET_BYTEORDER)
                           (host_bytes plat (sizeof_ulong (data_model plat)) (htonl plat timeout)) [])
              else None)"
proof -
  have "find_attr (IPSET_ATTR_TIMEOUT OR NLA_F_NET_BYTEORDER) (a # as) = find_attr (IPSET_ATTR_TIMEOUT OR NLA_F_NET_BYTEORDER) as"
    if "nla_type a = NLA_F_NESTED OR IPSET_ATTR_IP" for a as
    using that by (simp add: find_attr_def type_values)
  then show ?thesis
    by (simp add: timeout_attr_def data_attrs_buffer [OF assms] wire_tree_def Let_def find_timeout_tree)
qed

lemma ipaddr_attr_buffer:
  assumes "strlen ipsetname < IPSET_MAXNAMELEN" "length addr \<le> 16"
  shows "ipaddr_attr plat (wire_buffer plat enable ipsetname addr timeout operate af)
           = Some (NLAttr (36 + NETLINK_ALIGN (4 + (strlen ipsetname + 1)))
                     ((if af = AF_INET then IPSET_ATTR_IPADDR_IPV4 else IPSET_ATTR_IPADDR_IPV6) OR NLA_F_NET_BYTEORDER)
                     addr [])"
  by (simp add: ipaddr_attr_def data_attrs_buffer [OF assms] wire_tree_def Let_def find_attr_def
        find_ipaddr_def type_values)

lemma nlmsg_type_buffer:
  "nlmsg_type plat (wire_buffer plat enable ipsetname addr timeout operate af)
     = (operate OR push_bit 8 NFNL_SUBSYS_IPSET) mod 65536"
  using load_at [of "host_bytes plat 4 L" 4 plat 2 "operate OR push_bit 8 NFNL_SUBSYS_IPSET" for L]
  by (simp add: nlmsg_type_def off_nlmsg_type_def wire_buffer_def wire_frame_def wire_body_def wire_headers_def)

subsection \<open>The paths through the operation\<close>

lemma socket_init_enable:
  "dns_conf_ipset_timeout_enable (snd (ipset_socket_init k w)) = dns_conf_ipset_timeout_enable w"
  by (simp add: ipset_socket_init_def Let_def)

lemma socket_init_ok:
  "fst (ipset_socket_init k w) = 0 \<longleftrightarrow> ipset_fd w > 0 \<or> socket_ret k \<ge> 0"
  by (auto simp: ipset_socket_init_def Let_def)

lemma addr_family_valid:
  "addr_len = 4 \<or> addr_len = 16 \<Longrightarrow>
   addr_family addr_len = Some (if addr_len = 4 then AF_INET else AF_INET6)"
  by (auto simp: addr_family_def IPV4_ADDR_LEN_def IPV6_ADDR_LEN_def)

lemma ipset_operate_invalid_addr:
  "addr_len \<noteq> 4 \<Longrightarrow> addr_len \<noteq> 16 \<Longrightarrow>
   ipset_operate plat k ipsetname addr addr_len timeout operate w = Some (Inl InvalidAddress, w)"
  by (simp add: ipset_operate_def IPV4_ADDR_LEN_def IPV6_ADDR_LEN_def)

lemma ipset_operate_no_socket:
  "addr_len = 4 \<or> addr_len = 16 \<Longrightarrow> fst (ipset_socket_init k w) \<noteq> 0 \<Longrightarrow>
   ipset_operate plat k ipsetname addr addr_len timeout operate w
     = Some (Inl SocketCreationFailed, snd (ipset_socket_init k w))"
  by (auto simp: ipset_operate_def IPV4_ADDR_LEN_def IPV6_ADDR_LEN_def addr_family_def split: prod.split)

lemma ipset_operate_long_name:
  "addr_len = 4 \<or> addr_len = 16 \<Longrightarrow> fst (ipset_socket_init k w) = 0 \<Longrightarrow>
   IPSET_MAXNAMELEN \<le> strlen ipsetname \<Longrightarrow>
   ipset_operate plat k ipsetname addr addr_len timeout operate w
     = Some (Inl NameTooLong, snd (ipset_socket_init k w))"
  by (auto simp: ipset_operate_def IPV4_ADDR_LEN_def IPV6_ADDR_LEN_def addr_family_def split: prod.split)

lemma ipset_operate_sends:
  assumes al: "addr_len = 4 \<or> addr_len = 16" and sock: "fst (ipset_socket_init k w) = 0"
    and nm: "strlen ipsetname < IPSET_MAXNAMELEN" and src: "nat addr_len \<le> length addr"
  shows "ipset_operate plat k ipsetname addr addr_len timeout operate w
           = map_option (\<lambda>(rc, w2). (Inr rc, w2))
               (sendto_loop k
                  (wire_msg plat (dns_conf_ipset_timeout_enable w) ipsetname (take (nat addr_len) addr)
                     timeout operate (if addr_len = 4 then AF_INET else AF_INET6))
                  0 (snd (ipset_socket_init k w)))"
proof -
  have a16: "nat addr_len \<le> 16" using al by auto
  have t16: "length (take (nat addr_len) addr) \<le> 16" using a16 by simp
  obtain r w1 where si: "ipset_socket_init k w = (r, w1)" by (cases "ipset_socket_init k w")
  have r0: "r = 0" using sock si by simp
  have en: "dns_conf_ipset_timeout_enable w1 = dns_conf_ipset_timeout_enable w"
    using socket_init_enable [of k w] si by simp
  show ?thesis
    using al nm
    by (auto simp: ipset_operate_def IPV4_ADDR_LEN_def IPV6_ADDR_LEN_def addr_family_valid si r0 en
          ipset_build_buffer [OF nm a16 src] take_wire_buffer [OF nm t16])
qed

subsection \<open>Facts about the sample inputs, the timeout payload and single steps\<close>

lemma blocklist_bytes: "c_bytes ''blocklist'' = [98, 108, 111, 99, 107, 108, 105, 115, 116]"
  by (simp add: c_bytes_def)

lemma strlen_blocklist: "strlen (c_bytes ''blocklist'') = 9"
  by (simp add: blocklist_bytes strlen_def)

lemma strlen_replicate: "b \<noteq> 0 \<Longrightarrow> strlen (replicate n b) = n"
  by (simp add: strlen_def)

lemma msg_family_buffer:
  "msg_family plat (wire_buffer plat enable ipsetname addr timeout operate af) = af mod 256"
  using load_at [of "host_bytes plat 4 L @ host_bytes plat 2 ty @ host_bytes plat 2 fl @ replicate 8 0" 16 plat 1 af for L ty fl]
  by (simp add: msg_family_def wire_buffer_def wire_frame_def wire_body_def wire_headers_def
        NETLINK_ALIGN_def sizeof_nlmsghdr_def off_msg_family_def)

lemma le_bytes_add: "le_bytes (m + n) v = le_bytes m v @ le_bytes n (v div 256 ^ m)"
proof (induction m arbitrary: v)
  case 0
  show ?case by simp
next
  case (Suc m)
  show ?case by (simp add: Suc div_mult2_eq)
qed

lemma be_val_be_bytes: "be_val (be_bytes n v) = v mod 256 ^ n"
  by (simp add: be_val_def be_bytes_def le_val_le_bytes)

lemma length_be_bytes [simp]: "length (be_bytes n v) = n"
  by (simp add: be_bytes_def)

lemma htonl_bytes_little:
  "byte_order plat = Little \<Longrightarrow> le_bytes 4 (htonl plat t) = be_bytes 4 t"
proof -
  assume l: "byte_order plat = Little"
  have m: "le_bytes 4 (t mod 4294967296) = le_bytes 4 t"
    using le_bytes_mod [of 4 t] by simp
  have "le_bytes (length (rev (le_bytes 4 t))) (le_val (rev (le_bytes 4 t))) = rev (le_bytes 4 t)"
    by (rule le_bytes_le_val)
  then show ?thesis
    by (simp add: htonl_def l m be_bytes_def)
qed

lemma htonl_small: "htonl plat t < 2 ^ 32"
proof (cases "byte_order plat")
  case Little
  have "le_val (rev (le_bytes 4 (t mod 2 ^ 32))) < 256 ^ length (rev (le_bytes 4 (t mod 2 ^ 32)))"
    by (rule le_val_bound)
  then show ?thesis by (simp add: htonl_def Little)
next
  case Big
  then show ?thesis by (simp add: htonl_def)
qed

lemma timeout_payload_head:
  assumes "\<not> (byte_order plat = Big \<and> data_model plat = LP64)"
  shows "take 4 (host_bytes plat (sizeof_ulong (data_model plat)) (htonl plat t)) = be_bytes 4 t"
proof (cases "byte_order plat")
  case Little
  have 8: "le_bytes 8 v = le_bytes 4 v @ le_bytes 4 (v div 256 ^ 4)" for v
    using le_bytes_add [of 4 4 v] by simp
  show ?thesis
    by (cases "data_model plat") (simp_all add: host_bytes_def Little htonl_bytes_little 8)
next
  case Big
  then have i: "data_model plat = ILP32" using assms by (cases "data_model plat") auto
  have "le_bytes 4 (t mod 2 ^ 32) = le_bytes 4 t"
    using le_bytes_mod [of 4 t] by simp
  then show ?thesis by (simp add: host_bytes_def Big i htonl_def be_bytes_def)
qed

lemma le_bytes_zero: "le_bytes n 0 = replicate n 0"
  by (induction n) simp_all

lemma timeout_payload_lp64_big:
  assumes "byte_order plat = Big" "data_model plat = LP64"
  shows "host_bytes plat (sizeof_ulong (data_model plat)) (htonl plat t) = replicate 4 0 @ be_bytes 4 t"
proof -
  have 8: "le_bytes 8 v = le_bytes 4 v @ le_bytes 4 (v div 256 ^ 4)" for v
    using le_bytes_add [of 4 4 v] by simp
  have m: "le_bytes 4 (t mod 4294967296) = le_bytes 4 t"
    using le_bytes_mod [of 4 t] by simp
  have z: "le_bytes 4 0 = replicate 4 0" by (rule le_bytes_zero)
  show ?thesis
    by (simp add: host_bytes_def assms htonl_def be_bytes_def 8 m z del: replicate.simps)
qed

lemma takeWhile_c_str: "takeWhile (\<lambda>b. b \<noteq> 0) (c_str s) = takeWhile (\<lambda>b. b \<noteq> 0) s"
proof -
  have "takeWhile (\<lambda>b. b \<noteq> 0) (takeWhile (\<lambda>b. b \<noteq> 0) s @ [0])
          = takeWhile (\<lambda>b. b \<noteq> 0) s @ takeWhile (\<lambda>b. b \<noteq> 0) [0]"
    by (rule takeWhile_append2) (auto dest: set_takeWhileD)
  then show ?thesis by (simp add: c_str_def)
qed

lemma decode_request_buffer:
  assumes nm: "strlen ipsetname < IPSET_MAXNAMELEN" and a16: "length addr \<le> 16"
  shows "decode_request plat (wire_buffer plat enable ipsetname addr timeout operate af)
           = Some \<lparr>req_setname = takeWhile (\<lambda>b. b \<noteq> 0) ipsetname,
                   req_addr = addr,
                   req_timeout =
                     (if timeout > 0 \<and> enable \<noteq> 0
                      then Some (be_val (take 4 (host_bytes plat (sizeof_ulong (data_model plat)) (htonl plat timeout))))
                      else None)\<rparr>"
proof -
  have su: "\<not> sizeof_ulong (data_model plat) < 4" by (cases "data_model plat") simp_all
  have f: "find_attr IPSET_ATTR_SETNAME (wire_tree plat enable ipsetname addr timeout af)
             = Some (NLAttr 28 IPSET_ATTR_SETNAME (c_str ipsetname) [])"
    by (simp add: wire_tree_def Let_def find_attr_def type_values)
  show ?thesis
    by (simp add: decode_request_def msg_attrs_buffer [OF assms] f ipaddr_attr_buffer [OF assms]
          timeout_attr_buffer [OF assms] decode_timeout_def su takeWhile_c_str)
qed

lemma four_Suc: "(4::nat) = Suc (Suc (Suc (Suc 0)))"
  by simp

lemma le_bytes_4:
  "le_bytes 4 v = [of_nat (v mod 256), of_nat (v div 256 mod 256), of_nat (v div 256 div 256 mod 256),
                   of_nat (v div 256 div 256 div 256 mod 256)]"
  by (subst four_Suc) simp

lemma replicate_4: "replicate 4 x = [x, x, x, x]"
  by (subst four_Suc) simp

lemma be_bytes_4_30: "be_bytes 4 30 = [0, 0, 0, 30]"
  by (simp add: be_bytes_def le_bytes_4)

lemma timeout_payload_x86_64:
  "host_bytes x86_64 (sizeof_ulong (data_model x86_64)) (htonl x86_64 30) = [0, 0, 0, 30, 0, 0, 0, 0]"
proof -
  have 8: "le_bytes 8 v = le_bytes 4 v @ le_bytes 4 (v div 256 ^ 4)" for v
    using le_bytes_add [of 4 4 v] by simp
  have l: "byte_order x86_64 = Little" by (simp add: x86_64_def)
  have s: "htonl x86_64 30 div 4294967296 = 0"
    using htonl_small [of x86_64 30] by simp
  have z: "le_bytes 4 0 = [0, 0, 0, 0]"
    by (simp add: le_bytes_zero replicate_4)
  have h: "le_bytes 4 (htonl x86_64 30) = [0, 0, 0, 30]"
    using htonl_bytes_little [OF l, of 30] by (simp add: be_bytes_4_30)
  show ?thesis
    by (simp add: host_bytes_def x86_64_def [of] 8 s z h l)
       (simp add: x86_64_def [symmetric] 8 s z h)
qed

lemma c_str_blocklist: "c_str (c_bytes ''blocklist'') = c_bytes ''blocklist'' @ [0]"
  by (simp add: c_str_def blocklist_bytes)

lemma wire_timeout_none: "wire_timeout plat enable 0 = []" "wire_timeout plat 0 timeout = []"
  by (simp_all add: wire_timeout_def)

lemma wire_timeout_tree_none: "wire_timeout_tree plat enable 0 off = []" "wire_timeout_tree plat 0 timeout off = []"
  by (simp_all add: wire_timeout_tree_def)

lemma nlmsg_flags_buffer:
  "nlmsg_flags plat (wire_buffer plat enable ipsetname addr timeout operate af)
     = (NLM_F_REQUEST OR NLM_F_REPLACE) mod 65536"
  using load_at [of "host_bytes plat 4 L @ host_bytes plat 2 ty" 6 plat 2 "NLM_F_REQUEST OR NLM_F_REPLACE" for L ty]
  by (simp add: nlmsg_flags_def off_nlmsg_flags_def wire_buffer_def wire_frame_def wire_body_def wire_headers_def)

lemma operation_codes:
  "(IPSET_ADD OR push_bit 8 NFNL_SUBSYS_IPSET) mod 65536 = IPSET_ADD OR push_bit 8 NFNL_SUBSYS_IPSET"
  "(IPSET_DEL OR push_bit 8 NFNL_SUBSYS_IPSET) mod 65536 = IPSET_DEL OR push_bit 8 NFNL_SUBSYS_IPSET"
  "IPSET_ADD OR push_bit 8 NFNL_SUBSYS_IPSET \<noteq> IPSET_DEL OR push_bit 8 NFNL_SUBSYS_IPSET"
  by (simp_all add: IPSET_ADD_def IPSET_DEL_def NFNL_SUBSYS_IPSET_def)

lemma store_type_buffer:
  assumes "wire_timeout plat enable timeout = wire_timeout plat enable' timeout'"
  shows "store plat 2 (wire_buffer plat enable ipsetname addr timeout operate af) off_nlmsg_type
           (operate' OR push_bit 8 NFNL_SUBSYS_IPSET)
           = Some (wire_buffer plat enable' ipsetname addr timeout' operate' af)"
proof -
  define rest where "rest = host_bytes plat 2 (NLM_F_REQUEST OR NLM_F_REPLACE) @ replicate 8 0
       @ host_bytes plat 1 af @ host_bytes plat 1 NFNETLINK_V0 @ host_bytes plat 2 (htons plat 0)
       @ wire_attrs plat enable ipsetname addr timeout af"
  have at: "wire_attrs plat enable' ipsetname addr timeout' af = wire_attrs plat enable ipsetname addr timeout af"
    by (simp add: wire_attrs_def assms)
  have b: "wire_body plat enable ipsetname addr timeout op af
             = [] @ host_bytes plat 2 (op OR push_bit 8 NFNL_SUBSYS_IPSET) @ rest" for op
    by (simp add: wire_body_def wire_headers_def rest_def)
  have b': "wire_body plat enable' ipsetname addr timeout' op af
             = [] @ host_bytes plat 2 (op OR push_bit 8 NFNL_SUBSYS_IPSET) @ rest" for op
    by (simp add: wire_body_def wire_headers_def rest_def at)
  have l: "length (wire_body plat enable ipsetname addr timeout operate af)
             = length (wire_body plat enable' ipsetname addr timeout' operate' af)"
    unfolding b b' by simp
  show ?thesis
    unfolding wire_buffer_def l [symmetric]
    unfolding b b'
    by (rule store_frame) (simp_all add: off_nlmsg_type_def)
qed

lemma host_bytes_host_val: "host_bytes plat (length bs) (host_val plat bs) = bs"
proof (cases "byte_order plat")
  case Little
  then show ?thesis by (simp add: host_bytes_def host_val_def le_bytes_le_val)
next
  case Big
  have "le_bytes (length (rev bs)) (le_val (rev bs)) = rev bs" by (rule le_bytes_le_val)
  then show ?thesis by (simp add: host_bytes_def host_val_def Big be_bytes_def be_val_def)
qed

lemma add_attr_step:
  assumes N: "length buf = N" and L: "nlmsg_len plat buf = L" and L4: "4 \<le> L" and al: "L mod 4 = 0"
    and fit: "L + NETLINK_ALIGN (4 + len) \<le> N" and src: "len \<le> length data" and N16: "N < 65536"
  shows "\<exists>buf'. ipset_add_attr plat buf ty len data = Some buf'
           \<and> length buf' = N
           \<and> nlmsg_len plat buf' = NETLINK_ALIGN (L + (4 + len))
           \<and> load plat 2 buf' (L + off_attr_len) = 4 + len
           \<and> load plat 2 buf' (L + off_attr_type) = ty mod 65536
           \<and> take len (drop (L + NETLINK_ALIGN sizeof_ipset_netlink_attr) buf') = take len data
           \<and> take (L - 4) (drop 4 buf') = take (L - 4) (drop 4 buf)"
proof -
  let ?A = "NETLINK_ALIGN (4 + len)"
  define mid where "mid = take (L - 4) (drop 4 buf)"
  define tail where "tail = drop L buf"
  define t1 where "t1 = take 2 tail"
  define t2 where "t2 = take 2 (drop 2 tail)"
  define t3 where "t3 = take len (drop 4 tail)"
  define rest where "rest = drop (4 + len) tail"
  have bnd: "4 + len \<le> ?A" using NETLINK_ALIGN_bounds [of "4 + len"] by simp
  have LN: "L + (4 + len) \<le> N" using fit bnd by simp
  have h: "take 4 buf = host_bytes plat 4 L"
    using host_bytes_host_val [of plat "take 4 buf"] L N LN L4
    by (simp add: nlmsg_len_def load_def off_nlmsg_len_def min_absorb2)
  have lmid: "length mid = L - 4" using N LN by (simp add: mid_def)
  have ltail: "length tail = N - L" using N by (simp add: tail_def)
  have lt: "length t1 = 2" "length t2 = 2" "length t3 = len" "length rest = N - L - (4 + len)"
    using ltail LN by (simp_all add: t1_def t2_def t3_def rest_def)
  have tl: "tail = t1 @ t2 @ t3 @ rest"
  proof -
    have "tail = take 2 tail @ drop 2 tail" by simp
    also have "drop 2 tail = take 2 (drop 2 tail) @ drop 4 tail"
      using append_take_drop_id [of 2 "drop 2 tail"] by simp
    also have "drop 4 tail = take len (drop 4 tail) @ drop (4 + len) tail"
      using append_take_drop_id [of len "drop 4 tail"] by (simp add: add.commute)
    finally show ?thesis by (simp add: t1_def t2_def t3_def rest_def)
  qed
  have buf: "buf = host_bytes plat 4 L @ mid @ tail"
  proof -
    have "buf = take 4 buf @ drop 4 buf" by simp
    also have "drop 4 buf = take (L - 4) (drop 4 buf) @ drop L buf"
      using append_take_drop_id [of "L - 4" "drop 4 buf"] L4 by simp
    finally show ?thesis by (simp add: h mid_def tail_def)
  qed
  let ?pre = "host_bytes plat 4 L @ mid"
  have lpre: "length ?pre = L" using lmid L4 by simp
  have L32: "L < 2 ^ 32" using LN N16 by simp
  have small: "4 + len < 65536" using LN N16 by simp
  define b1 where "b1 = (?pre @ t1) @ host_bytes plat 2 ty @ (t3 @ rest)"
  define b2 where "b2 = ?pre @ host_bytes plat 2 (4 + len) @ (host_bytes plat 2 ty @ t3 @ rest)"
  define b3 where "b3 = host_bytes plat 4 L @ (mid @ host_bytes plat 2 (4 + len) @ host_bytes plat 2 ty @ take len data @ rest)"
  define b4 where "b4 = host_bytes plat 4 (L + ?A) @ (mid @ host_bytes plat 2 (4 + len) @ host_bytes plat 2 ty @ take len data @ rest)"
  have b0: "buf = (?pre @ t1) @ t2 @ (t3 @ rest)" by (simp add: buf tl)
  have attr: "NETLINK_ALIGN (nlmsg_len plat buf) = L"
    using al by (simp add: L NETLINK_ALIGN_aligned)
  have pl: "(NETLINK_ALIGN sizeof_ipset_netlink_attr + len) mod 2 ^ 16 = 4 + len"
    using small by (simp add: sizeof_ipset_netlink_attr_def NETLINK_ALIGN_def)
  have s1: "store plat 2 buf (L + off_attr_type) ty = Some b1"
    unfolding b1_def by (subst b0, rule store_at) (use lpre lt in \<open>simp_all add: off_attr_type_def\<close>)
  have s2: "store plat 2 b1 (L + off_attr_len) (4 + len) = Some b2"
    using store_at [of ?pre "L + off_attr_len" t1 2 plat "host_bytes plat 2 ty @ t3 @ rest" "4 + len"] lpre lt
    by (simp add: off_attr_len_def b1_def b2_def)
  have s3: "memcpy b2 (L + NETLINK_ALIGN sizeof_ipset_netlink_attr) data len = Some b3"
    using memcpy_at [of "?pre @ host_bytes plat 2 (4 + len) @ host_bytes plat 2 ty"
                        "L + NETLINK_ALIGN sizeof_ipset_netlink_attr" t3 len data rest] src lpre lt
    by (simp add: sizeof_ipset_netlink_attr_def NETLINK_ALIGN_def b2_def b3_def)
  have n3: "nlmsg_len plat b3 = L"
    using load_at [of "[]" 0 plat 4 L] L32 by (simp add: nlmsg_len_def off_nlmsg_len_def b3_def)
  have s4: "store plat 4 b3 off_nlmsg_len (L + ?A) = Some b4"
    using store_at [of "[]" 0 "host_bytes plat 4 L" 4 plat _ "L + ?A"]
    by (simp add: off_nlmsg_len_def b3_def b4_def)
  have run: "ipset_add_attr plat buf ty len data = Some b4"
    unfolding ipset_add_attr_def Let_def attr pl
    by (simp only: s1 s2 s3 n3 s4 bind.bind_lunit)
  have tk: "length (take len data) = len" using src by simp
  have len4: "length b4 = N" using lmid lt tk LN L4 by (simp add: b4_def)
  have LA32: "L + ?A < 2 ^ 32" using fit N16 by simp
  have n4: "nlmsg_len plat b4 = L + ?A"
    using load_at [of "[]" 0 plat 4 "L + ?A"] LA32 by (simp add: nlmsg_len_def off_nlmsg_len_def b4_def)
  have q1: "load plat 2 b4 (L + off_attr_len) = 4 + len"
    using load_at [of "host_bytes plat 4 (L + ?A) @ mid" L plat 2 "4 + len"] lmid L4 small
    by (simp add: b4_def off_attr_len_def)
  have q2: "load plat 2 b4 (L + off_attr_type) = ty mod 65536"
    using load_at [of "host_bytes plat 4 (L + ?A) @ mid @ host_bytes plat 2 (4 + len)" "L + 2" plat 2 ty] lmid L4
    by (simp add: b4_def off_attr_type_def)
  have q3: "take len (drop (L + NETLINK_ALIGN sizeof_ipset_netlink_attr) b4) = take len data"
    using lmid L4 tk by (simp add: b4_def sizeof_ipset_netlink_attr_def NETLINK_ALIGN_def)
  have q4: "take (L - 4) (drop 4 b4) = take (L - 4) (drop 4 buf)"
    using lmid by (simp add: b4_def mid_def [symmetric])
  have na: "NETLINK_ALIGN (L + (4 + len)) = L + ?A" by (rule NETLINK_ALIGN_add [OF al])
  show ?thesis
    by (intro exI [of _ b4] conjI run len4 q1 q2 q3 q4) (simp add: n4 na)
qed

lemma all_attrs_wire_tree:
  "all_attrs (wire_tree plat enable ipsetname addr timeout af)
     = [NLAttr 20 IPSET_ATTR_PROTOCOL (host_bytes plat 1 IPSET_PROTOCOL) [],
        NLAttr 28 IPSET_ATTR_SETNAME (c_str ipsetname) [],
        NLAttr (28 + NETLINK_ALIGN (4 + (strlen ipsetname + 1))) (NLA_F_NESTED OR IPSET_ATTR_DATA)
          (wire_ip plat addr af @ wire_timeout plat enable timeout)
          (NLAttr (28 + NETLINK_ALIGN (4 + (strlen ipsetname + 1)) + 4) (NLA_F_NESTED OR IPSET_ATTR_IP)
             (drop 4 (wire_ip plat addr af))
             [NLAttr (28 + NETLINK_ALIGN (4 + (strlen ipsetname + 1)) + 8)
                ((if af = AF_INET then IPSET_ATTR_IPADDR_IPV4 else IPSET_ATTR_IPADDR_IPV6) OR NLA_F_NET_BYTEORDER)
                addr []]
           # wire_timeout_tree plat enable timeout
               (28 + NETLINK_ALIGN (4 + (strlen ipsetname + 1)) + 8 + NETLINK_ALIGN (4 + length addr))),
        NLAttr (28 + NETLINK_ALIGN (4 + (strlen ipsetname + 1)) + 4) (NLA_F_NESTED OR IPSET_ATTR_IP)
          (drop 4 (wire_ip plat addr af))
          [NLAttr (28 + NETLINK_ALIGN (4 + (strlen ipsetname + 1)) + 8)
             ((if af = AF_INET then IPSET_ATTR_IPADDR_IPV4 else IPSET_ATTR_IPADDR_IPV6) OR NLA_F_NET_BYTEORDER)
             addr []],
        NLAttr (28 + NETLINK_ALIGN (4 + (strlen ipsetname + 1)) + 8)
          ((if af = AF_INET then IPSET_ATTR_IPADDR_IPV4 else IPSET_ATTR_IPADDR_IPV6) OR NLA_F_NET_BYTEORDER)
          addr []]
       @ wire_timeout_tree plat enable timeout
           (28 + NETLINK_ALIGN (4 + (strlen ipsetname + 1)) + 8 + NETLINK_ALIGN (4 + length addr))"
  by (simp add: all_attrs_def wire_tree_def Let_def wire_timeout_tree_def)

lemma length_wire_timeout:
  "length (wire_timeout plat enable timeout)
     = (if timeout > 0 \<and> enable \<noteq> 0 then NETLINK_ALIGN (4 + sizeof_ulong (data_model plat)) else 0)"
  by (simp add: wire_timeout_def length_wire_attr)

lemma timeout_payload_ilp32:
  assumes "data_model plat = ILP32"
  shows "host_bytes plat (sizeof_ulong (data_model plat)) (htonl plat timeout) = be_bytes 4 timeout"
proof -
  have "\<not> (byte_order plat = Big \<and> data_model plat = LP64)" using assms by simp
  from timeout_payload_head [OF this, of timeout] show ?thesis by (simp add: assms)
qed

lemma timeout_payload_lp64:
  assumes "data_model plat = LP64"
  shows "length (host_bytes plat (sizeof_ulong (data_model plat)) (htonl plat timeout)) = 8"
  by (simp add: assms)

lemma timeout_attribute_placement:
  assumes "strlen ipsetname < IPSET_MAXNAMELEN" and "addr_len \<le> 16" and "addr_len \<le> length addr"
  shows "\<exists>buf ip. ipset_build plat enable ipsetname addr addr_len timeout operate af = Some buf
           \<and> nla_type ip = NLA_F_NESTED OR IPSET_ATTR_IP
           \<and> data_attrs plat buf
                = Some (ip # (if timeout > 0 \<and> enable \<noteq> 0
                              then [NLAttr (36 + NETLINK_ALIGN (4 + (strlen ipsetname + 1)) + NETLINK_ALIGN (4 + addr_len))
                                      (IPSET_ATTR_TIMEOUT OR NLA_F_NET_BYTEORDER)
                                      (host_bytes plat (sizeof_ulong (data_model plat)) (htonl plat timeout)) []]
                              else []))"
proof -
  have t: "length (take addr_len addr) \<le> 16" using assms(2) by simp
  have m: "min (length addr) addr_len = addr_len" using assms(3) by simp
  show ?thesis
    by (simp add: ipset_build_buffer [OF assms] data_attrs_buffer [OF assms(1) t] wire_tree_def Let_def
          wire_timeout_tree_def m add.assoc)
qed

subsection \<open>The message handed to \<^verbatim>\<open>sendto\<close>: the buffer cut at \<^verbatim>\<open>nlmsg_len\<close>\<close>

lemma load_take: "off + n \<le> L \<Longrightarrow> load plat n (take L buf) off = load plat n buf off"
  by (simp add: load_def drop_take min_def)

lemma nlmsg_len_take: "4 \<le> L \<Longrightarrow> nlmsg_len plat (take L buf) = nlmsg_len plat buf"
  by (simp add: nlmsg_len_def off_nlmsg_len_def load_take)

lemma msg_attrs_take:
  assumes "nlmsg_len plat buf = L" "20 \<le> L" "L \<le> length buf"
  shows "msg_attrs plat (take L buf) = msg_attrs plat buf"
proof -
  have n: "nlmsg_len plat (take L buf) = L"
    using assms by (simp add: nlmsg_len_def off_nlmsg_len_def load_take)
  show ?thesis using assms
    by (simp add: msg_attrs_def n Let_def)
qed

lemma store_take:
  assumes "off + n \<le> L" "L \<le> length buf" "0 < n"
  shows "store plat n (take L buf) off v = map_option (take L) (store plat n buf off v)"
  using assms by (auto simp: store_def memcpy_def drop_take min_def)

lemma upt_two: "[0..<2] = [0, Suc 0]"
  by (simp add: upt_rec)

section \<open>The claims\<close>

text \<open>
  C1. In every message built from a valid set name and an address of 4 or 16 bytes,
  \<^verbatim>\<open>nlmsg_len\<close> is a multiple of 4, it is the end of the last attribute written (the
  address, or the timeout where there is one) rounded up to a multiple of 4, which is
  also the rounded end of the DATA container that is closed last; it is the two header
  sizes plus the aligned sizes of the attributes; and every attribute starts at a
  multiple of 4, so that its payload, 4 bytes further, does too. Each call of the
  attribute encoder on a buffer whose \<^verbatim>\<open>nlmsg_len\<close> is a multiple of 4 leaves
  \<^verbatim>\<open>nlmsg_len\<close> at the rounded end of the attribute it has written.
\<close>

theorem total_length_is_aligned_end:
  assumes "strlen ipsetname < IPSET_MAXNAMELEN" and "addr_len = 4 \<or> addr_len = 16"
    and "addr_len \<le> length addr"
  shows "(\<exists>buf attrs.
            ipset_build plat enable ipsetname addr addr_len timeout operate af = Some buf
          \<and> msg_attrs plat buf = Some attrs \<and> attrs \<noteq> []
          \<and> nlmsg_len plat buf mod 4 = 0
          \<and> nlmsg_len plat buf \<le> BUFF_SZ
          \<and> nlmsg_len plat buf
               = NETLINK_ALIGN (nla_off (last (all_attrs attrs)) + nla_len (last (all_attrs attrs)))
          \<and> nlmsg_len plat buf = NETLINK_ALIGN (nla_off (last attrs) + nla_len (last attrs))
          \<and> nlmsg_len plat buf
               = NETLINK_ALIGN sizeof_nlmsghdr + NETLINK_ALIGN sizeof_ipset_netlink_msg
                 + sum_list (map attr_span attrs)
          \<and> (\<forall>a \<in> set (all_attrs attrs).
                nla_off a mod 4 = 0 \<and> (nla_off a + NETLINK_ALIGN sizeof_ipset_netlink_attr) mod 4 = 0))
         \<and> (length buf0 = BUFF_SZ \<and> 4 \<le> nlmsg_len plat buf0 \<and> nlmsg_len plat buf0 mod 4 = 0
              \<and> nlmsg_len plat buf0 + NETLINK_ALIGN (4 + len) \<le> BUFF_SZ \<and> len \<le> length data \<longrightarrow>
             (\<exists>buf'. ipset_add_attr plat buf0 ty len data = Some buf'
                  \<and> nlmsg_len plat buf' = NETLINK_ALIGN (nlmsg_len plat buf0 + (4 + len))
                  \<and> nlmsg_len plat buf' mod 4 = 0
                  \<and> load plat 2 buf' (nlmsg_len plat buf0 + off_attr_len) = 4 + len
                  \<and> load plat 2 buf' (nlmsg_len plat buf0 + off_attr_type) = ty mod 65536
                  \<and> take len (drop (nlmsg_len plat buf0 + NETLINK_ALIGN sizeof_ipset_netlink_attr) buf')
                       = take len data))"
proof (intro conjI impI)
  let ?addr = "take addr_len addr"
  let ?buf = "wire_buffer plat enable ipsetname ?addr timeout operate af"
  let ?attrs = "wire_tree plat enable ipsetname ?addr timeout af"
  define S where "S = NETLINK_ALIGN (4 + (strlen ipsetname + 1))"
  define A where "A = NETLINK_ALIGN (4 + addr_len)"
  define U where "U = NETLINK_ALIGN (4 + sizeof_ulong (data_model plat))"
  define T where "T = length (wire_timeout plat enable timeout)"
  have S5: "NETLINK_ALIGN (5 + strlen ipsetname) = S" by (simp add: S_def)
  have a16: "addr_len \<le> 16" using assms(2) by auto
  have la: "min (length addr) addr_len = addr_len" using assms(3) by simp
  have l16: "length ?addr \<le> 16" using a16 by simp
  have n32: "strlen ipsetname < 32" using assms(1) by (simp add: IPSET_MAXNAMELEN_def)
  have S4: "S mod 4 = 0" and S36: "S \<le> 36"
    using n32 unfolding S_def NETLINK_ALIGN_eq by presburger+
  have A4: "A mod 4 = 0" and A20: "A \<le> 20"
    using a16 unfolding A_def NETLINK_ALIGN_eq by presburger+
  have U4: "U mod 4 = 0" by (simp add: U_def NETLINK_ALIGN_mod4)
  have T4: "T mod 4 = 0" and T12: "T \<le> 12"
    using wire_timeout_length [of plat enable timeout] by (simp_all add: T_def)
  have TU: "T = (if timeout > 0 \<and> enable \<noteq> 0 then U else 0)"
    by (simp add: T_def U_def length_wire_timeout)
  have b: "ipset_build plat enable ipsetname addr addr_len timeout operate af = Some ?buf"
    by (rule ipset_build_buffer [OF assms(1) a16 assms(3)])
  have m: "msg_attrs plat ?buf = Some ?attrs" by (rule msg_attrs_buffer [OF assms(1) l16])
  have ne: "?attrs \<noteq> []" by (simp add: wire_tree_def Let_def)
  have l: "nlmsg_len plat ?buf = 36 + S + A + T"
    by (simp add: nlmsg_len_buffer [OF assms(1) l16] length_wire_body la S_def A_def T_def)
  have lip: "length (wire_ip plat ?addr af) = 4 + A"
    by (simp add: wire_ip_def wire_nested_def length_wire_attr la A_def)
  have al: "NETLINK_ALIGN (a + b) = a + b" if "a mod 4 = 0" "b mod 4 = 0" for a b
    using that by (intro NETLINK_ALIGN_aligned) presburger
  have last_all: "NETLINK_ALIGN (nla_off (last (all_attrs ?attrs)) + nla_len (last (all_attrs ?attrs)))
                    = 36 + S + A + T"
  proof (cases "timeout > 0 \<and> enable \<noteq> 0")
    case True
    have "NETLINK_ALIGN (36 + S + A + (4 + sizeof_ulong (data_model plat))) = 36 + S + A + U"
      unfolding U_def using S4 A4 by (intro NETLINK_ALIGN_add) presburger
    then show ?thesis
      using True
      by (simp add: all_attrs_wire_tree wire_timeout_tree_def nla_len_def sizeof_ipset_netlink_attr_def
            la TU S5 A_def [symmetric] add.assoc)
  next
    case False
    have "NETLINK_ALIGN (36 + S + (4 + addr_len)) = 36 + S + A"
      unfolding A_def using S4 by (intro NETLINK_ALIGN_add) presburger
    then show ?thesis
      using False
      by (auto simp: all_attrs_wire_tree wire_timeout_tree_def nla_len_def sizeof_ipset_netlink_attr_def
            la TU S5 add.assoc)
  qed
  have last_top: "NETLINK_ALIGN (nla_off (last ?attrs) + nla_len (last ?attrs)) = 36 + S + A + T"
  proof -
    have "NETLINK_ALIGN (28 + S + (4 + (4 + A + T))) = 28 + S + (4 + (4 + A + T))"
      using S4 A4 T4 by (intro NETLINK_ALIGN_aligned) presburger
    then show ?thesis
      by (simp add: wire_tree_def Let_def nla_len_def sizeof_ipset_netlink_attr_def lip
            S5 T_def [symmetric])
  qed
  have spans: "sum_list (map attr_span ?attrs) = 16 + S + A + T"
  proof -
    have "NETLINK_ALIGN (4 + (4 + A + T)) = 4 + (4 + A + T)"
      using A4 T4 by (intro NETLINK_ALIGN_aligned) presburger
    then show ?thesis
      by (simp add: wire_tree_def Let_def attr_span_def nla_len_def sizeof_ipset_netlink_attr_def lip
            strlen_c_str S5 T_def [symmetric] NETLINK_ALIGN_def [of 5])
  qed
  have hd: "NETLINK_ALIGN sizeof_nlmsghdr + NETLINK_ALIGN sizeof_ipset_netlink_msg = 20"
    by (simp add: NETLINK_ALIGN_def sizeof_nlmsghdr_def sizeof_ipset_netlink_msg_def)
  have offs: "\<forall>a \<in> set (all_attrs ?attrs).
                nla_off a mod 4 = 0 \<and> (nla_off a + NETLINK_ALIGN sizeof_ipset_netlink_attr) mod 4 = 0"
  proof -
    have o: "(28 + S) mod 4 = 0" "(28 + S + 4) mod 4 = 0" "(28 + S + 8) mod 4 = 0"
      "(28 + S + 8 + A) mod 4 = 0"
      "(28 + S + 4 + 4) mod 4 = 0" "(28 + S + 8 + 4) mod 4 = 0" "(28 + S + 8 + A + 4) mod 4 = 0"
      using S4 A4 by presburger+
    show ?thesis
      using o
      by (simp add: all_attrs_wire_tree wire_timeout_tree_def sizeof_ipset_netlink_attr_def la
            S5 A_def [symmetric] NETLINK_ALIGN_def [of 4])
  qed
  show "\<exists>buf attrs.
            ipset_build plat enable ipsetname addr addr_len timeout operate af = Some buf
          \<and> msg_attrs plat buf = Some attrs \<and> attrs \<noteq> []
          \<and> nlmsg_len plat buf mod 4 = 0
          \<and> nlmsg_len plat buf \<le> BUFF_SZ
          \<and> nlmsg_len plat buf
               = NETLINK_ALIGN (nla_off (last (all_attrs attrs)) + nla_len (last (all_attrs attrs)))
          \<and> nlmsg_len plat buf = NETLINK_ALIGN (nla_off (last attrs) + nla_len (last attrs))
          \<and> nlmsg_len plat buf
               = NETLINK_ALIGN sizeof_nlmsghdr + NETLINK_ALIGN sizeof_ipset_netlink_msg
                 + sum_list (map attr_span attrs)
          \<and> (\<forall>a \<in> set (all_attrs attrs).
                nla_off a mod 4 = 0 \<and> (nla_off a + NETLINK_ALIGN sizeof_ipset_netlink_attr) mod 4 = 0)"
  proof (intro exI [of _ ?buf] exI [of _ ?attrs] conjI b m ne offs)
    show "nlmsg_len plat ?buf mod 4 = 0" unfolding l using S4 A4 T4 by presburger
    show "nlmsg_len plat ?buf \<le> BUFF_SZ" unfolding l using S36 A20 T12 by (simp add: BUFF_SZ_def)
    show "nlmsg_len plat ?buf
            = NETLINK_ALIGN (nla_off (last (all_attrs ?attrs)) + nla_len (last (all_attrs ?attrs)))"
      by (simp only: l last_all)
    show "nlmsg_len plat ?buf = NETLINK_ALIGN (nla_off (last ?attrs) + nla_len (last ?attrs))"
      by (simp only: l last_top)
    show "nlmsg_len plat ?buf
            = NETLINK_ALIGN sizeof_nlmsghdr + NETLINK_ALIGN sizeof_ipset_netlink_msg
              + sum_list (map attr_span ?attrs)"
      by (simp only: l hd spans)
  qed
next
  assume s: "length buf0 = BUFF_SZ \<and> 4 \<le> nlmsg_len plat buf0 \<and> nlmsg_len plat buf0 mod 4 = 0
              \<and> nlmsg_len plat buf0 + NETLINK_ALIGN (4 + len) \<le> BUFF_SZ \<and> len \<le> length data"
  have N: "BUFF_SZ < 65536" by (simp add: BUFF_SZ_def)
  from s obtain buf' where r: "ipset_add_attr plat buf0 ty len data = Some buf'"
      "nlmsg_len plat buf' = NETLINK_ALIGN (nlmsg_len plat buf0 + (4 + len))"
      "load plat 2 buf' (nlmsg_len plat buf0 + off_attr_len) = 4 + len"
      "load plat 2 buf' (nlmsg_len plat buf0 + off_attr_type) = ty mod 65536"
      "take len (drop (nlmsg_len plat buf0 + NETLINK_ALIGN sizeof_ipset_netlink_attr) buf') = take len data"
    using add_attr_step [of buf0 BUFF_SZ plat "nlmsg_len plat buf0" len data ty] N by auto
  show "\<exists>buf'. ipset_add_attr plat buf0 ty len data = Some buf'
           \<and> nlmsg_len plat buf' = NETLINK_ALIGN (nlmsg_len plat buf0 + (4 + len))
           \<and> nlmsg_len plat buf' mod 4 = 0
           \<and> load plat 2 buf' (nlmsg_len plat buf0 + off_attr_len) = 4 + len
           \<and> load plat 2 buf' (nlmsg_len plat buf0 + off_attr_type) = ty mod 65536
           \<and> take len (drop (nlmsg_len plat buf0 + NETLINK_ALIGN sizeof_ipset_netlink_attr) buf')
                = take len data"
    using r by (intro exI [of _ buf']) (simp add: NETLINK_ALIGN_mod4)
qed

theorem total_length_is_aligned_end_witness:
  "strlen (c_bytes ''blocklist'') < IPSET_MAXNAMELEN \<and> ((4::nat) = 4 \<or> (4::nat) = 16) \<and> 4 \<le> length addr_v4
   \<and> (\<exists>buf attrs. ipset_build x86_64 1 (c_bytes ''blocklist'') addr_v4 4 30 IPSET_ADD AF_INET = Some buf
          \<and> msg_attrs x86_64 buf = Some attrs
          \<and> nlmsg_len x86_64 buf mod 4 = 0
          \<and> nlmsg_len x86_64 buf
               = NETLINK_ALIGN (nla_off (last (all_attrs attrs)) + nla_len (last (all_attrs attrs)))
          \<and> (\<forall>a \<in> set (all_attrs attrs). (nla_off a + NETLINK_ALIGN sizeof_ipset_netlink_attr) mod 4 = 0))
   \<and> length (wire_frame x86_64 20 (replicate 16 0)) = BUFF_SZ
   \<and> nlmsg_len x86_64 (wire_frame x86_64 20 (replicate 16 0)) = 20
   \<and> (\<exists>buf'. ipset_add_attr x86_64 (wire_frame x86_64 20 (replicate 16 0)) IPSET_ATTR_PROTOCOL 1 [6] = Some buf'
          \<and> nlmsg_len x86_64 buf' = 28
          \<and> load x86_64 2 buf' 20 = 5
          \<and> take 1 (drop 24 buf') = [6])"
proof -
  have h: "strlen (c_bytes ''blocklist'') < IPSET_MAXNAMELEN" "(4::nat) = 4 \<or> (4::nat) = 16"
    "4 \<le> length addr_v4"
    by (simp_all add: strlen_blocklist IPSET_MAXNAMELEN_def addr_v4_def)
  have f: "length (wire_frame x86_64 20 (replicate 16 0)) = BUFF_SZ"
    "nlmsg_len x86_64 (wire_frame x86_64 20 (replicate 16 0)) = 20"
    by (simp_all add: length_wire_frame nlmsg_len_frame BUFF_SZ_def)
  have s: "length (wire_frame x86_64 20 (replicate 16 0)) = BUFF_SZ
             \<and> 4 \<le> nlmsg_len x86_64 (wire_frame x86_64 20 (replicate 16 0))
             \<and> nlmsg_len x86_64 (wire_frame x86_64 20 (replicate 16 0)) mod 4 = 0
             \<and> nlmsg_len x86_64 (wire_frame x86_64 20 (replicate 16 0)) + NETLINK_ALIGN (4 + 1) \<le> BUFF_SZ
             \<and> 1 \<le> length [6 :: byte]"
    by (simp add: f) (simp add: BUFF_SZ_def NETLINK_ALIGN_def)
  note t = total_length_is_aligned_end [OF h, of x86_64 1 30 IPSET_ADD AF_INET
             "wire_frame x86_64 20 (replicate 16 0)" 1 "[6]" IPSET_ATTR_PROTOCOL]
  from t [THEN conjunct1] obtain buf attrs where
      ba: "ipset_build x86_64 1 (c_bytes ''blocklist'') addr_v4 4 30 IPSET_ADD AF_INET = Some buf"
        "msg_attrs x86_64 buf = Some attrs" "nlmsg_len x86_64 buf mod 4 = 0"
        "nlmsg_len x86_64 buf
           = NETLINK_ALIGN (nla_off (last (all_attrs attrs)) + nla_len (last (all_attrs attrs)))"
        "\<forall>a \<in> set (all_attrs attrs).
           nla_off a mod 4 = 0 \<and> (nla_off a + NETLINK_ALIGN sizeof_ipset_netlink_attr) mod 4 = 0"
    by auto
  have final: "\<exists>buf attrs. ipset_build x86_64 1 (c_bytes ''blocklist'') addr_v4 4 30 IPSET_ADD AF_INET = Some buf
          \<and> msg_attrs x86_64 buf = Some attrs
          \<and> nlmsg_len x86_64 buf mod 4 = 0
          \<and> nlmsg_len x86_64 buf
               = NETLINK_ALIGN (nla_off (last (all_attrs attrs)) + nla_len (last (all_attrs attrs)))
          \<and> (\<forall>a \<in> set (all_attrs attrs). (nla_off a + NETLINK_ALIGN sizeof_ipset_netlink_attr) mod 4 = 0)"
    using ba by (intro exI [of _ buf] exI [of _ attrs]) simp
  from t [THEN conjunct2, THEN mp, OF s]
  obtain buf' where
      "ipset_add_attr x86_64 (wire_frame x86_64 20 (replicate 16 0)) IPSET_ATTR_PROTOCOL 1 [6] = Some buf'"
      "nlmsg_len x86_64 buf' = NETLINK_ALIGN (nlmsg_len x86_64 (wire_frame x86_64 20 (replicate 16 0)) + (4 + 1))"
      "load x86_64 2 buf' (nlmsg_len x86_64 (wire_frame x86_64 20 (replicate 16 0)) + off_attr_len) = 4 + 1"
      "take 1 (drop (nlmsg_len x86_64 (wire_frame x86_64 20 (replicate 16 0)) + NETLINK_ALIGN sizeof_ipset_netlink_attr) buf')
         = take 1 [6]"
    by auto
  then have step: "\<exists>buf'. ipset_add_attr x86_64 (wire_frame x86_64 20 (replicate 16 0)) IPSET_ATTR_PROTOCOL 1 [6] = Some buf'
          \<and> nlmsg_len x86_64 buf' = 28 \<and> load x86_64 2 buf' 20 = 5 \<and> take 1 (drop 24 buf') = [6]"
    by (intro exI [of _ buf'])
       (simp add: f NETLINK_ALIGN_def off_attr_len_def sizeof_ipset_netlink_attr_def)
  show ?thesis
    by (intro conjI h f final step)
qed

text \<open>
  C2. \<open>add("blocklist", [192,168,1,1], 0)\<close> with timeouts disabled builds a message of
  60 bytes: 16 for the netlink header, 4 for the protocol header, 8 for PROTOCOL, 16 for
  SETNAME (a 4-byte header, the 9 letters, the NUL and 2 bytes of padding) and 16 for
  DATA, which holds its own 4-byte header and IP, which holds its 4-byte header and the
  8-byte IPv4 address attribute. There is no TIMEOUT attribute.
\<close>

theorem blocklist_message_layout:
  "\<exists>buf attrs.
       ipset_build plat 0 (c_bytes ''blocklist'') addr_v4 4 0 IPSET_ADD AF_INET = Some buf
     \<and> msg_attrs plat buf = Some attrs
     \<and> nlmsg_len plat buf = 60
     \<and> NETLINK_ALIGN sizeof_nlmsghdr = 16 \<and> NETLINK_ALIGN sizeof_ipset_netlink_msg = 4
     \<and> map attr_span attrs = [8, 16, 16]
     \<and> nlmsg_len plat buf
           = NETLINK_ALIGN sizeof_nlmsghdr + NETLINK_ALIGN sizeof_ipset_netlink_msg + sum_list (map attr_span attrs)
     \<and> map nla_type (all_attrs attrs)
           = [IPSET_ATTR_PROTOCOL, IPSET_ATTR_SETNAME, NLA_F_NESTED OR IPSET_ATTR_DATA,
              NLA_F_NESTED OR IPSET_ATTR_IP, IPSET_ATTR_IPADDR_IPV4 OR NLA_F_NET_BYTEORDER]
     \<and> map nla_off (all_attrs attrs) = [20, 28, 44, 48, 52]
     \<and> map nla_len (all_attrs attrs) = [5, 14, 16, 12, 8]
     \<and> nla_payload (attrs ! 1) = c_bytes ''blocklist'' @ [0]
     \<and> nla_payload (last (all_attrs attrs)) = addr_v4
     \<and> timeout_attr plat buf = None"
proof -
  have n: "strlen (c_bytes ''blocklist'') < IPSET_MAXNAMELEN"
    by (simp add: strlen_blocklist IPSET_MAXNAMELEN_def)
  have a: "(4::nat) \<le> 16" "4 \<le> length addr_v4" "length addr_v4 \<le> 16" "take 4 addr_v4 = addr_v4"
    "length addr_v4 = 4"
    by (simp_all add: addr_v4_def)
  let ?buf = "wire_buffer plat 0 (c_bytes ''blocklist'') addr_v4 0 IPSET_ADD AF_INET"
  let ?attrs = "wire_tree plat 0 (c_bytes ''blocklist'') addr_v4 0 AF_INET"
  have b: "ipset_build plat 0 (c_bytes ''blocklist'') addr_v4 4 0 IPSET_ADD AF_INET = Some ?buf"
    by (simp add: ipset_build_buffer [OF n a(1,2)] a(4))
  have m: "msg_attrs plat ?buf = Some ?attrs" by (rule msg_attrs_buffer [OF n a(3)])
  have l: "nlmsg_len plat ?buf = 60"
    by (simp add: nlmsg_len_buffer [OF n a(3)] length_wire_body wire_timeout_none strlen_blocklist a(5)
          NETLINK_ALIGN_def)
  have lip: "length (wire_ip plat addr_v4 AF_INET) = 12"
    by (simp add: wire_ip_def wire_nested_def length_wire_attr a(5) NETLINK_ALIGN_def)
  have h: "NETLINK_ALIGN sizeof_nlmsghdr = 16" "NETLINK_ALIGN sizeof_ipset_netlink_msg = 4"
    by (simp_all add: NETLINK_ALIGN_def sizeof_nlmsghdr_def sizeof_ipset_netlink_msg_def)
  have sp: "map attr_span ?attrs = [8, 16, 16]"
    by (simp add: wire_tree_def Let_def attr_span_def nla_len_def sizeof_ipset_netlink_attr_def
          wire_timeout_none wire_timeout_tree_none strlen_c_str strlen_blocklist lip NETLINK_ALIGN_def)
  have ty: "map nla_type (all_attrs ?attrs)
              = [IPSET_ATTR_PROTOCOL, IPSET_ATTR_SETNAME, NLA_F_NESTED OR IPSET_ATTR_DATA,
                 NLA_F_NESTED OR IPSET_ATTR_IP, IPSET_ATTR_IPADDR_IPV4 OR NLA_F_NET_BYTEORDER]"
    by (simp add: wire_tree_def Let_def all_attrs_def wire_timeout_tree_none)
  have off: "map nla_off (all_attrs ?attrs) = [20, 28, 44, 48, 52]"
    by (simp add: wire_tree_def Let_def all_attrs_def wire_timeout_tree_none strlen_blocklist NETLINK_ALIGN_def)
  have len: "map nla_len (all_attrs ?attrs) = [5, 14, 16, 12, 8]"
    by (simp add: wire_tree_def Let_def all_attrs_def wire_timeout_tree_none wire_timeout_none nla_len_def
          sizeof_ipset_netlink_attr_def strlen_c_str strlen_blocklist lip a(5))
  have pn: "nla_payload (?attrs ! 1) = c_bytes ''blocklist'' @ [0]"
    by (simp add: wire_tree_def Let_def c_str_blocklist)
  have pa: "nla_payload (last (all_attrs ?attrs)) = addr_v4"
    by (simp add: wire_tree_def Let_def all_attrs_def wire_timeout_tree_none)
  have t: "timeout_attr plat ?buf = None"
    by (simp add: timeout_attr_buffer [OF n a(3)])
  show ?thesis
    apply (rule exI [of _ ?buf], rule exI [of _ ?attrs])
    apply (simp only: b m l h sp ty off len pn pa t)
    apply simp
    done
qed

theorem blocklist_breakdown_counterexample:
  "map_option (\<lambda>buf. (NETLINK_ALIGN sizeof_nlmsghdr, map_option (map attr_span) (msg_attrs x86_64 buf)))
       (ipset_build x86_64 0 (c_bytes ''blocklist'') addr_v4 4 0 IPSET_ADD AF_INET)
     = Some (16, Some [8, 16, 16])
   \<and> (16 :: nat, Some [8 :: nat, 16, 16]) \<noteq> (20, Some [8, 12, 16])"
proof -
  have n: "strlen (c_bytes ''blocklist'') < IPSET_MAXNAMELEN"
    by (simp add: strlen_blocklist IPSET_MAXNAMELEN_def)
  have a: "(4::nat) \<le> 16" "4 \<le> length addr_v4" "length addr_v4 \<le> 16" "take 4 addr_v4 = addr_v4"
    "length addr_v4 = 4"
    by (simp_all add: addr_v4_def)
  have lip: "length (wire_ip x86_64 addr_v4 AF_INET) = 12"
    by (simp add: wire_ip_def wire_nested_def length_wire_attr a(5) NETLINK_ALIGN_def)
  have sp: "map attr_span (wire_tree x86_64 0 (c_bytes ''blocklist'') addr_v4 0 AF_INET) = [8, 16, 16]"
    by (simp add: wire_tree_def Let_def attr_span_def nla_len_def sizeof_ipset_netlink_attr_def
          wire_timeout_none wire_timeout_tree_none strlen_c_str strlen_blocklist lip NETLINK_ALIGN_def)
  have h: "NETLINK_ALIGN sizeof_nlmsghdr = 16"
    by (simp add: NETLINK_ALIGN_def sizeof_nlmsghdr_def)
  show ?thesis
    by (simp add: ipset_build_buffer [OF n a(1,2)] a(4) msg_attrs_buffer [OF n a(3)] sp h)
qed

text \<open>
  C3. On a host with an 8-byte \<^verbatim>\<open>unsigned long\<close>, \<open>add\<close> of a 16-byte address with
  timeout 30 and timeouts enabled puts a TIMEOUT attribute inside DATA whose payload is 8
  bytes long, the 4 bytes of \<^verbatim>\<open>htonl(30)\<close> followed by 4 zero bytes, and whose
  declared length is 12; the 4 bytes of \<^verbatim>\<open>htonl(30)\<close> alone are \<open>[0, 0, 0, 30]\<close>.
\<close>

theorem timeout_payload_is_sizeof_unsigned_long:
  "Option.bind (ipset_build x86_64 1 (c_bytes ''blocklist'') addr_v6 16 30 IPSET_ADD AF_INET6)
       (timeout_attr x86_64)
     = Some (NLAttr 72 (IPSET_ATTR_TIMEOUT OR NLA_F_NET_BYTEORDER) [0, 0, 0, 30, 0, 0, 0, 0] [])
   \<and> nla_len (NLAttr 72 (IPSET_ATTR_TIMEOUT OR NLA_F_NET_BYTEORDER) [0, 0, 0, 30, 0, 0, 0, 0] []) = 12
   \<and> be_bytes 4 30 = [0, 0, 0, 30]
   \<and> [0, 0, 0, 30, 0, 0, 0, 0] \<noteq> be_bytes 4 30"
proof -
  have n: "strlen (c_bytes ''blocklist'') < IPSET_MAXNAMELEN"
    by (simp add: strlen_blocklist IPSET_MAXNAMELEN_def)
  have a: "(16::nat) \<le> 16" "16 \<le> length addr_v6" "length addr_v6 \<le> 16"
    "take 16 addr_v6 = addr_v6" "length addr_v6 = 16"
    by (simp_all add: addr_v6_def)
  show ?thesis
    by (simp add: ipset_build_buffer [OF n a(1,2)] timeout_attr_buffer [OF n a(3)] a(4,5)
          timeout_payload_x86_64 be_bytes_4_30 strlen_blocklist NETLINK_ALIGN_def nla_len_def
          sizeof_ipset_netlink_attr_def)
qed

text \<open>
  C4. A set name shorter than 32 bytes never makes add or delete fail with
  \<open>NameTooLong\<close>. A set name of 32 bytes or more makes both fail with \<open>NameTooLong\<close>
  when the address length is 4 or 16 and the socket is open already or can be opened;
  the length of the address and the socket are looked at before the name.
\<close>

theorem name_too_long_after_address_and_socket:
  "(strlen ipsetname < IPSET_MAXNAMELEN \<longrightarrow>
      ipset_add plat k ipsetname addr addr_len timeout w \<noteq> Some (Inl NameTooLong, w')
      \<and> ipset_del plat k ipsetname addr addr_len w \<noteq> Some (Inl NameTooLong, w'))
   \<and> (IPSET_MAXNAMELEN \<le> strlen ipsetname \<and> (addr_len = 4 \<or> addr_len = 16)
        \<and> (ipset_fd w > 0 \<or> socket_ret k \<ge> 0) \<longrightarrow>
      ipset_add plat k ipsetname addr addr_len timeout w
        = Some (Inl NameTooLong, snd (ipset_socket_init k w))
      \<and> ipset_del plat k ipsetname addr addr_len w
        = Some (Inl NameTooLong, snd (ipset_socket_init k w)))"
proof (intro conjI impI)
  assume nm: "strlen ipsetname < IPSET_MAXNAMELEN"
  have "ipset_operate plat k ipsetname addr addr_len t operate w \<noteq> Some (Inl NameTooLong, w')" for t operate
    using nm
    by (auto simp: ipset_operate_def split: option.splits prod.splits if_splits)
  then show "ipset_add plat k ipsetname addr addr_len timeout w \<noteq> Some (Inl NameTooLong, w')"
    and "ipset_del plat k ipsetname addr addr_len w \<noteq> Some (Inl NameTooLong, w')"
    by (simp_all add: ipset_add_def ipset_del_def)
next
  assume a: "IPSET_MAXNAMELEN \<le> strlen ipsetname \<and> (addr_len = 4 \<or> addr_len = 16)
               \<and> (ipset_fd w > 0 \<or> socket_ret k \<ge> 0)"
  then have s: "fst (ipset_socket_init k w) = 0" by (simp add: socket_init_ok)
  show "ipset_add plat k ipsetname addr addr_len timeout w
          = Some (Inl NameTooLong, snd (ipset_socket_init k w))"
    unfolding ipset_add_def using a s by (intro ipset_operate_long_name) auto
  show "ipset_del plat k ipsetname addr addr_len w
          = Some (Inl NameTooLong, snd (ipset_socket_init k w))"
    unfolding ipset_del_def using a s by (intro ipset_operate_long_name) auto
qed

theorem name_too_long_after_address_and_socket_witness:
  "strlen (c_bytes ''blocklist'') < IPSET_MAXNAMELEN
   \<and> ipset_add x86_64 kernel_ok (c_bytes ''blocklist'') addr_v4 4 0 (fresh_world 0)
        \<noteq> Some (Inl NameTooLong, fresh_world 0)
   \<and> ipset_del x86_64 kernel_ok (c_bytes ''blocklist'') addr_v4 4 (fresh_world 0)
        \<noteq> Some (Inl NameTooLong, fresh_world 0)
   \<and> IPSET_MAXNAMELEN \<le> strlen (replicate 32 (97 :: byte))
   \<and> ipset_add x86_64 kernel_ok (replicate 32 97) addr_v4 4 0 (fresh_world 0)
        = Some (Inl NameTooLong, \<lparr>ipset_fd = 3, dns_conf_ipset_timeout_enable = 0, events = [Socket_call]\<rparr>)
   \<and> ipset_del x86_64 kernel_ok (replicate 32 97) addr_v4 4 (fresh_world 0)
        = Some (Inl NameTooLong, \<lparr>ipset_fd = 3, dns_conf_ipset_timeout_enable = 0, events = [Socket_call]\<rparr>)"
  using name_too_long_after_address_and_socket
          [of "c_bytes ''blocklist''" x86_64 kernel_ok addr_v4 4 0 "fresh_world 0" "fresh_world 0"]
        name_too_long_after_address_and_socket
          [of "replicate 32 97" x86_64 kernel_ok addr_v4 4 0 "fresh_world 0" "fresh_world 0"]
  by (simp add: strlen_blocklist strlen_replicate IPSET_MAXNAMELEN_def kernel_ok_def fresh_world_def
        ipset_socket_init_def)

theorem name_too_long_counterexample:
  "IPSET_MAXNAMELEN \<le> strlen (replicate 32 (97 :: byte))
   \<and> ipset_add x86_64 kernel_nosocket (replicate 32 97) addr_v4 4 0 (fresh_world 0)
        = Some (Inl SocketCreationFailed,
                \<lparr>ipset_fd = -1, dns_conf_ipset_timeout_enable = 0, events = [Socket_call]\<rparr>)
   \<and> ipset_del x86_64 kernel_nosocket (replicate 32 97) addr_v4 4 (fresh_world 0)
        = Some (Inl SocketCreationFailed,
                \<lparr>ipset_fd = -1, dns_conf_ipset_timeout_enable = 0, events = [Socket_call]\<rparr>)"
proof -
  have s: "fst (ipset_socket_init kernel_nosocket (fresh_world 0)) \<noteq> 0"
    by (simp add: socket_init_ok kernel_nosocket_def fresh_world_def)
  have w: "snd (ipset_socket_init kernel_nosocket (fresh_world 0))
             = \<lparr>ipset_fd = -1, dns_conf_ipset_timeout_enable = 0, events = [Socket_call]\<rparr>"
    by (simp add: ipset_socket_init_def kernel_nosocket_def fresh_world_def)
  show ?thesis
    by (simp add: ipset_add_def ipset_del_def ipset_operate_no_socket [OF _ s] w strlen_replicate
          IPSET_MAXNAMELEN_def)
qed

text \<open>
  C5. The family comes from \<^verbatim>\<open>addr_len\<close> alone: 4 gives \<^verbatim>\<open>AF_INET\<close>, 16 gives
  \<^verbatim>\<open>AF_INET6\<close>, any other length ends the call with \<open>InvalidAddress\<close>. The message
  sent is built with that family, and for an address of 16 bytes its address attribute
  carries the type \<^verbatim>\<open>IPSET_ATTR_IPADDR_IPV6 | NLA_F_NET_BYTEORDER\<close>, which is not the
  IPv4 one, and the protocol header carries \<^verbatim>\<open>AF_INET6\<close>.
\<close>

theorem family_from_address_length:
  "addr_family 4 = Some AF_INET \<and> addr_family 16 = Some AF_INET6
   \<and> (addr_len \<noteq> 4 \<and> addr_len \<noteq> 16 \<longrightarrow>
        addr_family addr_len = None
        \<and> ipset_operate plat k ipsetname addr addr_len timeout operate w = Some (Inl InvalidAddress, w))
   \<and> ((addr_len = 4 \<or> addr_len = 16) \<and> strlen ipsetname < IPSET_MAXNAMELEN
        \<and> int (length addr) = addr_len \<and> (ipset_fd w > 0 \<or> socket_ret k \<ge> 0) \<longrightarrow>
        (\<exists>buf. ipset_build plat (dns_conf_ipset_timeout_enable w) ipsetname addr (nat addr_len) timeout operate
                  (the (addr_family addr_len)) = Some buf
              \<and> ipset_operate plat k ipsetname addr addr_len timeout operate w
                  = map_option (\<lambda>(rc, w2). (Inr rc, w2))
                      (sendto_loop k (take (nlmsg_len plat buf) buf) 0 (snd (ipset_socket_init k w)))
              \<and> map_option nla_payload (ipaddr_attr plat buf) = Some addr
              \<and> (addr_len = 4 \<longrightarrow>
                    msg_family plat buf = AF_INET
                    \<and> map_option nla_type (ipaddr_attr plat buf)
                         = Some (IPSET_ATTR_IPADDR_IPV4 OR NLA_F_NET_BYTEORDER))
              \<and> (addr_len = 16 \<longrightarrow>
                    msg_family plat buf = AF_INET6
                    \<and> map_option nla_type (ipaddr_attr plat buf)
                         = Some (IPSET_ATTR_IPADDR_IPV6 OR NLA_F_NET_BYTEORDER)
                    \<and> map_option nla_type (ipaddr_attr plat buf)
                         \<noteq> Some (IPSET_ATTR_IPADDR_IPV4 OR NLA_F_NET_BYTEORDER))))"
proof (intro conjI impI)
  show "addr_family 4 = Some AF_INET" "addr_family 16 = Some AF_INET6"
    by (simp_all add: addr_family_def IPV4_ADDR_LEN_def IPV6_ADDR_LEN_def)
next
  assume "addr_len \<noteq> 4 \<and> addr_len \<noteq> 16"
  then show "addr_family addr_len = None"
    and "ipset_operate plat k ipsetname addr addr_len timeout operate w = Some (Inl InvalidAddress, w)"
    by (simp_all add: addr_family_def IPV4_ADDR_LEN_def IPV6_ADDR_LEN_def ipset_operate_invalid_addr)
next
  let ?en = "dns_conf_ipset_timeout_enable w"
  assume a: "(addr_len = 4 \<or> addr_len = 16) \<and> strlen ipsetname < IPSET_MAXNAMELEN
               \<and> int (length addr) = addr_len \<and> (ipset_fd w > 0 \<or> socket_ret k \<ge> 0)"
  then have al: "addr_len = 4 \<or> addr_len = 16" and nm: "strlen ipsetname < IPSET_MAXNAMELEN"
    and la: "nat addr_len = length addr" and s: "fst (ipset_socket_init k w) = 0"
    by (auto simp: socket_init_ok)
  have l16: "length addr \<le> 16" using al la by auto
  have af: "the (addr_family addr_len) = (if addr_len = 4 then AF_INET else AF_INET6)"
    by (simp add: addr_family_valid [OF al])
  let ?buf = "wire_buffer plat ?en ipsetname addr timeout operate (the (addr_family addr_len))"
  have b: "ipset_build plat ?en ipsetname addr (nat addr_len) timeout operate (the (addr_family addr_len)) = Some ?buf"
    using ipset_build_buffer [OF nm, of "nat addr_len" addr plat ?en timeout operate] la l16 by simp
  have snd: "ipset_operate plat k ipsetname addr addr_len timeout operate w
               = map_option (\<lambda>(rc, w2). (Inr rc, w2))
                   (sendto_loop k (take (nlmsg_len plat ?buf) ?buf) 0 (snd (ipset_socket_init k w)))"
    using ipset_operate_sends [OF al s nm, of addr plat timeout operate] la
    by (simp add: take_wire_buffer [OF nm l16] af)
  have ne: "IPSET_ATTR_IPADDR_IPV6 OR NLA_F_NET_BYTEORDER \<noteq> IPSET_ATTR_IPADDR_IPV4 OR NLA_F_NET_BYTEORDER"
    by (simp add: type_values)
  show "\<exists>buf. ipset_build plat ?en ipsetname addr (nat addr_len) timeout operate
                  (the (addr_family addr_len)) = Some buf
              \<and> ipset_operate plat k ipsetname addr addr_len timeout operate w
                  = map_option (\<lambda>(rc, w2). (Inr rc, w2))
                      (sendto_loop k (take (nlmsg_len plat buf) buf) 0 (snd (ipset_socket_init k w)))
              \<and> map_option nla_payload (ipaddr_attr plat buf) = Some addr
              \<and> (addr_len = 4 \<longrightarrow>
                    msg_family plat buf = AF_INET
                    \<and> map_option nla_type (ipaddr_attr plat buf)
                         = Some (IPSET_ATTR_IPADDR_IPV4 OR NLA_F_NET_BYTEORDER))
              \<and> (addr_len = 16 \<longrightarrow>
                    msg_family plat buf = AF_INET6
                    \<and> map_option nla_type (ipaddr_attr plat buf)
                         = Some (IPSET_ATTR_IPADDR_IPV6 OR NLA_F_NET_BYTEORDER)
                    \<and> map_option nla_type (ipaddr_attr plat buf)
                         \<noteq> Some (IPSET_ATTR_IPADDR_IPV4 OR NLA_F_NET_BYTEORDER))"
    apply (rule exI [of _ ?buf])
    apply (intro conjI)
        apply (rule b)
       apply (rule snd)
      apply (simp add: ipaddr_attr_buffer [OF nm l16])
     apply (simp add: ipaddr_attr_buffer [OF nm l16] msg_family_buffer AF_INET_def
              addr_family_def IPV4_ADDR_LEN_def IPV6_ADDR_LEN_def)
    apply (simp add: ipaddr_attr_buffer [OF nm l16] msg_family_buffer AF_INET_def AF_INET6_def ne
             addr_family_def IPV4_ADDR_LEN_def IPV6_ADDR_LEN_def)
    done
qed

theorem family_from_address_length_witness:
  "ipset_operate x86_64 kernel_ok (c_bytes ''blocklist'') addr_v6 7 30 IPSET_ADD (open_world 1)
     = Some (Inl InvalidAddress, open_world 1)
   \<and> (\<exists>buf. ipset_build x86_64 1 (c_bytes ''blocklist'') addr_v6 16 30 IPSET_ADD AF_INET6 = Some buf
          \<and> msg_family x86_64 buf = AF_INET6
          \<and> map_option nla_payload (ipaddr_attr x86_64 buf) = Some addr_v6
          \<and> map_option nla_type (ipaddr_attr x86_64 buf) = Some (IPSET_ATTR_IPADDR_IPV6 OR NLA_F_NET_BYTEORDER))
   \<and> (\<exists>buf. ipset_build x86_64 1 (c_bytes ''blocklist'') addr_v4 4 30 IPSET_ADD AF_INET = Some buf
          \<and> msg_family x86_64 buf = AF_INET
          \<and> map_option nla_type (ipaddr_attr x86_64 buf) = Some (IPSET_ATTR_IPADDR_IPV4 OR NLA_F_NET_BYTEORDER))"
  using family_from_address_length [where addr_len = 7 and plat = x86_64 and k = kernel_ok
          and ipsetname = "c_bytes ''blocklist''" and addr = addr_v6 and timeout = 30
          and operate = IPSET_ADD and w = "open_world 1"]
    family_from_address_length [where addr_len = 16 and plat = x86_64 and k = kernel_ok
          and ipsetname = "c_bytes ''blocklist''" and addr = addr_v6 and timeout = 30
          and operate = IPSET_ADD and w = "open_world 1"]
    family_from_address_length [where addr_len = 4 and plat = x86_64 and k = kernel_ok
          and ipsetname = "c_bytes ''blocklist''" and addr = addr_v4 and timeout = 30
          and operate = IPSET_ADD and w = "open_world 1"]
  by (auto simp: strlen_blocklist IPSET_MAXNAMELEN_def open_world_def addr_v6_def addr_v4_def)

text \<open>
  C6. Round trip. For a valid set name, an address of 4 or 16 bytes and a timeout below
  \<open>2 ^ 32\<close>, reading the built ADD message back through the attribute layout gives the
  set name, the address bytes and, where a TIMEOUT attribute is present, the timeout.
  The TIMEOUT payload is read as a 32-bit network-order value; the hosts with an 8-byte
  \<^verbatim>\<open>unsigned long\<close> and big-endian byte order are left out.
\<close>

theorem add_roundtrip:
  assumes "strlen ipsetname < IPSET_MAXNAMELEN"
    and "length addr = 4 \<or> length addr = 16"
    and "timeout < 2 ^ 32"
    and "\<not> (byte_order plat = Big \<and> data_model plat = LP64)"
  shows "\<exists>buf r. ipset_build plat enable ipsetname addr (length addr) timeout IPSET_ADD af = Some buf
           \<and> decode_request plat buf = Some r
           \<and> req_setname r = takeWhile (\<lambda>b. b \<noteq> 0) ipsetname
           \<and> (0 \<notin> set ipsetname \<longrightarrow> req_setname r = ipsetname)
           \<and> req_addr r = addr
           \<and> req_timeout r = (if timeout > 0 \<and> enable \<noteq> 0 then Some timeout else None)
           \<and> (timeout_attr plat buf \<noteq> None \<longrightarrow> req_timeout r = Some timeout)"
proof -
  have a16: "length addr \<le> 16" using assms(2) by auto
  have b: "ipset_build plat enable ipsetname addr (length addr) timeout IPSET_ADD af
             = Some (wire_buffer plat enable ipsetname addr timeout IPSET_ADD af)"
    using ipset_build_buffer [OF assms(1) a16, of addr plat enable timeout IPSET_ADD af] by simp
  have t: "be_val (take 4 (host_bytes plat (sizeof_ulong (data_model plat)) (htonl plat timeout))) = timeout"
    using assms(3) by (simp add: timeout_payload_head [OF assms(4)] be_val_be_bytes)
  have n: "0 \<notin> set ipsetname \<Longrightarrow> takeWhile (\<lambda>b. b \<noteq> 0) ipsetname = ipsetname"
    by (rule takeWhile_eq_all_conv [THEN iffD2]) auto
  show ?thesis
    unfolding b
    by (simp add: decode_request_buffer [OF assms(1) a16] timeout_attr_buffer [OF assms(1) a16] t n)
qed

theorem add_roundtrip_witness:
  "strlen (c_bytes ''blocklist'') < IPSET_MAXNAMELEN
   \<and> (length addr_v6 = 4 \<or> length addr_v6 = 16) \<and> (30 :: nat) < 2 ^ 32
   \<and> \<not> (byte_order x86_64 = Big \<and> data_model x86_64 = LP64)
   \<and> (\<exists>buf. ipset_build x86_64 1 (c_bytes ''blocklist'') addr_v6 16 30 IPSET_ADD AF_INET6 = Some buf
          \<and> decode_request x86_64 buf
               = Some \<lparr>req_setname = c_bytes ''blocklist'', req_addr = addr_v6, req_timeout = Some 30\<rparr>)"
proof -
  have h: "strlen (c_bytes ''blocklist'') < IPSET_MAXNAMELEN"
    "length addr_v6 = 4 \<or> length addr_v6 = 16" "(30 :: nat) < 2 ^ 32"
    "\<not> (byte_order x86_64 = Big \<and> data_model x86_64 = LP64)"
    by (simp_all add: strlen_blocklist IPSET_MAXNAMELEN_def addr_v6_def x86_64_def)
  have z: "0 \<notin> set (c_bytes ''blocklist'')" by (simp add: blocklist_bytes)
  have l: "length addr_v6 = 16" by (simp add: addr_v6_def)
  show ?thesis
    using h z add_roundtrip [OF h, of 1 AF_INET6] by (auto simp: l)
qed

theorem add_roundtrip_counterexample:
  "Option.bind (ipset_build x86_64 1 (c_bytes ''blocklist'') addr_v4 4 4294967326 IPSET_ADD AF_INET)
       (decode_request x86_64)
     = Some \<lparr>req_setname = c_bytes ''blocklist'', req_addr = addr_v4, req_timeout = Some 30\<rparr>
   \<and> Some (30 :: nat) \<noteq> Some 4294967326"
proof -
  have n: "strlen (c_bytes ''blocklist'') < IPSET_MAXNAMELEN"
    by (simp add: strlen_blocklist IPSET_MAXNAMELEN_def)
  have a: "(4::nat) \<le> 16" "4 \<le> length addr_v4" "length (take 4 addr_v4) \<le> 16" "take 4 addr_v4 = addr_v4"
    by (simp_all add: addr_v4_def)
  have p: "\<not> (byte_order x86_64 = Big \<and> data_model x86_64 = LP64)" by (simp add: x86_64_def)
  have t: "be_val (take 4 (host_bytes x86_64 (sizeof_ulong (data_model x86_64)) (htonl x86_64 4294967326))) = 30"
    by (simp add: timeout_payload_head [OF p] be_val_be_bytes)
  have z: "takeWhile (\<lambda>b. b \<noteq> 0) (c_bytes ''blocklist'') = c_bytes ''blocklist''"
    by (simp add: blocklist_bytes)
  show ?thesis
    using decode_request_buffer [OF n a(3), of x86_64 1 4294967326 IPSET_ADD AF_INET]
    by (simp add: ipset_build_buffer [OF n a(1,2)] a(4) t z)
qed

text \<open>
  C7. For a valid set name and address, on a socket that is or can be opened and a kernel
  that takes the message at the attempt numbered \<open>n\<close>, add and delete each hand one
  message to \<^verbatim>\<open>sendto\<close>, \<open>n + 1\<close> times. The two messages carry the operation codes 9
  and 10 in \<^verbatim>\<open>nlmsg_type\<close>, and the same flags, family and attributes, except that the
  DATA attribute of add also holds the TIMEOUT attribute when the timeout is positive and
  timeouts are enabled. The message of delete never holds a TIMEOUT attribute, whatever
  the flag; where that of add holds none, overwriting its type field with the delete code
  gives the message of delete.
\<close>

theorem delete_differs_in_operation_and_timeout:
  assumes nm: "strlen ipsetname < IPSET_MAXNAMELEN"
    and al: "addr_len = 4 \<or> addr_len = 16"
    and la: "int (length addr) = addr_len"
    and sock: "ipset_fd w > 0 \<or> socket_ret k \<ge> 0"
    and fails: "\<forall>j<n. sendto_ret k j < 0"
    and ok: "sendto_ret k n \<ge> 0"
    and w1: "w1 = snd (ipset_socket_init k w)"
  shows "\<exists>ma md.
           ipset_add plat k ipsetname addr addr_len timeout w
             = Some (Inr (sendto_ret k n),
                     w1\<lparr>events := events w1
                          @ concat (map (failed_attempt k (ipset_fd w1) ma) [0..<n])
                          @ [Sendto_call (ipset_fd w1) ma]\<rparr>)
         \<and> ipset_del plat k ipsetname addr addr_len w
             = Some (Inr (sendto_ret k n),
                     w1\<lparr>events := events w1
                          @ concat (map (failed_attempt k (ipset_fd w1) md) [0..<n])
                          @ [Sendto_call (ipset_fd w1) md]\<rparr>)
         \<and> IPSET_ADD = 9 \<and> IPSET_DEL = 10
         \<and> nlmsg_type plat ma = IPSET_ADD OR push_bit 8 NFNL_SUBSYS_IPSET
         \<and> nlmsg_type plat md = IPSET_DEL OR push_bit 8 NFNL_SUBSYS_IPSET
         \<and> nlmsg_type plat ma \<noteq> nlmsg_type plat md
         \<and> nlmsg_flags plat ma = nlmsg_flags plat md
         \<and> msg_family plat ma = msg_family plat md
         \<and> length ma = nlmsg_len plat ma \<and> length md = nlmsg_len plat md
         \<and> timeout_attr plat md = None
         \<and> (timeout_attr plat ma = None \<longleftrightarrow> timeout = 0 \<or> dns_conf_ipset_timeout_enable w = 0)
         \<and> (timeout = 0 \<or> dns_conf_ipset_timeout_enable w = 0 \<longrightarrow>
               store plat 2 ma off_nlmsg_type (IPSET_DEL OR push_bit 8 NFNL_SUBSYS_IPSET) = Some md)
         \<and> (\<exists>p s off ty ipb ip tb tt.
               msg_attrs plat md = Some [p, s, NLAttr off ty ipb [ip]]
               \<and> msg_attrs plat ma = Some [p, s, NLAttr off ty (ipb @ tb) (ip # tt)]
               \<and> parse_attrs plat (off + 4 + length ipb) tb = Some tt
               \<and> find_attr (IPSET_ATTR_TIMEOUT OR NLA_F_NET_BYTEORDER) tt = timeout_attr plat ma
               \<and> length tt = (if timeout = 0 \<or> dns_conf_ipset_timeout_enable w = 0 then 0 else 1))"
proof -
  define en where "en = dns_conf_ipset_timeout_enable w"
  define af where "af = (if addr_len = 4 then AF_INET else AF_INET6)"
  have a16: "length addr \<le> 16" and na: "nat addr_len = length addr" using al la by auto
  have s0: "fst (ipset_socket_init k w) = 0" using sock by (simp add: socket_init_ok)
  define ba where "ba = wire_buffer plat en ipsetname addr timeout IPSET_ADD af"
  define bd where "bd = wire_buffer plat en ipsetname addr 0 IPSET_DEL af"
  define ma where "ma = wire_msg plat en ipsetname addr timeout IPSET_ADD af"
  define md where "md = wire_msg plat en ipsetname addr 0 IPSET_DEL af"
  define La where "La = nlmsg_len plat ba"
  define Ld where "Ld = nlmsg_len plat bd"
  have ta: "ma = take La ba" and td: "md = take Ld bd"
    by (simp_all add: ma_def md_def La_def Ld_def ba_def bd_def take_wire_buffer [OF nm a16])
  have La: "44 \<le> La" "La \<le> length ba" and Ld: "44 \<le> Ld" "Ld \<le> length bd"
    using wire_body_bounds(2,3) [OF nm a16, of plat en timeout IPSET_ADD af]
      wire_body_bounds(2,3) [OF nm a16, of plat en 0 IPSET_DEL af]
    by (simp_all add: La_def Ld_def ba_def bd_def nlmsg_len_buffer [OF nm a16]
          length_wire_buffer [OF nm a16] BUFF_SZ_def)
  have la': "length ma = La" and ld': "length md = Ld" using La Ld by (simp_all add: ta td)
  have nla: "nlmsg_len plat ma = La" and nld: "nlmsg_len plat md = Ld"
    using La Ld by (simp_all add: ta td nlmsg_len_take La_def [symmetric] Ld_def [symmetric])
  have aa: "msg_attrs plat ma = msg_attrs plat ba" and ad: "msg_attrs plat md = msg_attrs plat bd"
    unfolding ta td using La Ld by (simp_all add: msg_attrs_take La_def Ld_def)
  have tma: "timeout_attr plat ma = timeout_attr plat ba" and tmd: "timeout_attr plat md = timeout_attr plat bd"
    by (simp_all add: timeout_attr_def data_attrs_def aa ad)
  have ty: "nlmsg_type plat ma = nlmsg_type plat ba" "nlmsg_type plat md = nlmsg_type plat bd"
    and fl: "nlmsg_flags plat ma = nlmsg_flags plat ba" "nlmsg_flags plat md = nlmsg_flags plat bd"
    and fa: "msg_family plat ma = msg_family plat ba" "msg_family plat md = msg_family plat bd"
    using La Ld
    by (simp_all add: ta td nlmsg_type_def nlmsg_flags_def msg_family_def load_take off_nlmsg_type_def
          off_nlmsg_flags_def off_msg_family_def NETLINK_ALIGN_def sizeof_nlmsghdr_def)
  have add: "ipset_add plat k ipsetname addr addr_len timeout w
               = map_option (\<lambda>(rc, w2). (Inr rc, w2)) (sendto_loop k ma 0 w1)"
    using ipset_operate_sends [OF al s0 nm, of addr plat timeout IPSET_ADD] na
    by (simp add: ipset_add_def ma_def en_def af_def w1)
  have del: "ipset_del plat k ipsetname addr addr_len w
               = map_option (\<lambda>(rc, w2). (Inr rc, w2)) (sendto_loop k md 0 w1)"
    using ipset_operate_sends [OF al s0 nm, of addr plat 0 IPSET_DEL] na
    by (simp add: ipset_del_def md_def en_def af_def w1)
  have loop: "sendto_loop k msg 0 w1
                = Some (sendto_ret k n,
                        w1\<lparr>events := events w1
                             @ concat (map (failed_attempt k (ipset_fd w1) msg) [0..<n])
                             @ [Sendto_call (ipset_fd w1) msg]\<rparr>)" for msg
    using sendto_loop_first_success [of n k 0 msg w1] fails ok by simp
  have st: "store plat 2 ma off_nlmsg_type (IPSET_DEL OR push_bit 8 NFNL_SUBSYS_IPSET) = Some md"
    if "timeout = 0 \<or> en = 0"
  proof -
    have e: "wire_timeout plat en timeout = wire_timeout plat en 0"
      using that by (auto simp: wire_timeout_def)
    have "Ld = La"
      by (simp add: La_def Ld_def ba_def bd_def nlmsg_len_buffer [OF nm a16] length_wire_body e)
    moreover have "store plat 2 ba off_nlmsg_type (IPSET_DEL OR push_bit 8 NFNL_SUBSYS_IPSET) = Some bd"
      unfolding ba_def bd_def by (rule store_type_buffer [OF e])
    ultimately show ?thesis
      using La by (simp add: ta td store_take off_nlmsg_type_def)
  qed
  let ?base = "28 + NETLINK_ALIGN (4 + (strlen ipsetname + 1))"
  have lip: "length (wire_ip plat addr af) = 4 + NETLINK_ALIGN (4 + length addr)"
    by (simp add: wire_ip_def wire_nested_def length_wire_attr)
  have tree: "\<exists>p s off ty ipb ip tb tt.
                 msg_attrs plat md = Some [p, s, NLAttr off ty ipb [ip]]
               \<and> msg_attrs plat ma = Some [p, s, NLAttr off ty (ipb @ tb) (ip # tt)]
               \<and> parse_attrs plat (off + 4 + length ipb) tb = Some tt
               \<and> find_attr (IPSET_ATTR_TIMEOUT OR NLA_F_NET_BYTEORDER) tt = timeout_attr plat ma
               \<and> length tt = (if timeout = 0 \<or> en = 0 then 0 else 1)"
    unfolding aa ad tma ba_def bd_def
    apply (rule exI [of _ "NLAttr 20 IPSET_ATTR_PROTOCOL (host_bytes plat 1 IPSET_PROTOCOL) []"])
    apply (rule exI [of _ "NLAttr 28 IPSET_ATTR_SETNAME (c_str ipsetname) []"])
    apply (rule exI [of _ ?base])
    apply (rule exI [of _ "NLA_F_NESTED OR IPSET_ATTR_DATA"])
    apply (rule exI [of _ "wire_ip plat addr af"])
    apply (rule exI [of _ "NLAttr (?base + 4) (NLA_F_NESTED OR IPSET_ATTR_IP) (drop 4 (wire_ip plat addr af))
                             [NLAttr (?base + 8)
                                ((if af = AF_INET then IPSET_ATTR_IPADDR_IPV4 else IPSET_ATTR_IPADDR_IPV6) OR NLA_F_NET_BYTEORDER)
                                addr []]"])
    apply (rule exI [of _ "wire_timeout plat en timeout"])
    apply (rule exI [of _ "wire_timeout_tree plat en timeout (?base + 8 + NETLINK_ALIGN (4 + length addr))"])
    apply (simp add: msg_attrs_buffer [OF nm a16] wire_tree_def Let_def wire_timeout_none
             wire_timeout_tree_none parse_wire_timeout lip add.assoc timeout_attr_buffer [OF nm a16]
             find_timeout_tree)
    apply (simp add: wire_timeout_tree_def)
    done
  show ?thesis
    apply (rule exI [of _ ma], rule exI [of _ md])
    apply (intro conjI)
                  apply (simp add: add loop)
                 apply (simp add: del loop)
                apply (simp add: IPSET_ADD_def)
               apply (simp add: IPSET_DEL_def)
              apply (simp add: ty ba_def nlmsg_type_buffer operation_codes)
             apply (simp add: ty bd_def nlmsg_type_buffer operation_codes)
            apply (simp add: ty ba_def bd_def nlmsg_type_buffer operation_codes)
           apply (simp add: fl ba_def bd_def nlmsg_flags_buffer)
          apply (simp add: fa ba_def bd_def msg_family_buffer)
         apply (simp add: la' nla)
        apply (simp add: ld' nld)
       apply (simp add: tmd bd_def timeout_attr_buffer [OF nm a16])
      apply (simp add: tma ba_def timeout_attr_buffer [OF nm a16] en_def)
     apply (rule impI, rule st, simp add: en_def)
    apply (rule tree [unfolded en_def])
    done
qed


theorem delete_differs_in_operation_and_timeout_witness:
  "strlen (c_bytes ''blocklist'') < IPSET_MAXNAMELEN \<and> int (length addr_v4) = 4
   \<and> sendto_ret kernel_flaky 0 < 0 \<and> sendto_ret kernel_flaky 1 < 0 \<and> sendto_ret kernel_flaky 2 \<ge> 0
   \<and> (\<exists>ma md.
          ipset_add x86_64 kernel_flaky (c_bytes ''blocklist'') addr_v4 4 30 (fresh_world 1)
            = Some (Inr 60, \<lparr>ipset_fd = 3, dns_conf_ipset_timeout_enable = 1,
                              events = [Socket_call, Sendto_call 3 ma, Nanosleep_call 0 10000,
                                        Sendto_call 3 ma, Nanosleep_call 0 10000, Sendto_call 3 ma]\<rparr>)
        \<and> ipset_del x86_64 kernel_flaky (c_bytes ''blocklist'') addr_v4 4 (fresh_world 1)
            = Some (Inr 60, \<lparr>ipset_fd = 3, dns_conf_ipset_timeout_enable = 1,
                              events = [Socket_call, Sendto_call 3 md, Nanosleep_call 0 10000,
                                        Sendto_call 3 md, Nanosleep_call 0 10000, Sendto_call 3 md]\<rparr>)
        \<and> nlmsg_type x86_64 ma = 1545 \<and> nlmsg_type x86_64 md = 1546
        \<and> timeout_attr x86_64 md = None \<and> timeout_attr x86_64 ma \<noteq> None)
   \<and> (\<exists>ma md.
          ipset_add x86_64 kernel_ok (c_bytes ''blocklist'') addr_v4 4 30 (open_world 0)
            = Some (Inr 60, \<lparr>ipset_fd = 3, dns_conf_ipset_timeout_enable = 0,
                              events = [Socket_call, Sendto_call 3 ma]\<rparr>)
        \<and> ipset_del x86_64 kernel_ok (c_bytes ''blocklist'') addr_v4 4 (open_world 0)
            = Some (Inr 60, \<lparr>ipset_fd = 3, dns_conf_ipset_timeout_enable = 0,
                              events = [Socket_call, Sendto_call 3 md]\<rparr>)
        \<and> store x86_64 2 ma off_nlmsg_type 1546 = Some md)"
proof -
  have h: "strlen (c_bytes ''blocklist'') < IPSET_MAXNAMELEN" "(4::int) = 4 \<or> (4::int) = 16"
    "int (length addr_v4) = 4"
    by (simp_all add: strlen_blocklist IPSET_MAXNAMELEN_def addr_v4_def)
  have f: "ipset_fd (fresh_world 1) > 0 \<or> socket_ret kernel_flaky \<ge> 0"
    "\<forall>j<2. sendto_ret kernel_flaky j < 0" "sendto_ret kernel_flaky 2 \<ge> 0"
    by (simp_all add: kernel_flaky_def)
  have o: "ipset_fd (open_world 0) > 0 \<or> socket_ret kernel_ok \<ge> 0"
    "\<forall>j<0. sendto_ret kernel_ok j < 0" "sendto_ret kernel_ok 0 \<ge> 0"
    by (simp_all add: kernel_ok_def)
  have c: "IPSET_ADD OR push_bit 8 NFNL_SUBSYS_IPSET = 1545" "IPSET_DEL OR push_bit 8 NFNL_SUBSYS_IPSET = 1546"
    by (simp_all add: IPSET_ADD_def IPSET_DEL_def NFNL_SUBSYS_IPSET_def)
  have wf: "snd (ipset_socket_init kernel_flaky (fresh_world 1))
              = \<lparr>ipset_fd = 3, dns_conf_ipset_timeout_enable = 1, events = [Socket_call]\<rparr>"
    by (simp add: ipset_socket_init_def kernel_flaky_def fresh_world_def Let_def)
  have wo: "snd (ipset_socket_init kernel_ok (open_world 0))
              = \<lparr>ipset_fd = 3, dns_conf_ipset_timeout_enable = 0, events = [Socket_call]\<rparr>"
    by (simp add: ipset_socket_init_def open_world_def)
  have e: "dns_conf_ipset_timeout_enable (fresh_world 1) = 1" "dns_conf_ipset_timeout_enable (open_world 0) = 0"
    by (simp_all add: fresh_world_def open_world_def)
  have fa: "failed_attempt kernel_flaky fd msg 0 = [Sendto_call fd msg, Nanosleep_call 0 10000]"
    "failed_attempt kernel_flaky fd msg (Suc 0) = [Sendto_call fd msg, Nanosleep_call 0 10000]" for fd msg
    by (simp_all add: failed_attempt_def transient_def kernel_flaky_def EAGAIN_def EINTR_def EWOULDBLOCK_def)
  have r: "sendto_ret kernel_flaky 2 = 60" "sendto_ret kernel_ok 0 = 60"
    by (simp_all add: kernel_flaky_def kernel_ok_def)
  have g: "sendto_ret kernel_flaky 0 < 0" "sendto_ret kernel_flaky 1 < 0"
    by (simp_all add: kernel_flaky_def)
  show ?thesis
    using h(1,3) g f(3)
      delete_differs_in_operation_and_timeout [OF h f wf [symmetric], of x86_64 30]
      delete_differs_in_operation_and_timeout [OF h o wo [symmetric], of x86_64 30]
    by (simp add: c e fa r upt_two) blast
qed

text \<open>
  C8. A wrong address length is found before any system call: add and delete return
  \<open>InvalidAddress\<close> and leave the process state as it was. A set name of 32 bytes or more
  is found after the socket has been looked after: no message is sent, and the state is
  unchanged when the socket is open already; when it is not, \<^verbatim>\<open>socket\<close> has been called
  and \<^verbatim>\<open>ipset_fd\<close> set before the name is checked, and the call fails with \<open>NameTooLong\<close>
  if that succeeded and with the socket error if it did not.
\<close>

theorem validation_before_send:
  "(addr_len \<noteq> 4 \<and> addr_len \<noteq> 16 \<longrightarrow>
      ipset_add plat k ipsetname addr addr_len timeout w = Some (Inl InvalidAddress, w)
      \<and> ipset_del plat k ipsetname addr addr_len w = Some (Inl InvalidAddress, w))
   \<and> ((addr_len = 4 \<or> addr_len = 16) \<and> IPSET_MAXNAMELEN \<le> strlen ipsetname \<longrightarrow>
      (\<exists>e w'. ipset_add plat k ipsetname addr addr_len timeout w = Some (Inl e, w')
             \<and> ipset_del plat k ipsetname addr addr_len w = Some (Inl e, w')
             \<and> (e = NameTooLong \<or> e = SocketCreationFailed)
             \<and> (e = NameTooLong \<longleftrightarrow> ipset_fd w > 0 \<or> socket_ret k \<ge> 0)
             \<and> (ipset_fd w > 0 \<longrightarrow> w' = w)
             \<and> (\<not> ipset_fd w > 0 \<longrightarrow>
                   w' = w\<lparr>ipset_fd := socket_ret k, events := events w @ [Socket_call]\<rparr>)))"
proof (intro conjI impI)
  assume "addr_len \<noteq> 4 \<and> addr_len \<noteq> 16"
  then show "ipset_add plat k ipsetname addr addr_len timeout w = Some (Inl InvalidAddress, w)"
    and "ipset_del plat k ipsetname addr addr_len w = Some (Inl InvalidAddress, w)"
    by (simp_all add: ipset_add_def ipset_del_def ipset_operate_invalid_addr)
next
  assume a: "(addr_len = 4 \<or> addr_len = 16) \<and> IPSET_MAXNAMELEN \<le> strlen ipsetname"
  have w': "snd (ipset_socket_init k w)
              = (if ipset_fd w > 0 then w
                 else w\<lparr>ipset_fd := socket_ret k, events := events w @ [Socket_call]\<rparr>)"
    by (simp add: ipset_socket_init_def Let_def)
  show "\<exists>e w'. ipset_add plat k ipsetname addr addr_len timeout w = Some (Inl e, w')
             \<and> ipset_del plat k ipsetname addr addr_len w = Some (Inl e, w')
             \<and> (e = NameTooLong \<or> e = SocketCreationFailed)
             \<and> (e = NameTooLong \<longleftrightarrow> ipset_fd w > 0 \<or> socket_ret k \<ge> 0)
             \<and> (ipset_fd w > 0 \<longrightarrow> w' = w)
             \<and> (\<not> ipset_fd w > 0 \<longrightarrow>
                   w' = w\<lparr>ipset_fd := socket_ret k, events := events w @ [Socket_call]\<rparr>)"
  proof (cases "fst (ipset_socket_init k w) = 0")
    case True
    show ?thesis
      using a True ipset_operate_long_name [of addr_len k w ipsetname plat addr _ _]
      by (intro exI [of _ NameTooLong] exI [of _ "snd (ipset_socket_init k w)"])
         (simp add: ipset_add_def ipset_del_def w' socket_init_ok [symmetric])
  next
    case False
    show ?thesis
      using a False ipset_operate_no_socket [of addr_len k w plat ipsetname addr _ _]
      by (intro exI [of _ SocketCreationFailed] exI [of _ "snd (ipset_socket_init k w)"])
         (simp add: ipset_add_def ipset_del_def w' socket_init_ok [symmetric])
  qed
qed

theorem validation_before_send_witness:
  "ipset_add x86_64 kernel_ok (c_bytes ''blocklist'') addr_v4 5 0 (fresh_world 0)
     = Some (Inl InvalidAddress, fresh_world 0)
   \<and> ipset_del x86_64 kernel_ok (c_bytes ''blocklist'') addr_v4 5 (fresh_world 0)
     = Some (Inl InvalidAddress, fresh_world 0)
   \<and> IPSET_MAXNAMELEN \<le> strlen (replicate 33 (97 :: byte))
   \<and> ipset_add x86_64 kernel_ok (replicate 33 97) addr_v4 4 0 (open_world 0)
     = Some (Inl NameTooLong, open_world 0)
   \<and> ipset_del x86_64 kernel_ok (replicate 33 97) addr_v4 4 (open_world 0)
     = Some (Inl NameTooLong, open_world 0)"
  using validation_before_send [of 5 x86_64 kernel_ok "c_bytes ''blocklist''" addr_v4 0 "fresh_world 0"]
    validation_before_send [of 4 x86_64 kernel_ok "replicate 33 97" addr_v4 0 "open_world 0"]
  by (auto simp: strlen_replicate IPSET_MAXNAMELEN_def open_world_def)

theorem validation_side_effect_counterexample:
  "ipset_add x86_64 kernel_ok (replicate 33 97) addr_v4 4 0 (fresh_world 0)
     = Some (Inl NameTooLong, \<lparr>ipset_fd = 3, dns_conf_ipset_timeout_enable = 0, events = [Socket_call]\<rparr>)
   \<and> ipset_del x86_64 kernel_ok (replicate 33 97) addr_v4 4 (fresh_world 0)
     = Some (Inl NameTooLong, \<lparr>ipset_fd = 3, dns_conf_ipset_timeout_enable = 0, events = [Socket_call]\<rparr>)
   \<and> \<lparr>ipset_fd = 3, dns_conf_ipset_timeout_enable = 0, events = [Socket_call]\<rparr> \<noteq> fresh_world 0"
proof -
  have s: "fst (ipset_socket_init kernel_ok (fresh_world 0)) = 0"
    by (simp add: socket_init_ok kernel_ok_def)
  have w: "snd (ipset_socket_init kernel_ok (fresh_world 0))
             = \<lparr>ipset_fd = 3, dns_conf_ipset_timeout_enable = 0, events = [Socket_call]\<rparr>"
    by (simp add: ipset_socket_init_def kernel_ok_def fresh_world_def)
  have n: "IPSET_MAXNAMELEN \<le> strlen (replicate 33 (97 :: byte))"
    by (simp add: strlen_replicate IPSET_MAXNAMELEN_def)
  have "\<lparr>ipset_fd = 3, dns_conf_ipset_timeout_enable = 0, events = [Socket_call]\<rparr> \<noteq> fresh_world 0"
    by (simp add: fresh_world_def)
  then show ?thesis
    by (simp add: ipset_add_def ipset_del_def ipset_operate_long_name [OF _ s n] w)
qed

text \<open>
  C9. The send loop returns as soon as a send has a non-negative result. After a failure
  with \<^verbatim>\<open>EAGAIN\<close>, \<^verbatim>\<open>EWOULDBLOCK\<close> or \<^verbatim>\<open>EINTR\<close> it sleeps 10000 nanoseconds and sends
  again. The retries have no bound: after \<open>n\<close> such failures, for any \<open>n\<close>, the loop is
  still sending, and where no send ever succeeds it never returns.
\<close>

theorem sendto_loop_retries_until_success:
  "(sendto_ret k i \<ge> 0 \<longrightarrow>
      sendto_loop k msg i w
        = Some (sendto_ret k i, w\<lparr>events := events w @ [Sendto_call (ipset_fd w) msg]\<rparr>))
   \<and> ((\<forall>j<n. sendto_ret k (i + j) < 0 \<and>
              (sendto_errno k (i + j) = EAGAIN \<or> sendto_errno k (i + j) = EWOULDBLOCK
                 \<or> sendto_errno k (i + j) = EINTR))
        \<and> sendto_ret k (i + n) \<ge> 0 \<longrightarrow>
      sendto_loop k msg i w
        = Some (sendto_ret k (i + n),
                w\<lparr>events := events w
                     @ concat (replicate n [Sendto_call (ipset_fd w) msg, Nanosleep_call 0 10000])
                     @ [Sendto_call (ipset_fd w) msg]\<rparr>))
   \<and> ((\<forall>j. sendto_ret k (i + j) < 0) \<longrightarrow> sendto_loop k msg i w = None)"
proof (intro conjI impI)
  assume "sendto_ret k i \<ge> 0"
  then show "sendto_loop k msg i w
               = Some (sendto_ret k i, w\<lparr>events := events w @ [Sendto_call (ipset_fd w) msg]\<rparr>)"
    by (rule sendto_loop_success)
next
  assume a: "(\<forall>j<n. sendto_ret k (i + j) < 0 \<and>
                (sendto_errno k (i + j) = EAGAIN \<or> sendto_errno k (i + j) = EWOULDBLOCK
                   \<or> sendto_errno k (i + j) = EINTR))
             \<and> sendto_ret k (i + n) \<ge> 0"
  then have f: "\<forall>j<n. sendto_ret k (i + j) < 0" and s: "sendto_ret k (i + n) \<ge> 0" by auto
  have "map (\<lambda>j. failed_attempt k (ipset_fd w) msg (i + j)) [0..<n]
          = replicate n [Sendto_call (ipset_fd w) msg, Nanosleep_call 0 10000]"
    using a by (auto simp: list_eq_iff_nth_eq failed_attempt_def transient_def)
  then show "sendto_loop k msg i w
               = Some (sendto_ret k (i + n),
                       w\<lparr>events := events w
                            @ concat (replicate n [Sendto_call (ipset_fd w) msg, Nanosleep_call 0 10000])
                            @ [Sendto_call (ipset_fd w) msg]\<rparr>)"
    using sendto_loop_first_success [OF f s, of msg w] by simp
next
  assume "\<forall>j. sendto_ret k (i + j) < 0"
  then show "sendto_loop k msg i w = None" by (rule sendto_loop_never)
qed

theorem sendto_loop_retries_until_success_witness:
  "sendto_loop kernel_flaky [1, 2] 0 (fresh_world 0)
     = Some (60, \<lparr>ipset_fd = 0, dns_conf_ipset_timeout_enable = 0,
                   events = [Sendto_call 0 [1, 2], Nanosleep_call 0 10000,
                             Sendto_call 0 [1, 2], Nanosleep_call 0 10000,
                             Sendto_call 0 [1, 2]]\<rparr>)
   \<and> sendto_loop kernel_ok [1, 2] 0 (fresh_world 0)
     = Some (60, \<lparr>ipset_fd = 0, dns_conf_ipset_timeout_enable = 0, events = [Sendto_call 0 [1, 2]]\<rparr>)
   \<and> sendto_loop kernel_busy [1, 2] 0 (fresh_world 0) = None"
  using sendto_loop_retries_until_success [of kernel_flaky 0 "[1, 2]" "fresh_world 0" 2]
    sendto_loop_retries_until_success [of kernel_ok 0 "[1, 2]" "fresh_world 0" 0]
    sendto_loop_retries_until_success [of kernel_busy 0 "[1, 2]" "fresh_world 0" 0]
  by (simp add: kernel_flaky_def kernel_ok_def kernel_busy_def fresh_world_def EWOULDBLOCK_def EAGAIN_def EINTR_def
        numeral_2_eq_2 All_less_Suc)

theorem retry_bound_counterexample:
  "ipset_add x86_64 kernel_busy (c_bytes ''blocklist'') addr_v4 4 0 (fresh_world 0) = None"
proof -
  have s: "fst (ipset_socket_init kernel_busy (fresh_world 0)) = 0"
    by (simp add: socket_init_ok kernel_busy_def)
  have n: "strlen (c_bytes ''blocklist'') < IPSET_MAXNAMELEN"
    by (simp add: strlen_blocklist IPSET_MAXNAMELEN_def)
  have "sendto_loop kernel_busy m 0 w = None" for m w
    by (rule sendto_loop_never) (simp add: kernel_busy_def)
  then show ?thesis
    unfolding ipset_add_def
    by (subst ipset_operate_sends [OF _ s n]) (simp_all add: addr_v4_def)
qed

text \<open>
  C10. \<^verbatim>\<open>_ipset_support_timeout\<close> does not look at the set name, and two messages built
  for two valid names with the same timeout and the same flag either both hold a TIMEOUT
  attribute or both hold none: they hold one exactly when the timeout is positive and the
  flag is set.
\<close>

theorem timeout_emission_ignores_name:
  assumes "strlen name1 < IPSET_MAXNAMELEN" and "strlen name2 < IPSET_MAXNAMELEN"
    and "addr_len \<le> 16" and "addr_len \<le> length addr"
  shows "ipset_support_timeout enable name1 = ipset_support_timeout enable name2
         \<and> (\<exists>b1 b2. ipset_build plat enable name1 addr addr_len timeout operate af = Some b1
                  \<and> ipset_build plat enable name2 addr addr_len timeout operate af = Some b2
                  \<and> (timeout_attr plat b1 = None \<longleftrightarrow> timeout_attr plat b2 = None)
                  \<and> (timeout_attr plat b1 \<noteq> None \<longleftrightarrow> 0 < timeout \<and> enable \<noteq> 0))"
proof -
  have t: "length (take addr_len addr) \<le> 16" using assms(3) by simp
  show ?thesis
    by (simp add: ipset_support_timeout_def ipset_build_buffer [OF assms(1,3,4)]
          ipset_build_buffer [OF assms(2,3,4)] timeout_attr_buffer [OF assms(1) t]
          timeout_attr_buffer [OF assms(2) t])
qed

theorem timeout_emission_ignores_name_witness:
  "strlen (c_bytes ''blocklist'') < IPSET_MAXNAMELEN \<and> strlen (c_bytes ''a'') < IPSET_MAXNAMELEN
   \<and> (4::nat) \<le> 16 \<and> 4 \<le> length addr_v4
   \<and> ipset_support_timeout 1 (c_bytes ''blocklist'') = ipset_support_timeout 1 (c_bytes ''a'')
   \<and> (\<exists>b1 b2. ipset_build x86_64 1 (c_bytes ''blocklist'') addr_v4 4 30 IPSET_ADD AF_INET = Some b1
            \<and> ipset_build x86_64 1 (c_bytes ''a'') addr_v4 4 30 IPSET_ADD AF_INET = Some b2
            \<and> (timeout_attr x86_64 b1 = None \<longleftrightarrow> timeout_attr x86_64 b2 = None)
            \<and> (timeout_attr x86_64 b1 \<noteq> None \<longleftrightarrow> (0::nat) < 30 \<and> (1::int) \<noteq> 0))"
proof -
  have h: "strlen (c_bytes ''blocklist'') < IPSET_MAXNAMELEN" "strlen (c_bytes ''a'') < IPSET_MAXNAMELEN"
    "(4::nat) \<le> 16" "4 \<le> length addr_v4"
    by (simp_all add: c_bytes_def strlen_def IPSET_MAXNAMELEN_def addr_v4_def)
  show ?thesis
    using h timeout_emission_ignores_name [OF h, of 1 x86_64 30 IPSET_ADD AF_INET] by simp
qed

end
